(* ===== verification/Prelude.thy ===== *)
theory Prelude
  imports Main "HOL-Library.Word"
begin

text \<open>
  What every component shares: the machine integer types of the C and Go code, sub-ranges of
  byte lists, and the little- and big-endian readings of byte lists as words (the object file
  and the Go reader are built for a little-endian target, \<open>TARGET ?= bpfel\<close> in
  src/src/netmon-go/Makefile), each with both round trips.
\<close>

unbundle bit_operations_syntax

named_theorems wire_simps \<open>reading and writing words and fields as bytes\<close>
named_theorems inv_intros \<open>preservation of the components' invariants\<close>

type_synonym u8 = "8 word"
type_synonym u16 = "16 word"
type_synonym u32 = "32 word"
type_synonym u64 = "64 word"

section \<open>Sub-ranges of lists\<close>

definition subrange :: "nat \<Rightarrow> nat \<Rightarrow> 'a list \<Rightarrow> 'a list" where
  "subrange off n xs = take n (drop off xs)"

lemma length_subrange [simp]: "off + n \<le> length xs \<Longrightarrow> length (subrange off n xs) = n"
  by (simp add: subrange_def)

lemma length_subrange_min: "length (subrange off n xs) = min n (length xs - off)"
  by (simp add: subrange_def min.commute)

lemma nth_subrange [simp]: "off + n \<le> length xs \<Longrightarrow> i < n \<Longrightarrow> subrange off n xs ! i = xs ! (off + i)"
  by (simp add: subrange_def)

lemma subrange_subrange: "off' + m \<le> n \<Longrightarrow> subrange off' m (subrange off n xs) = subrange (off + off') m xs"
  by (simp add: subrange_def drop_take add.commute)

lemma subrange_append1: "off + n \<le> length xs \<Longrightarrow> subrange off n (xs @ ys) = subrange off n xs"
  by (simp add: subrange_def)

lemma subrange_append2: "length xs \<le> off \<Longrightarrow> subrange off n (xs @ ys) = subrange (off - length xs) n ys"
  by (simp add: subrange_def)

lemma subrange_all [simp]: "length xs = n \<Longrightarrow> subrange 0 n xs = xs"
  by (simp add: subrange_def)

section \<open>Words as bytes\<close>

definition word_le :: "u8 list \<Rightarrow> 'a::len word" where
  "word_le bs = foldr (\<lambda>b acc. ucast b OR push_bit 8 acc) bs 0"

definition bytes_le :: "nat \<Rightarrow> 'a::len word \<Rightarrow> u8 list" where
  "bytes_le n w = map (\<lambda>i. ucast (drop_bit (8 * i) w)) [0..<n]"

definition word_be :: "u8 list \<Rightarrow> 'a::len word" where
  "word_be bs = word_le (rev bs)"

lemma length_bytes_le [simp]: "length (bytes_le n w) = n"
  by (simp add: bytes_le_def)

lemma word_le_Nil [simp]: "word_le [] = 0"
  by (simp add: word_le_def)

lemma word_le_Cons: "word_le (b # bs) = ucast b OR push_bit 8 (word_le bs)"
  by (simp add: word_le_def)

lemma bit_word_le:
  "bit (word_le bs :: 'a::len word) k \<longleftrightarrow>
     k < LENGTH('a) \<and> k div 8 < length bs \<and> bit (bs ! (k div 8)) (k mod 8)"
proof (induction bs arbitrary: k)
  case Nil
  then show ?case by simp
next
  case (Cons b bs)
  show ?case
  proof (cases "k < 8")
    case True
    then show ?thesis
      by (auto simp: word_le_Cons bit_simps)
  next
    case False
    then have "k div 8 = Suc ((k - 8) div 8)" and "k mod 8 = (k - 8) mod 8"
      by (simp_all add: le_div_geq le_mod_geq)
    then show ?thesis
      using False Cons.IH [of "k - 8"]
      by (auto simp: word_le_Cons bit_simps dest: bit_imp_le_length)
  qed
qed

lemma nth_bytes_le [simp]: "i < n \<Longrightarrow> bytes_le n w ! i = ucast (drop_bit (8 * i) w)"
  by (simp add: bytes_le_def)

lemma word_le_bytes_le [wire_simps]:
  fixes w :: "'a::len word"
  assumes "LENGTH('a) \<le> 8 * n"
  shows "word_le (bytes_le n w) = w"
proof (rule bit_word_eqI)
  fix k
  assume k: "k < LENGTH('a)"
  then have "k div 8 < n" using assms by linarith
  with k show "bit (word_le (bytes_le n w) :: 'a word) k = bit w k"
    by (simp add: bit_word_le bit_simps)
qed

lemma bytes_le_word_le [wire_simps]:
  assumes "length bs = n" and "8 * n \<le> LENGTH('a)"
  shows "bytes_le n (word_le bs :: 'a::len word) = bs"
proof (rule nth_equalityI)
  fix i
  assume i: "i < length (bytes_le n (word_le bs :: 'a word))"
  show "bytes_le n (word_le bs :: 'a word) ! i = bs ! i"
  proof (rule bit_word_eqI)
    fix k
    assume k: "k < LENGTH(8)"
    then have k8: "k < 8" by simp
    from i have lt: "i < n" by simp
    then have "8 * i + k < LENGTH('a)" using assms(2) k8 by linarith
    moreover have "(8 * i + k) div 8 = i" and "(8 * i + k) mod 8 = k"
      using k8 by simp_all
    ultimately show "bit (bytes_le n (word_le bs :: 'a word) ! i) k = bit (bs ! i) k"
      using lt k8 assms(1) by (simp add: bit_word_le bit_simps)
  qed
qed (simp add: assms(1))

lemma word_be_bytes_be [wire_simps]:
  fixes w :: "'a::len word"
  shows "LENGTH('a) \<le> 8 * n \<Longrightarrow> word_be (rev (bytes_le n w)) = w"
  by (simp add: word_be_def word_le_bytes_le)

lemma unat_u8_less [simp]: "unat (b :: u8) < 256"
  by (rule order_less_le_trans [OF unsigned_less]) simp

lemma unat_ucast_u8_u16 [simp]: "unat (ucast (b :: u8) :: u16) = unat b"
proof -
  have "unat b < 2 ^ 16" by (rule order_less_trans [OF unat_u8_less]) simp
  then have "take_bit 16 (unat b) = unat b" by (rule take_bit_nat_eq_self)
  then show ?thesis by (simp add: unsigned_ucast_eq)
qed

lemma unat_push8: "unat (push_bit 8 (ucast (b :: u8)) :: u16) = 256 * unat b"
proof -
  have "256 * unat b < 65536" using unat_u8_less [of b] by linarith
  then show ?thesis
    by (simp add: unsigned_push_bit_eq take_bit_nat_eq_self push_bit_eq_mult unat_word_ariths)
qed

lemma word_be16: "(word_be [a, b] :: u16) = ucast b + push_bit 8 (ucast a)"
proof -
  have "(ucast b :: u16) AND push_bit 8 (ucast a) = 0"
    by (rule bit_word_eqI) (auto simp: bit_simps dest: bit_imp_le_length)
  then show ?thesis
    by (simp add: word_be_def word_le_Cons disjunctive_add_eq_or)
qed

lemma unat_word_be16: "unat (word_be [a, b] :: u16) = 256 * unat a + unat b"
proof -
  have "unat b + 256 * unat a < 65536"
    using unat_u8_less [of a] unat_u8_less [of b] by linarith
  then show ?thesis
    by (simp only: word_be16 unat_word_ariths unat_push8 unat_ucast_u8_u16) simp
qed

end
