(* ===== verification/DnsCache.thy ===== *)
theory DnsCache
  imports Prelude
begin

text \<open>
  The TTL-aware name cache of src/src/netmon-go/internal/dnscache/cache.go. A Go string is its
  list of bytes (\<open>string\<close>), a slice is a list, \<open>uint64\<close> time stamps wrap. \<open>*Entry\<close> is an index
  into \<open>entries\<close>. The Unicode part of \<open>strings.EqualFold\<close>, which Go enters at the first byte
  outside ASCII with what is left of both strings, is the parameter \<open>uf\<close>.
\<close>

section \<open>Data\<close>

definition MaxNames :: nat where "MaxNames = 8"
definition MaxHostname :: nat where "MaxHostname = 253"
definition zeroTTLGracePeriod :: u64 where "zeroTTLGracePeriod = 5 * 1000000000"

record dns_name =
  nm_value :: string
  nm_expires :: u64

record entry =
  en_container :: u64
  en_family :: int
  en_address :: "u8 list"
  en_names :: "dns_name list"
  en_touched :: u64

record cache =
  ca_entries :: "entry list"
  ca_capacity :: int

definition zero_entry :: entry where
  "zero_entry = \<lparr>en_container = 0, en_family = 0, en_address = replicate 16 0, en_names = [],
     en_touched = 0\<rparr>"

text \<open>\<open>make\<close> panics on a negative capacity: \<open>None\<close>.\<close>

definition cache_new :: "int \<Rightarrow> cache option" where
  "cache_new cap = (if cap < 0 then None else Some \<lparr>ca_entries = [], ca_capacity = cap\<rparr>)"

definition cache_count :: "cache \<Rightarrow> nat" where
  "cache_count c = length (ca_entries c)"

section \<open>Names\<close>

definition addr_size :: "int \<Rightarrow> nat" where
  "addr_size family = (if family = 2 then 4 else if family = 10 then 16 else 0)"

definition clean_name :: "string \<Rightarrow> string" where
  "clean_name name = (if name \<noteq> [] \<and> last name = CHR ''.'' then butlast name else name)"

abbreviation byte_code :: "char \<Rightarrow> nat" where "byte_code c \<equiv> of_char c"

definition fold_eq_ascii :: "char \<Rightarrow> char \<Rightarrow> bool" where
  "fold_eq_ascii a b \<longleftrightarrow> a = b \<or>
     (let sr = min (byte_code a) (byte_code b); tr = max (byte_code a) (byte_code b)
      in 65 \<le> sr \<and> sr \<le> 90 \<and> tr = sr + 32)"

fun equal_fold :: "(string \<Rightarrow> string \<Rightarrow> bool) \<Rightarrow> string \<Rightarrow> string \<Rightarrow> bool" where
  "equal_fold uf (a # s) (b # t) =
     (if byte_code a \<ge> 128 \<or> byte_code b \<ge> 128 then uf (a # s) (b # t)
      else fold_eq_ascii a b \<and> equal_fold uf s t)"
| "equal_fold uf s t = (length s = length t)"

section \<open>Lookup\<close>

definition entry_matches :: "u64 \<Rightarrow> int \<Rightarrow> u8 list \<Rightarrow> entry \<Rightarrow> bool" where
  "entry_matches cid family address e \<longleftrightarrow> en_container e = cid \<and> en_family e = family \<and>
     take (addr_size family) (en_address e) = take (addr_size family) address"

fun find_loop :: "(entry \<Rightarrow> bool) \<Rightarrow> nat \<Rightarrow> entry list \<Rightarrow> nat option" where
  "find_loop P i [] = None"
| "find_loop P i (e # es) = (if P e then Some i else find_loop P (Suc i) es)"

definition cache_find_index :: "cache \<Rightarrow> u64 \<Rightarrow> int \<Rightarrow> u8 list \<Rightarrow> nat option" where
  "cache_find_index c cid family address =
     (if addr_size family = 0 \<or> length address < addr_size family then None
      else find_loop (entry_matches cid family address) 0 (ca_entries c))"

definition cache_find :: "cache \<Rightarrow> u64 \<Rightarrow> int \<Rightarrow> u8 list \<Rightarrow> entry option" where
  "cache_find c cid family address =
     map_option (\<lambda>i. ca_entries c ! i) (cache_find_index c cid family address)"

section \<open>Insertion\<close>

text \<open>The least recently touched entry, the first of them; \<open>oldest\<close> starts at the largest word.\<close>

fun victim_loop :: "nat \<Rightarrow> nat \<Rightarrow> u64 \<Rightarrow> entry list \<Rightarrow> nat" where
  "victim_loop i victim oldest [] = victim"
| "victim_loop i victim oldest (e # es) =
     (if en_touched e < oldest then victim_loop (Suc i) i (en_touched e) es
      else victim_loop (Suc i) victim oldest es)"

definition claim_slot :: "cache \<Rightarrow> entry list \<times> nat" where
  "claim_slot c =
     (if int (length (ca_entries c)) \<ge> ca_capacity c
      then let victim = victim_loop 0 0 (NOT 0) (ca_entries c)
           in ((ca_entries c)[victim := zero_entry], victim)
      else (ca_entries c @ [zero_entry], length (ca_entries c)))"

definition expiry :: "u32 \<Rightarrow> u64 \<Rightarrow> u64" where
  "expiry ttl now =
     (if ttl = 0 then now + zeroTTLGracePeriod else now + ucast ttl * 1000000000)"

fun refresh_name :: "(string \<Rightarrow> string \<Rightarrow> bool) \<Rightarrow> string \<Rightarrow> u64 \<Rightarrow> dns_name list \<Rightarrow> dns_name list option"
where
  "refresh_name uf name expires [] = None"
| "refresh_name uf name expires (n # ns) =
     (if equal_fold uf (nm_value n) name then Some (n\<lparr>nm_expires := expires\<rparr> # ns)
      else map_option ((#) n) (refresh_name uf name expires ns))"

definition put_name :: "(string \<Rightarrow> string \<Rightarrow> bool) \<Rightarrow> string \<Rightarrow> u64 \<Rightarrow> dns_name list \<Rightarrow> dns_name list" where
  "put_name uf name expires ns =
     (case refresh_name uf name expires ns of
        Some ns' \<Rightarrow> ns'
      | None \<Rightarrow>
          if length ns < MaxNames then ns @ [\<lparr>nm_value = name, nm_expires = expires\<rparr>]
          else (tl ns @ [last ns])[length ns - 1 := \<lparr>nm_value = name, nm_expires = expires\<rparr>])"

definition cache_put ::
  "(string \<Rightarrow> string \<Rightarrow> bool) \<Rightarrow> cache \<Rightarrow> u64 \<Rightarrow> int \<Rightarrow> u8 list \<Rightarrow> string \<Rightarrow> u32 \<Rightarrow> u64 \<Rightarrow> cache" where
  "cache_put uf c cid family address name ttl now =
     (let addressSize = addr_size family; name = clean_name name in
      if name = [] \<or> length name > MaxHostname \<or> addressSize = 0 \<or> length address < addressSize
         \<or> ca_capacity c \<le> 0
      then c
      else
        let (es, i) =
          (case cache_find_index c cid family address of
             Some i \<Rightarrow> (ca_entries c, i)
           | None \<Rightarrow>
               let (es, i) = claim_slot c; e = es ! i
               in (es[i := e\<lparr>en_container := cid, en_family := family,
                            en_address := take addressSize address @
                              drop addressSize (en_address e)\<rparr>], i));
          e = (es ! i)\<lparr>en_touched := now\<rparr>
        in c\<lparr>ca_entries := es[i := e\<lparr>en_names := put_name uf name (expiry ttl now) (en_names e)\<rparr>]\<rparr>)"

section \<open>Expiry\<close>

text \<open>
  Go's in-place filtering (\<open>kept := xs[:0]\<close>, then \<open>append(kept, \<dots>)\<close> while ranging over \<open>xs\<close>): one
  array, read at \<open>i\<close> and overwritten at \<open>k\<close>; the result is its first \<open>k\<close> elements.
\<close>

function compact :: "('a \<Rightarrow> 'a option) \<Rightarrow> nat \<Rightarrow> nat \<Rightarrow> 'a list \<Rightarrow> 'a list" where
  "compact f i k xs =
     (if i < length xs then
        (case f (xs ! i) of
           Some x \<Rightarrow> compact f (Suc i) (Suc k) (xs[k := x])
         | None \<Rightarrow> compact f (Suc i) k xs)
      else take k xs)"
  by pat_completeness auto
termination
  by (relation "measure (\<lambda>(f, i, k, xs). length xs - i)") auto

declare compact.simps [simp del]

definition prune_names :: "u64 \<Rightarrow> dns_name list \<Rightarrow> dns_name list" where
  "prune_names now ns = compact (\<lambda>n. if nm_expires n > now then Some n else None) 0 0 ns"

definition prune_entry :: "u64 \<Rightarrow> entry \<Rightarrow> entry option" where
  "prune_entry now e =
     (let e = e\<lparr>en_names := prune_names now (en_names e)\<rparr>
      in if length (en_names e) > 0 then Some e else None)"

definition cache_prune :: "cache \<Rightarrow> u64 \<Rightarrow> cache" where
  "cache_prune c now = c\<lparr>ca_entries := compact (prune_entry now) 0 0 (ca_entries c)\<rparr>"

end
