(* ===== verification/DnsCacheFacts.thy ===== *)
theory DnsCacheFacts
  imports DnsCache
begin

text \<open>
  The cache as an abstract map. \<open>abs_cache\<close> reads the entry list as a map from (container,
  family, address) to entries; the lemmas show that lookup is application of that map, that
  insertion is one update of it (and one removal when the cache is full), that expiry filters
  every entry's names, and that all of them keep \<open>cache_inv\<close>.
\<close>

section \<open>In-place filtering is filtering\<close>

lemma compact_general:
  "k \<le> i \<Longrightarrow> i \<le> length xs \<Longrightarrow> compact f i k xs = take k xs @ List.map_filter f (drop i xs)"
proof (induction f i k xs rule: compact.induct)
  case (1 f i k xs)
  show ?case
  proof (cases "i < length xs")
    case False
    with "1.prems" show ?thesis by (subst compact.simps) simp
  next
    case True
    have d: "drop i xs = xs ! i # drop (Suc i) xs" using True by (simp add: Cons_nth_drop_Suc)
    show ?thesis
    proof (cases "f (xs ! i)")
      case None
      with True 1 show ?thesis
        by (simp add: compact.simps [of f i k xs] d map_filter_simps)
    next
      case (Some x)
      have "take (Suc k) (xs[k := x]) = take k xs @ [x]"
        using True 1 by (simp add: take_Suc_conv_app_nth)
      moreover have "drop (Suc i) (xs[k := x]) = drop (Suc i) xs"
        using 1 by simp
      ultimately show ?thesis using True 1 Some
        by (simp add: compact.simps [of f i k xs] d map_filter_simps)
    qed
  qed
qed

lemma compact_map_filter: "compact f 0 0 xs = List.map_filter f xs"
  by (simp add: compact_general)

lemma map_filter_if: "List.map_filter (\<lambda>x. if P x then Some x else None) xs = filter P xs"
  by (induction xs) (simp_all add: map_filter_simps)

lemma prune_names_filter: "prune_names now ns = filter (\<lambda>n. nm_expires n > now) ns"
  by (simp add: prune_names_def compact_map_filter map_filter_if)

lemma cache_prune_entries:
  "ca_entries (cache_prune c now) = List.map_filter (prune_entry now) (ca_entries c)"
  by (simp add: cache_prune_def compact_map_filter)

lemma cache_prune_capacity [simp]: "ca_capacity (cache_prune c now) = ca_capacity c"
  by (simp add: cache_prune_def)

section \<open>The abstract map\<close>

type_synonym cache_key = "u64 \<times> int \<times> u8 list"

definition key_of :: "entry \<Rightarrow> cache_key" where
  "key_of e = (en_container e, en_family e, take (addr_size (en_family e)) (en_address e))"

definition key_at :: "u64 \<Rightarrow> int \<Rightarrow> u8 list \<Rightarrow> cache_key" where
  "key_at cid family address = (cid, family, take (addr_size family) address)"

definition valid_key :: "int \<Rightarrow> u8 list \<Rightarrow> bool" where
  "valid_key family address \<longleftrightarrow> addr_size family \<noteq> 0 \<and> addr_size family \<le> length address"

definition abs_entries :: "entry list \<Rightarrow> cache_key \<Rightarrow> entry option" where
  "abs_entries es k = find (\<lambda>e. key_of e = k) es"

definition abs_cache :: "cache \<Rightarrow> cache_key \<Rightarrow> entry option" where
  "abs_cache c = abs_entries (ca_entries c)"

lemma entry_matches_key: "entry_matches cid family address e \<longleftrightarrow> key_of e = key_at cid family address"
  by (auto simp: entry_matches_def key_of_def key_at_def)

lemma find_loop_shift:
  "find_loop P i es = (case find_loop P 0 es of None \<Rightarrow> None | Some j \<Rightarrow> Some (i + j))"
proof (induction es arbitrary: i)
  case (Cons e es)
  show ?case
  proof (cases "P e")
    case False
    then show ?thesis
      using Cons.IH [of "Suc i"] Cons.IH [of "Suc 0"] by (cases "find_loop P 0 es") simp_all
  qed simp
qed simp

lemma find_loop_Some:
  "find_loop P 0 es = Some i \<Longrightarrow> i < length es \<and> P (es ! i) \<and> (\<forall>j < i. \<not> P (es ! j))"
proof (induction es arbitrary: i)
  case (Cons e es)
  show ?case
  proof (cases "P e")
    case False
    with Cons.prems obtain j where "find_loop P 0 es = Some j" and "i = Suc j"
      using find_loop_shift [of P "Suc 0" es] by (cases "find_loop P 0 es") simp_all
    with Cons.IH False show ?thesis by (auto simp: less_Suc_eq_0_disj)
  qed (use Cons.prems in auto)
qed simp

lemma find_loop_None: "find_loop P i es = None \<longleftrightarrow> (\<forall>e \<in> set es. \<not> P e)"
  by (induction es arbitrary: i) auto

lemma find_loop_abs:
  "map_option (\<lambda>i. es ! i) (find_loop (\<lambda>e. key_of e = k) 0 es) = abs_entries es k"
proof (induction es)
  case (Cons e es)
  show ?case
  proof (cases "key_of e = k")
    case False
    then show ?thesis
      using Cons.IH find_loop_shift [of "\<lambda>e. key_of e = k" "Suc 0" es]
      by (cases "find_loop (\<lambda>e. key_of e = k) 0 es") (simp_all add: abs_entries_def)
  qed (simp add: abs_entries_def)
qed (simp add: abs_entries_def)

lemma matches_fun: "entry_matches cid family address = (\<lambda>e. key_of e = key_at cid family address)"
  by (rule ext) (rule entry_matches_key)

lemma cache_find_abs:
  "cache_find c cid family address =
     (if valid_key family address then abs_cache c (key_at cid family address) else None)"
  by (auto simp: cache_find_def cache_find_index_def valid_key_def matches_fun find_loop_abs
      abs_cache_def)

lemma abs_entries_Some: "abs_entries es k = Some e \<Longrightarrow> e \<in> set es \<and> key_of e = k"
  by (auto simp: abs_entries_def find_Some_iff)

lemma abs_entries_None: "abs_entries es k = None \<longleftrightarrow> (\<forall>e \<in> set es. key_of e \<noteq> k)"
  by (auto simp: abs_entries_def find_None_iff)

lemma abs_entries_in:
  "distinct (map key_of es) \<Longrightarrow> e \<in> set es \<Longrightarrow> abs_entries es (key_of e) = Some e"
  by (induction es) (auto simp: abs_entries_def)

text \<open>Replacing one entry of a list with distinct keys.\<close>

lemma distinct_key_update:
  assumes "distinct (map key_of es)" and "i < length es"
    and "\<And>j. j < length es \<Longrightarrow> j \<noteq> i \<Longrightarrow> key_of (es ! j) \<noteq> key_of e"
  shows "distinct (map key_of (es[i := e]))"
proof -
  have "key_of (es[i := e] ! a) \<noteq> key_of (es[i := e] ! b)"
    if "a < length es" "b < length es" "a \<noteq> b" for a b
    using that assms(1,2) assms(3) [of a] assms(3) [of b]
    by (cases "a = i"; cases "b = i") (auto simp: distinct_conv_nth)
  then show ?thesis by (simp add: distinct_conv_nth)
qed

lemma abs_entries_update:
  assumes d: "distinct (map key_of es)" and i: "i < length es"
    and new: "\<And>j. j < length es \<Longrightarrow> j \<noteq> i \<Longrightarrow> key_of (es ! j) \<noteq> key_of e"
  shows "abs_entries (es[i := e]) = (abs_entries es)(key_of (es ! i) := None, key_of e \<mapsto> e)"
proof
  fix k
  let ?es = "es[i := e]"
  have d': "distinct (map key_of ?es)" using assms by (rule distinct_key_update)
  have e_in: "e \<in> set ?es" using i by (simp add: set_update_memI)
  show "abs_entries ?es k = ((abs_entries es)(key_of (es ! i) := None, key_of e \<mapsto> e)) k"
  proof (cases "k = key_of e")
    case True
    then show ?thesis using abs_entries_in [OF d' e_in] by simp
  next
    case ke: False
    show ?thesis
    proof (cases "k = key_of (es ! i)")
      case True
      have "key_of x \<noteq> k" if "x \<in> set ?es" for x
      proof -
        from that obtain j where j: "j < length es" "x = ?es ! j" by (auto simp: in_set_conv_nth)
        show ?thesis
        proof (cases "j = i")
          case False
          then have "x = es ! j" using j by simp
          with d i j False True show ?thesis by (auto simp: distinct_conv_nth)
        qed (use j i ke in auto)
      qed
      then have "abs_entries ?es k = None" by (simp add: abs_entries_None)
      with ke True show ?thesis by simp
    next
      case False
      have "abs_entries ?es k = abs_entries es k"
      proof (cases "abs_entries es k")
        case None
        then have "\<forall>x \<in> set ?es. key_of x \<noteq> k"
          using ke set_update_subset_insert [of es i e] by (auto simp: abs_entries_None)
        then have "abs_entries ?es k = None" by (simp add: abs_entries_None)
        then show ?thesis using None by simp
      next
        case (Some x)
        then have x: "x \<in> set es" "key_of x = k" by (auto dest: abs_entries_Some)
        then obtain j where j: "j < length es" "es ! j = x" by (auto simp: in_set_conv_nth)
        then have "j \<noteq> i" using False x by auto
        then have "?es ! j = x" using j by simp
        then have "x \<in> set ?es" using j by (metis length_list_update nth_mem)
        then show ?thesis using abs_entries_in [OF d'] x Some by auto
      qed
      with ke False show ?thesis by simp
    qed
  qed
qed

lemma find_append: "find P (xs @ ys) = (case find P xs of None \<Rightarrow> find P ys | Some x \<Rightarrow> Some x)"
  by (induction xs) auto

lemma abs_entries_append:
  assumes "\<forall>x \<in> set es. key_of x \<noteq> key_of e"
  shows "abs_entries (es @ [e]) = (abs_entries es)(key_of e \<mapsto> e)"
proof
  fix k
  have "abs_entries es (key_of e) = None" using assms by (simp add: abs_entries_None)
  then show "abs_entries (es @ [e]) k = ((abs_entries es)(key_of e \<mapsto> e)) k"
    by (auto simp: abs_entries_def find_append split: option.split)
qed

section \<open>Names of an entry\<close>

abbreviation differ :: "(string \<Rightarrow> string \<Rightarrow> bool) \<Rightarrow> dns_name \<Rightarrow> dns_name \<Rightarrow> bool" where
  "differ uf a b \<equiv> \<not> equal_fold uf (nm_value a) (nm_value b)"

definition name_ok :: "dns_name \<Rightarrow> bool" where
  "name_ok n \<longleftrightarrow> nm_value n \<noteq> [] \<and> length (nm_value n) \<le> MaxHostname"

definition names_ok :: "(string \<Rightarrow> string \<Rightarrow> bool) \<Rightarrow> dns_name list \<Rightarrow> bool" where
  "names_ok uf ns \<longleftrightarrow> length ns \<le> MaxNames \<and> (\<forall>n \<in> set ns. name_ok n) \<and> sorted_wrt (differ uf) ns"

lemma refresh_name_None:
  "refresh_name uf name x ns = None \<longleftrightarrow> (\<forall>n \<in> set ns. \<not> equal_fold uf (nm_value n) name)"
  by (induction ns) auto

lemma refresh_name_values:
  "refresh_name uf name x ns = Some ns' \<Longrightarrow> map nm_value ns' = map nm_value ns"
  by (induction ns arbitrary: ns') (auto split: if_splits)

lemma refresh_name_Some:
  "refresh_name uf name x ns = Some ns' \<Longrightarrow>
     \<exists>i < length ns. equal_fold uf (nm_value (ns ! i)) name \<and>
       (\<forall>j < i. \<not> equal_fold uf (nm_value (ns ! j)) name) \<and> ns' = ns[i := (ns ! i)\<lparr>nm_expires := x\<rparr>]"
proof (induction ns arbitrary: ns')
  case (Cons n ns)
  show ?case
  proof (cases "equal_fold uf (nm_value n) name")
    case True
    with Cons.prems show ?thesis by (intro exI [of _ 0]) simp
  next
    case False
    with Cons.prems obtain ms where "refresh_name uf name x ns = Some ms" and "ns' = n # ms"
      by auto
    with Cons.IH [of ms] obtain i where "i < length ns" "equal_fold uf (nm_value (ns ! i)) name"
      "\<forall>j < i. \<not> equal_fold uf (nm_value (ns ! j)) name" "ms = ns[i := (ns ! i)\<lparr>nm_expires := x\<rparr>]"
      by blast
    with False \<open>ns' = n # ms\<close> show ?thesis
      by (intro exI [of _ "Suc i"]) (auto simp: less_Suc_eq_0_disj)
  qed
qed simp

lemma shift_in: "ns \<noteq> [] \<Longrightarrow> (tl ns @ [last ns])[length ns - 1 := n] = tl ns @ [n]"
  by (cases ns) (simp_all add: list_update_append)

lemma put_name_cases:
  obtains (refreshed) i where "i < length ns" and "equal_fold uf (nm_value (ns ! i)) name"
      and "\<And>j. j < i \<Longrightarrow> \<not> equal_fold uf (nm_value (ns ! j)) name"
      and "put_name uf name x ns = ns[i := (ns ! i)\<lparr>nm_expires := x\<rparr>]"
  | (appended) "\<And>n. n \<in> set ns \<Longrightarrow> \<not> equal_fold uf (nm_value n) name" and "length ns < MaxNames"
      and "put_name uf name x ns = ns @ [\<lparr>nm_value = name, nm_expires = x\<rparr>]"
  | (shifted) "\<And>n. n \<in> set ns \<Longrightarrow> \<not> equal_fold uf (nm_value n) name" and "MaxNames \<le> length ns"
      and "put_name uf name x ns = tl ns @ [\<lparr>nm_value = name, nm_expires = x\<rparr>]"
proof (cases "refresh_name uf name x ns")
  case None
  then have no: "\<And>n. n \<in> set ns \<Longrightarrow> \<not> equal_fold uf (nm_value n) name"
    by (simp add: refresh_name_None)
  show ?thesis
  proof (cases "length ns < MaxNames")
    case True
    with no None show ?thesis by (intro appended) (simp_all add: put_name_def)
  next
    case False
    then have "ns \<noteq> []" by (auto simp: MaxNames_def)
    with no None False show ?thesis by (intro shifted) (simp_all add: put_name_def shift_in del: One_nat_def)
  qed
next
  case (Some ns')
  then have p: "put_name uf name x ns = ns'" by (simp add: put_name_def)
  from refresh_name_Some [OF Some] p show ?thesis by (blast intro: refreshed)
qed

lemma put_name_nonempty: "put_name uf name x ns \<noteq> []"
  by (rule put_name_cases [of ns uf name x]) auto

lemma map_value_update: "i < length ns \<Longrightarrow> map nm_value (ns[i := (ns ! i)\<lparr>nm_expires := x\<rparr>]) = map nm_value ns"
  by (rule nth_equalityI) (auto simp: nth_list_update)

lemma sorted_wrt_differ: "sorted_wrt (differ uf) ns \<longleftrightarrow> sorted_wrt (\<lambda>a b. \<not> equal_fold uf a b) (map nm_value ns)"
  by (simp add: sorted_wrt_map)

lemma in_tlD: "n \<in> set (tl ns) \<Longrightarrow> n \<in> set ns"
  by (cases ns) auto

lemma sorted_wrt_tl: "sorted_wrt P ns \<Longrightarrow> sorted_wrt P (tl ns)"
  by (cases ns) auto

lemma put_name_ok [inv_intros]:
  assumes ns: "names_ok uf ns" and name: "name \<noteq> []" "length name \<le> MaxHostname"
  shows "names_ok uf (put_name uf name x ns)"
proof (cases rule: put_name_cases [of ns uf name x])
  case (refreshed i)
  then have "map nm_value (put_name uf name x ns) = map nm_value ns"
    by (simp add: map_value_update)
  moreover have "(\<forall>n \<in> set (put_name uf name x ns). name_ok n)"
  proof -
    have "name_ok ((ns ! i)\<lparr>nm_expires := x\<rparr>)"
      using ns refreshed(1) by (simp add: names_ok_def name_ok_def)
    then show ?thesis
      using ns set_update_subset_insert [of ns i] by (auto simp: names_ok_def refreshed(4))
  qed
  moreover have "length (put_name uf name x ns) = length ns" using refreshed(4) by simp
  ultimately show ?thesis using ns by (simp add: names_ok_def sorted_wrt_differ)
next
  case appended
  with ns name show ?thesis by (auto simp: names_ok_def name_ok_def sorted_wrt_append)
next
  case shifted
  moreover have "sorted_wrt (differ uf) (tl ns @ [\<lparr>nm_value = name, nm_expires = x\<rparr>])"
    using ns shifted(1) by (auto simp: names_ok_def sorted_wrt_append sorted_wrt_tl dest: in_tlD)
  ultimately show ?thesis using ns name
    by (auto simp: names_ok_def name_ok_def MaxNames_def dest: in_tlD)
qed

text \<open>The inserted name is there with its new expiry, and no other name appears.\<close>

lemma put_name_has:
  "\<exists>n \<in> set (put_name uf name x ns).
     (nm_value n = name \<or> equal_fold uf (nm_value n) name) \<and> nm_expires n = x"
proof (cases rule: put_name_cases [of ns uf name x])
  case (refreshed i)
  then have "(ns ! i)\<lparr>nm_expires := x\<rparr> \<in> set (put_name uf name x ns)"
    by (simp add: set_update_memI)
  with refreshed(2) show ?thesis by (intro bexI) auto
qed auto

lemma put_name_from:
  assumes "n \<in> set (put_name uf name x ns)"
  shows "n \<in> set ns \<or> nm_expires n = x \<and> (nm_value n = name \<or> equal_fold uf (nm_value n) name)"
proof (cases rule: put_name_cases [of ns uf name x])
  case (refreshed i)
  then have "n \<in> insert ((ns ! i)\<lparr>nm_expires := x\<rparr>) (set ns)"
    using assms set_update_subset_insert [of ns i "(ns ! i)\<lparr>nm_expires := x\<rparr>"] by auto
  with refreshed(2) show ?thesis by auto
next
  case appended
  then show ?thesis using assms by auto
next
  case shifted
  then show ?thesis using assms by (auto dest: in_tlD)
qed

end
