(* ===== verification/DnsCacheOps.thy ===== *)
theory DnsCacheOps
  imports DnsCacheFacts
begin

text \<open>
  Insertion and expiry as operations of the abstract map, the cache invariant, and the interface
  \<open>name_cache\<close> that the DNS parser and the event handler rely on, interpreted on the model.
\<close>

section \<open>The eviction victim\<close>

lemma victim_loop_min:
  "(victim_loop i v old es = v \<and> (\<forall>e \<in> set es. \<not> en_touched e < old)) \<or>
   (\<exists>j < length es. victim_loop i v old es = i + j \<and> en_touched (es ! j) < old \<and>
      (\<forall>l < length es. en_touched (es ! j) \<le> en_touched (es ! l)) \<and>
      (\<forall>l < j. en_touched (es ! j) < en_touched (es ! l)))"
proof (induction es arbitrary: i v old)
  case (Cons e es)
  show ?case
  proof (cases "en_touched e < old")
    case False
    with Cons.IH [of "Suc i" v old] consider
      (keep) "victim_loop (Suc i) v old es = v" "\<forall>e \<in> set es. \<not> en_touched e < old"
    | (found) j where "j < length es" "victim_loop (Suc i) v old es = Suc i + j"
        "en_touched (es ! j) < old" "\<forall>l < length es. en_touched (es ! j) \<le> en_touched (es ! l)"
        "\<forall>l < j. en_touched (es ! j) < en_touched (es ! l)"
      by blast
    then show ?thesis
    proof cases
      case keep
      with False show ?thesis by simp
    next
      case (found j)
      with False show ?thesis
        by (intro disjI2 exI [of _ "Suc j"]) (auto simp: less_Suc_eq_0_disj)
    qed
  next
    case True
    with Cons.IH [of "Suc i" i "en_touched e"] consider
      (keep) "victim_loop (Suc i) i (en_touched e) es = i" "\<forall>x \<in> set es. \<not> en_touched x < en_touched e"
    | (found) j where "j < length es" "victim_loop (Suc i) i (en_touched e) es = Suc i + j"
        "en_touched (es ! j) < en_touched e"
        "\<forall>l < length es. en_touched (es ! j) \<le> en_touched (es ! l)"
        "\<forall>l < j. en_touched (es ! j) < en_touched (es ! l)"
      by blast
    then show ?thesis
    proof cases
      case keep
      with True show ?thesis
        by (intro disjI2 exI [of _ 0]) (auto simp: nth_Cons' not_less all_set_conv_all_nth)
    next
      case (found j)
      with True show ?thesis
        by (intro disjI2 exI [of _ "Suc j"]) (auto simp: less_Suc_eq_0_disj)
    qed
  qed
qed simp

definition victim :: "entry list \<Rightarrow> nat" where
  "victim es = victim_loop 0 0 (NOT 0) es"

lemma victim_least:
  assumes "es \<noteq> []"
  shows "victim es < length es"
    and "l < length es \<Longrightarrow> en_touched (es ! victim es) \<le> en_touched (es ! l)"
    and "l < victim es \<Longrightarrow> en_touched (es ! victim es) < en_touched (es ! l)"
proof -
  have *: "(victim es = 0 \<and> (\<forall>e \<in> set es. \<not> en_touched e < - 1)) \<or>
    (victim es < length es \<and> (\<forall>l < length es. en_touched (es ! victim es) \<le> en_touched (es ! l)) \<and>
      (\<forall>l < victim es. en_touched (es ! victim es) < en_touched (es ! l)))"
    using victim_loop_min [of 0 0 "NOT 0" es] by (auto simp: victim_def)
  have max: "\<not> (e :: u64) < - 1 \<longleftrightarrow> e = - 1" for e
    by (simp add: not_less word_order.extremum_unique)
  show "victim es < length es" using * assms by auto
  show "l < length es \<Longrightarrow> en_touched (es ! victim es) \<le> en_touched (es ! l)"
    using * assms by (auto simp: max)
  show "l < victim es \<Longrightarrow> en_touched (es ! victim es) < en_touched (es ! l)"
    using * by auto
qed

section \<open>Insertion as a map update\<close>

definition put_accepts :: "cache \<Rightarrow> int \<Rightarrow> u8 list \<Rightarrow> string \<Rightarrow> bool" where
  "put_accepts c family address name \<longleftrightarrow> clean_name name \<noteq> [] \<and>
     length (clean_name name) \<le> MaxHostname \<and> valid_key family address \<and> 0 < ca_capacity c"

definition fresh_entry :: "u64 \<Rightarrow> int \<Rightarrow> u8 list \<Rightarrow> entry" where
  "fresh_entry cid family address = \<lparr>en_container = cid, en_family = family,
     en_address = take (addr_size family) address @ replicate (16 - addr_size family) 0,
     en_names = [], en_touched = 0\<rparr>"

definition touch_entry ::
  "(string \<Rightarrow> string \<Rightarrow> bool) \<Rightarrow> string \<Rightarrow> u32 \<Rightarrow> u64 \<Rightarrow> entry \<Rightarrow> entry" where
  "touch_entry uf name ttl now e = e\<lparr>en_touched := now,
     en_names := put_name uf (clean_name name) (expiry ttl now) (en_names e)\<rparr>"

text \<open>The entry stored under the key after an accepted insertion.\<close>

definition stored_entry ::
  "(string \<Rightarrow> string \<Rightarrow> bool) \<Rightarrow> cache \<Rightarrow> u64 \<Rightarrow> int \<Rightarrow> u8 list \<Rightarrow> string \<Rightarrow> u32 \<Rightarrow> u64 \<Rightarrow> entry" where
  "stored_entry uf c cid family address name ttl now = touch_entry uf name ttl now
     (case abs_cache c (key_at cid family address) of
        Some e \<Rightarrow> e | None \<Rightarrow> fresh_entry cid family address)"

definition victim_key :: "cache \<Rightarrow> cache_key" where
  "victim_key c = key_of (ca_entries c ! victim (ca_entries c))"

definition after_eviction :: "cache \<Rightarrow> cache_key \<Rightarrow> cache_key \<Rightarrow> entry option" where
  "after_eviction c k =
     (if abs_cache c k \<noteq> None \<or> int (length (ca_entries c)) < ca_capacity c then abs_cache c
      else (abs_cache c)(victim_key c := None))"

definition entry_ok :: "(string \<Rightarrow> string \<Rightarrow> bool) \<Rightarrow> entry \<Rightarrow> bool" where
  "entry_ok uf e \<longleftrightarrow> addr_size (en_family e) \<noteq> 0 \<and> length (en_address e) = 16 \<and>
     drop (addr_size (en_family e)) (en_address e) = replicate (16 - addr_size (en_family e)) 0 \<and>
     en_names e \<noteq> [] \<and> names_ok uf (en_names e)"

definition cache_inv :: "(string \<Rightarrow> string \<Rightarrow> bool) \<Rightarrow> cache \<Rightarrow> bool" where
  "cache_inv uf c \<longleftrightarrow> int (length (ca_entries c)) \<le> ca_capacity c \<and>
     distinct (map key_of (ca_entries c)) \<and> (\<forall>e \<in> set (ca_entries c). entry_ok uf e)"

lemma addr_size_cases: "addr_size f \<noteq> 0 \<Longrightarrow> addr_size f = 4 \<or> addr_size f = 16"
  by (simp add: addr_size_def split: if_splits)

lemma addr_size_le: "addr_size f \<le> 16"
  by (simp add: addr_size_def)

lemma key_of_touch [simp]: "key_of (touch_entry uf name ttl now e) = key_of e"
  by (simp add: key_of_def touch_entry_def)

lemma key_of_fresh: "valid_key family address \<Longrightarrow> key_of (fresh_entry cid family address) = key_at cid family address"
  by (simp add: key_of_def key_at_def fresh_entry_def valid_key_def)

lemma key_of_stored:
  "valid_key family address \<Longrightarrow>
     key_of (stored_entry uf c cid family address name ttl now) = key_at cid family address"
  by (auto simp: stored_entry_def key_of_fresh abs_cache_def split: option.split dest: abs_entries_Some)

text \<open>Where the stored entry goes.\<close>

definition put_entries ::
  "(string \<Rightarrow> string \<Rightarrow> bool) \<Rightarrow> cache \<Rightarrow> u64 \<Rightarrow> int \<Rightarrow> u8 list \<Rightarrow> string \<Rightarrow> u32 \<Rightarrow> u64 \<Rightarrow> entry list" where
  "put_entries uf c cid family address name ttl now =
     (let e = stored_entry uf c cid family address name ttl now; es = ca_entries c in
      case cache_find_index c cid family address of
        Some i \<Rightarrow> es[i := e]
      | None \<Rightarrow> if int (length es) < ca_capacity c then es @ [e] else es[victim es := e])"

lemma find_index_abs:
  assumes "valid_key family address"
  shows "(case cache_find_index c cid family address of
      None \<Rightarrow> abs_cache c (key_at cid family address) = None
    | Some i \<Rightarrow> i < length (ca_entries c) \<and> key_of (ca_entries c ! i) = key_at cid family address \<and>
        abs_cache c (key_at cid family address) = Some (ca_entries c ! i))"
proof -
  have f: "cache_find_index c cid family address = find_loop (\<lambda>e. key_of e = key_at cid family address) 0 (ca_entries c)"
    using assms by (simp add: cache_find_index_def valid_key_def matches_fun)
  show ?thesis
  proof (cases "find_loop (\<lambda>e. key_of e = key_at cid family address) 0 (ca_entries c)")
    case None
    then have "abs_cache c (key_at cid family address) = None"
      by (simp add: find_loop_None abs_cache_def abs_entries_None)
    with None f show ?thesis by (simp del: find_loop.simps)
  next
    case (Some i)
    then show ?thesis using f find_loop_Some [OF Some]
        find_loop_abs [of "ca_entries c" "key_at cid family address"] by (simp add: abs_cache_def)
  qed
qed

lemma cache_put_rejected:
  "\<not> put_accepts c family address name \<Longrightarrow> cache_put uf c cid family address name ttl now = c"
  by (auto simp: cache_put_def put_accepts_def valid_key_def Let_def)

lemma zero_address [simp]: "drop n (en_address zero_entry) = replicate (16 - n) 0"
  by (simp add: zero_entry_def)

lemma fresh_of_zero:
  "zero_entry\<lparr>en_container := cid, en_family := family,
     en_address := take (addr_size family) address @ drop (addr_size family) (en_address zero_entry)\<rparr>
   = fresh_entry cid family address"
  by (simp add: fresh_entry_def) (simp add: zero_entry_def)

lemma claim_slot_room:
  "int (length (ca_entries c)) < ca_capacity c \<Longrightarrow>
     claim_slot c = (ca_entries c @ [zero_entry], length (ca_entries c))"
  by (simp add: claim_slot_def)

lemma claim_slot_full:
  "\<not> int (length (ca_entries c)) < ca_capacity c \<Longrightarrow>
     claim_slot c = ((ca_entries c)[victim (ca_entries c) := zero_entry], victim (ca_entries c))"
  by (simp add: claim_slot_def victim_def Let_def)

lemma cache_put_accepted:
  assumes acc: "put_accepts c family address name"
  shows "cache_put uf c cid family address name ttl now =
    c\<lparr>ca_entries := put_entries uf c cid family address name ttl now\<rparr>"
proof -
  have g: "\<not> (clean_name name = [] \<or> length (clean_name name) > MaxHostname \<or> addr_size family = 0 \<or>
      length address < addr_size family \<or> ca_capacity c \<le> 0)" and k: "valid_key family address"
    using acc by (auto simp: put_accepts_def valid_key_def)
  show ?thesis
  proof (cases "cache_find_index c cid family address")
    case (Some i)
    then show ?thesis using find_index_abs [OF k, of c cid]
      unfolding cache_put_def Let_def if_not_P [OF g]
      by (simp add: put_entries_def stored_entry_def touch_entry_def)
  next
    case None
    then have a: "abs_cache c (key_at cid family address) = None"
      using find_index_abs [OF k, of c cid] by simp
    show ?thesis
    proof (cases "int (length (ca_entries c)) < ca_capacity c")
      case True
      then show ?thesis using None a
        unfolding cache_put_def Let_def if_not_P [OF g]
        by (simp add: claim_slot_room fresh_of_zero put_entries_def Let_def
            stored_entry_def touch_entry_def del: zero_address)
    next
      case False
      then have "ca_entries c \<noteq> []" using acc by (auto simp: put_accepts_def)
      then have "victim (ca_entries c) < length (ca_entries c)" by (rule victim_least)
      with False None a show ?thesis
        unfolding cache_put_def Let_def if_not_P [OF g]
        by (simp add: claim_slot_full fresh_of_zero Let_def
            put_entries_def stored_entry_def touch_entry_def del: zero_address)
    qed
  qed
qed

lemma distinct_keyD:
  "distinct (map key_of es) \<Longrightarrow> i < length es \<Longrightarrow> j < length es \<Longrightarrow>
     key_of (es ! i) = key_of (es ! j) \<Longrightarrow> i = j"
  using nth_eq_iff_index_eq [of "map key_of es" i j] by simp

lemma abs_cache_put:
  assumes inv: "cache_inv uf c" and acc: "put_accepts c family address name"
  shows "abs_cache (cache_put uf c cid family address name ttl now) =
    (after_eviction c (key_at cid family address))
      (key_at cid family address \<mapsto> stored_entry uf c cid family address name ttl now)"
proof -
  let ?k = "key_at cid family address"
  let ?e = "stored_entry uf c cid family address name ttl now"
  let ?es = "ca_entries c"
  have k: "valid_key family address" using acc by (simp add: put_accepts_def)
  have ke: "key_of ?e = ?k" by (rule key_of_stored [OF k])
  have d: "distinct (map key_of ?es)" using inv by (simp add: cache_inv_def)
  have res: "abs_cache (cache_put uf c cid family address name ttl now) =
      abs_entries (put_entries uf c cid family address name ttl now)"
    by (simp add: cache_put_accepted [OF acc] abs_cache_def)
  show ?thesis
  proof (cases "cache_find_index c cid family address")
    case (Some i)
    then have i: "i < length ?es" "key_of (?es ! i) = ?k" "abs_cache c ?k = Some (?es ! i)"
      using find_index_abs [OF k, of c cid] by auto
    have "key_of (?es ! j) \<noteq> key_of ?e" if "j < length ?es" "j \<noteq> i" for j
      using that i ke distinct_keyD [OF d that(1) i(1)] by auto
    then have "abs_entries (?es[i := ?e]) = (abs_entries ?es)(key_of (?es ! i) := None, key_of ?e \<mapsto> ?e)"
      by (rule abs_entries_update [OF d i(1)])
    then show ?thesis
      using Some i ke unfolding res by (simp add: put_entries_def after_eviction_def abs_cache_def)
  next
    case None
    then have a: "abs_cache c ?k = None" using find_index_abs [OF k, of c cid] by simp
    then have new: "\<forall>x \<in> set ?es. key_of x \<noteq> key_of ?e" by (simp add: ke abs_cache_def abs_entries_None)
    show ?thesis
    proof (cases "int (length ?es) < ca_capacity c")
      case True
      with abs_entries_append [OF new] None a ke show ?thesis
        unfolding res by (simp add: put_entries_def after_eviction_def abs_cache_def)
    next
      case False
      then have "?es \<noteq> []" using acc by (auto simp: put_accepts_def)
      then have v: "victim ?es < length ?es" by (rule victim_least)
      have "abs_entries (?es[victim ?es := ?e]) =
          (abs_entries ?es)(key_of (?es ! victim ?es) := None, key_of ?e \<mapsto> ?e)"
        using new by (intro abs_entries_update [OF d v]) simp
      with False None a ke show ?thesis
        unfolding res by (simp add: put_entries_def after_eviction_def abs_cache_def victim_key_def Let_def)
    qed
  qed
qed

section \<open>The invariant\<close>

lemma entry_ok_touch:
  assumes "addr_size (en_family e) \<noteq> 0" and "length (en_address e) = 16"
    and "drop (addr_size (en_family e)) (en_address e) = replicate (16 - addr_size (en_family e)) 0"
    and "names_ok uf (en_names e)" and "clean_name name \<noteq> []" and "length (clean_name name) \<le> MaxHostname"
  shows "entry_ok uf (touch_entry uf name ttl now e)"
  using assms by (simp add: entry_ok_def touch_entry_def put_name_nonempty put_name_ok)

lemma stored_entry_ok:
  assumes inv: "cache_inv uf c" and acc: "put_accepts c family address name"
  shows "entry_ok uf (stored_entry uf c cid family address name ttl now)"
proof (cases "abs_cache c (key_at cid family address)")
  case None
  have "addr_size family \<noteq> 0" "addr_size family \<le> length address"
    using acc by (simp_all add: put_accepts_def valid_key_def)
  then show ?thesis
    using acc addr_size_le [of family] None
    by (simp add: stored_entry_def) (intro entry_ok_touch; simp add: fresh_entry_def put_accepts_def
        names_ok_def)
next
  case (Some e)
  then have "e \<in> set (ca_entries c)" by (auto simp: abs_cache_def dest: abs_entries_Some)
  then have "entry_ok uf e" using inv by (simp add: cache_inv_def)
  then show ?thesis
    using acc Some by (simp add: stored_entry_def) (intro entry_ok_touch; simp add: entry_ok_def put_accepts_def)
qed

lemma cache_put_inv [inv_intros]:
  assumes inv: "cache_inv uf c"
  shows "cache_inv uf (cache_put uf c cid family address name ttl now)"
proof (cases "put_accepts c family address name")
  case False
  with inv show ?thesis by (simp add: cache_put_rejected)
next
  case acc: True
  let ?k = "key_at cid family address"
  let ?e = "stored_entry uf c cid family address name ttl now"
  let ?es = "ca_entries c"
  have k: "valid_key family address" using acc by (simp add: put_accepts_def)
  have ke: "key_of ?e = ?k" by (rule key_of_stored [OF k])
  have d: "distinct (map key_of ?es)" and cap: "int (length ?es) \<le> ca_capacity c"
    and ok: "\<forall>e \<in> set ?es. entry_ok uf e"
    using inv by (simp_all add: cache_inv_def)
  have e_ok: "entry_ok uf ?e" by (rule stored_entry_ok [OF inv acc])
  have upd: "cache_inv uf (c\<lparr>ca_entries := ?es[i := ?e]\<rparr>)"
    if i: "i < length ?es" and new: "\<And>j. j < length ?es \<Longrightarrow> j \<noteq> i \<Longrightarrow> key_of (?es ! j) \<noteq> key_of ?e" for i
  proof -
    have "set (?es[i := ?e]) \<subseteq> insert ?e (set ?es)" by (rule set_update_subset_insert)
    then have "\<forall>x \<in> set (?es[i := ?e]). entry_ok uf x" using ok e_ok by auto
    then show ?thesis using distinct_key_update [OF d i new] cap by (simp add: cache_inv_def)
  qed
  show ?thesis
  proof (cases "cache_find_index c cid family address")
    case (Some i)
    then have i: "i < length ?es" "key_of (?es ! i) = ?k"
      using find_index_abs [OF k, of c cid] by auto
    have "key_of (?es ! j) \<noteq> key_of ?e" if "j < length ?es" "j \<noteq> i" for j
      using that i ke distinct_keyD [OF d that(1) i(1)] by auto
    from upd [OF i(1) this] Some show ?thesis
      by (simp add: cache_put_accepted [OF acc] put_entries_def)
  next
    case None
    then have "abs_cache c ?k = None" using find_index_abs [OF k, of c cid] by simp
    then have new: "\<forall>x \<in> set ?es. key_of x \<noteq> key_of ?e" by (simp add: ke abs_cache_def abs_entries_None)
    show ?thesis
    proof (cases "int (length ?es) < ca_capacity c")
      case True
      have "key_of ?e \<notin> key_of ` set ?es" using new by auto
      with None True d ok e_ok show ?thesis
        by (simp add: cache_put_accepted [OF acc] put_entries_def cache_inv_def)
    next
      case False
      then have "?es \<noteq> []" using acc by (auto simp: put_accepts_def)
      then have v: "victim ?es < length ?es" by (rule victim_least)
      from upd [OF v] new None False show ?thesis
        by (simp add: cache_put_accepted [OF acc] put_entries_def Let_def)
    qed
  qed
qed

lemma cache_new_inv: "cache_new cap = Some c \<Longrightarrow> cache_inv uf c"
  by (auto simp: cache_new_def cache_inv_def split: if_splits)

lemma cache_put_capacity [simp]:
  "ca_capacity (cache_put uf c cid family address name ttl now) = ca_capacity c"
  by (cases "put_accepts c family address name")
    (simp_all add: cache_put_rejected cache_put_accepted)

section \<open>Expiry as filtering\<close>

definition live_names :: "u64 \<Rightarrow> dns_name list \<Rightarrow> dns_name list" where
  "live_names now ns = filter (\<lambda>n. now < nm_expires n) ns"

definition live_entry :: "u64 \<Rightarrow> entry \<Rightarrow> entry option" where
  "live_entry now e = (if live_names now (en_names e) = [] then None
     else Some (e\<lparr>en_names := live_names now (en_names e)\<rparr>))"

lemma prune_entry_live: "prune_entry now e = live_entry now e"
  by (simp add: prune_entry_def live_entry_def live_names_def prune_names_filter Let_def)

lemma key_of_live: "live_entry now e = Some e' \<Longrightarrow> key_of e' = key_of e"
  by (auto simp: live_entry_def key_of_def split: if_splits)

lemma set_map_filter: "x \<in> set (List.map_filter f xs) \<longleftrightarrow> (\<exists>y \<in> set xs. f y = Some x)"
  by (induction xs) (auto simp: map_filter_simps split: option.splits)

lemma prune_entries_in:
  "e' \<in> set (ca_entries (cache_prune c now)) \<longleftrightarrow> (\<exists>e \<in> set (ca_entries c). live_entry now e = Some e')"
  by (simp add: cache_prune_entries set_map_filter prune_entry_live)

lemma find_map_filter:
  assumes "\<And>x y. f x = Some y \<Longrightarrow> g y = g x" and "distinct (map g xs)"
  shows "find (\<lambda>y. g y = k) (List.map_filter f xs) = Option.bind (find (\<lambda>x. g x = k) xs) f"
  using assms(2)
proof (induction xs)
  case (Cons x xs)
  show ?case
  proof (cases "g x = k")
    case True
    then have "find (\<lambda>y. g y = k) xs = None"
      using Cons.prems by (auto simp: find_None_iff) (metis image_eqI)
    with True Cons assms(1) show ?thesis by (auto simp: map_filter_simps split: option.split)
  next
    case False
    with Cons assms(1) show ?thesis by (auto simp: map_filter_simps split: option.split)
  qed
qed (simp add: map_filter_simps)

lemma abs_cache_prune:
  assumes "cache_inv uf c"
  shows "abs_cache (cache_prune c now) k = Option.bind (abs_cache c k) (live_entry now)"
proof -
  have d: "distinct (map key_of (ca_entries c))" using assms by (simp add: cache_inv_def)
  have "prune_entry now = live_entry now" by (rule ext) (rule prune_entry_live)
  then show ?thesis
    using find_map_filter [of "live_entry now" key_of "ca_entries c" k, OF key_of_live d]
    by (simp add: abs_cache_def abs_entries_def cache_prune_entries)
qed

lemma names_ok_filter: "names_ok uf ns \<Longrightarrow> names_ok uf (filter P ns)"
  by (auto simp: names_ok_def sorted_wrt_filter intro: le_trans [OF length_filter_le])

lemma entry_ok_live: "entry_ok uf e \<Longrightarrow> live_entry now e = Some e' \<Longrightarrow> entry_ok uf e'"
  by (auto simp: live_entry_def entry_ok_def live_names_def names_ok_filter split: if_splits)

lemma length_map_filter: "length (List.map_filter f xs) \<le> length xs"
  by (induction xs) (auto simp: map_filter_simps split: option.split)

lemma distinct_map_filter:
  assumes "\<And>x y. f x = Some y \<Longrightarrow> g y = g x" and "distinct (map g xs)"
  shows "distinct (map g (List.map_filter f xs))"
  using assms(2)
proof (induction xs)
  case (Cons x xs)
  then have "g x \<notin> g ` set (List.map_filter f xs)"
    by (auto simp: set_map_filter dest!: assms(1))
  with Cons assms(1) show ?case by (auto simp: map_filter_simps split: option.split)
qed (simp add: map_filter_simps)

lemma cache_prune_inv [inv_intros]:
  assumes inv: "cache_inv uf c"
  shows "cache_inv uf (cache_prune c now)"
proof -
  have "prune_entry now = live_entry now" by (rule ext) (rule prune_entry_live)
  then have es: "ca_entries (cache_prune c now) = List.map_filter (live_entry now) (ca_entries c)"
    by (simp add: cache_prune_entries)
  have "int (length (List.map_filter (live_entry now) (ca_entries c))) \<le> ca_capacity c"
    using inv length_map_filter [of "live_entry now" "ca_entries c"] by (simp add: cache_inv_def)
  moreover have "distinct (map key_of (List.map_filter (live_entry now) (ca_entries c)))"
    using inv by (intro distinct_map_filter) (auto simp: key_of_live cache_inv_def)
  moreover have "\<forall>e \<in> set (List.map_filter (live_entry now) (ca_entries c)). entry_ok uf e"
    using inv by (auto simp: set_map_filter cache_inv_def) (blast intro: entry_ok_live)
  ultimately show ?thesis by (simp add: cache_inv_def es)
qed

section \<open>The interface\<close>

text \<open>A history is a list of calls, oldest first.\<close>

datatype cache_op = OpPut u64 int "u8 list" string u32 u64 | OpPrune u64

text \<open>One call of a history, given the two operations.\<close>

fun apply_op ::
  "('c \<Rightarrow> u64 \<Rightarrow> int \<Rightarrow> u8 list \<Rightarrow> string \<Rightarrow> u32 \<Rightarrow> u64 \<Rightarrow> 'c) \<Rightarrow> ('c \<Rightarrow> u64 \<Rightarrow> 'c) \<Rightarrow>
     cache_op \<Rightarrow> 'c \<Rightarrow> 'c" where
  "apply_op put prune (OpPut cid family address name ttl now) c = put c cid family address name ttl now"
| "apply_op put prune (OpPrune now) c = prune c now"

text \<open>
  What a client of the cache may rely on, over an abstract state: names of a key, insertion of a
  name under a key with an expiry, and expiry of everything that is due. \<open>same\<close> is the provider's
  equality of names.
\<close>

locale name_cache =
  fixes inv :: "'c \<Rightarrow> bool"
    and names :: "'c \<Rightarrow> cache_key \<Rightarrow> dns_name list"
    and put :: "'c \<Rightarrow> u64 \<Rightarrow> int \<Rightarrow> u8 list \<Rightarrow> string \<Rightarrow> u32 \<Rightarrow> u64 \<Rightarrow> 'c"
    and prune :: "'c \<Rightarrow> u64 \<Rightarrow> 'c"
    and same :: "string \<Rightarrow> string \<Rightarrow> bool"
  assumes inv_put: "inv c \<Longrightarrow> inv (put c cid family address name ttl now)"
    and inv_prune: "inv c \<Longrightarrow> inv (prune c now)"
    and names_put: "inv c \<Longrightarrow> n \<in> set (names (put c cid family address name ttl now) k) \<Longrightarrow>
      n \<in> set (names c k) \<or>
      k = key_at cid family address \<and> nm_expires n = expiry ttl now \<and> same (nm_value n) (clean_name name)"
    and names_prune: "inv c \<Longrightarrow> names (prune c now) k = filter (\<lambda>n. now < nm_expires n) (names c k)"
    and names_bound: "inv c \<Longrightarrow> length (names c k) \<le> MaxNames"
begin

lemma history_inv: "inv c \<Longrightarrow> inv (fold (apply_op put prune) ops c)"
proof (induction ops arbitrary: c)
  case (Cons x ops)
  then show ?case by (cases x) (simp_all add: inv_put inv_prune)
qed simp

text \<open>What is looked up right after an expiry is live.\<close>

lemma names_live: "inv c \<Longrightarrow> n \<in> set (names (prune c now) k) \<Longrightarrow> now < nm_expires n"
  by (simp add: names_prune)

lemma names_prune_subset: "inv c \<Longrightarrow> set (names (prune c now) k) \<subseteq> set (names c k)"
  by (auto simp: names_prune)

end

definition names_of :: "cache \<Rightarrow> cache_key \<Rightarrow> dns_name list" where
  "names_of c k = (case abs_cache c k of None \<Rightarrow> [] | Some e \<Rightarrow> en_names e)"

definition same_name :: "(string \<Rightarrow> string \<Rightarrow> bool) \<Rightarrow> string \<Rightarrow> string \<Rightarrow> bool" where
  "same_name uf a b \<longleftrightarrow> a = b \<or> equal_fold uf a b"

lemma names_of_put:
  assumes inv: "cache_inv uf c" and n: "n \<in> set (names_of (cache_put uf c cid family address name ttl now) k)"
  shows "n \<in> set (names_of c k) \<or>
    k = key_at cid family address \<and> nm_expires n = expiry ttl now \<and>
    same_name uf (nm_value n) (clean_name name)"
proof (cases "put_accepts c family address name")
  case False
  with n show ?thesis by (simp add: cache_put_rejected)
next
  case True
  note a = abs_cache_put [OF inv True, of cid ttl now]
  show ?thesis
  proof (cases "k = key_at cid family address")
    case False
    with n show ?thesis
      by (auto simp: names_of_def a after_eviction_def split: if_splits option.splits)
  next
    case True
    let ?e = "stored_entry uf c cid family address name ttl now"
    from n True have "n \<in> set (en_names ?e)" by (simp add: names_of_def a)
    then have "n \<in> set (put_name uf (clean_name name) (expiry ttl now) (names_of c k))"
      using True by (simp add: stored_entry_def touch_entry_def names_of_def fresh_entry_def split: option.splits)
    from put_name_from [OF this] True show ?thesis by (auto simp: same_name_def)
  qed
qed

lemma names_of_prune:
  "cache_inv uf c \<Longrightarrow> names_of (cache_prune c now) k = filter (\<lambda>n. now < nm_expires n) (names_of c k)"
  by (auto simp: names_of_def abs_cache_prune live_entry_def live_names_def split: option.split)

lemma names_of_bound: "cache_inv uf c \<Longrightarrow> length (names_of c k) \<le> MaxNames"
  by (auto simp: names_of_def abs_cache_def cache_inv_def entry_ok_def names_ok_def
      split: option.split dest!: abs_entries_Some)

interpretation gc: name_cache "cache_inv uf" names_of "cache_put uf" cache_prune "same_name uf" for uf
  by unfold_locales (auto intro: cache_put_inv cache_prune_inv dest: names_of_put
      simp: names_of_prune names_of_bound)

section \<open>Properties\<close>

text \<open>A full cache of one entry, on which the properties below are applied.\<close>

abbreviation no_unicode :: "string \<Rightarrow> string \<Rightarrow> bool" where
  "no_unicode \<equiv> \<lambda>_ _. False"

definition sample_empty :: cache where
  "sample_empty = \<lparr>ca_entries = [], ca_capacity = 1\<rparr>"

lemma sample_empty_inv: "cache_inv uf sample_empty"
  by (simp add: cache_inv_def sample_empty_def)

definition sample_full :: cache where
  "sample_full = cache_put no_unicode sample_empty 7 2 [10, 0, 0, 1] ''a.example.'' 60 1000"

lemma sample_full_inv: "cache_inv no_unicode sample_full"
  unfolding sample_full_def by (rule cache_put_inv [OF sample_empty_inv])

lemma sample_full_eq:
  "sample_full = \<lparr>ca_entries = [\<lparr>en_container = 7, en_family = 2,
     en_address = [10, 0, 0, 1] @ replicate 12 0,
     en_names = [\<lparr>nm_value = ''a.example'', nm_expires = 60000001000\<rparr>], en_touched = 1000\<rparr>],
     ca_capacity = 1\<rparr>"
  by (simp add: sample_full_def sample_empty_def cache_put_def clean_name_def addr_size_def
      MaxHostname_def cache_find_index_def claim_slot_def zero_entry_def put_name_def expiry_def
      MaxNames_def Let_def)

lemma sample_accepts: "put_accepts sample_full 2 [10, 0, 0, 2] ''b.example''"
  by (simp add: put_accepts_def sample_full_eq valid_key_def addr_size_def clean_name_def MaxHostname_def)

lemma sample_new_key: "abs_cache sample_full (key_at 7 2 [10, 0, 0, 2]) = None"
  by (simp add: sample_full_eq abs_cache_def abs_entries_def key_of_def key_at_def addr_size_def)

text \<open>
  When the key is new and the cache is full, Put removes exactly one entry, one that no other
  entry was touched before, and the number of entries stays the capacity.
\<close>

theorem eviction_is_least_recent:
  assumes "cache_inv uf c" and "put_accepts c family address name"
    and "abs_cache c (key_at cid family address) = None"
    and "int (length (ca_entries c)) = ca_capacity c"
  shows "\<exists>v \<in> set (ca_entries c). (\<forall>e \<in> set (ca_entries c). en_touched v \<le> en_touched e) \<and>
    abs_cache (cache_put uf c cid family address name ttl now) (key_of v) = None \<and>
    cache_count (cache_put uf c cid family address name ttl now) = cache_count c"
proof -
  let ?v = "ca_entries c ! victim (ca_entries c)"
  have ne: "ca_entries c \<noteq> []" using assms(2,4) by (auto simp: put_accepts_def)
  note least = victim_least [OF ne]
  have v: "?v \<in> set (ca_entries c)" using least(1) by simp
  moreover have "en_touched ?v \<le> en_touched e" if "e \<in> set (ca_entries c)" for e
    using that least(2) by (auto simp: in_set_conv_nth)
  moreover have "key_of ?v \<noteq> key_at cid family address"
    using v assms(3) by (auto simp: abs_cache_def abs_entries_None)
  then have "abs_cache (cache_put uf c cid family address name ttl now) (key_of ?v) = None"
    using assms(3,4) by (simp add: abs_cache_put [OF assms(1,2)] after_eviction_def victim_key_def)
  moreover have "cache_count (cache_put uf c cid family address name ttl now) = cache_count c"
    using assms(2,3,4) find_index_abs [of family address c cid]
    by (auto simp: cache_put_accepted [OF assms(2)] cache_count_def put_entries_def Let_def
        put_accepts_def split: option.split)
  ultimately show ?thesis by blast
qed

theorem eviction_is_least_recent_witness:
  "\<exists>v \<in> set (ca_entries sample_full).
     abs_cache (cache_put no_unicode sample_full 7 2 [10, 0, 0, 2] ''b.example'' 30 2000) (key_of v) = None"
proof -
  have "int (length (ca_entries sample_full)) = ca_capacity sample_full" by (simp add: sample_full_eq)
  from eviction_is_least_recent [OF sample_full_inv sample_accepts sample_new_key this, of 30 2000]
  show ?thesis by blast
qed

text \<open>
  Put leaves the cache untouched when the name without its dot is empty or longer than 253 bytes,
  the family is unknown, the address too short or the capacity not positive.
\<close>

theorem put_rejects:
  assumes "clean_name name = [] \<or> length (clean_name name) > MaxHostname \<or> family \<notin> {2, 10} \<or>
    length address < addr_size family \<or> ca_capacity c \<le> 0"
  shows "cache_put uf c cid family address name ttl now = c"
proof (rule cache_put_rejected)
  show "\<not> put_accepts c family address name"
    using assms by (auto simp: put_accepts_def valid_key_def addr_size_def split: if_splits)
qed

theorem put_rejects_witness: "cache_put no_unicode sample_full 7 2 [10, 0, 0, 2] ''.'' 30 2000 = sample_full"
  by (rule put_rejects) (simp add: clean_name_def)

text \<open>
  Go's filtering in place, one array read ahead of where it is overwritten, yields what filtering
  into a fresh list would, and stops after one pass over any list.
\<close>

theorem in_place_filter_is_filter:
  "compact f 0 0 xs = List.map_filter f xs \<and>
   ca_entries (cache_prune c now) = List.map_filter (live_entry now) (ca_entries c)"
proof -
  have "prune_entry now = live_entry now" by (rule ext) (rule prune_entry_live)
  then show ?thesis by (simp add: compact_map_filter cache_prune_entries)
qed

text \<open>
  Inserting a name into an entry's list either renews the expiry of the one equal name in place,
  or appends it, dropping the oldest name when there are already eight; the list stays at most
  eight valid names, no two equal.
\<close>

theorem name_list_update:
  assumes "names_ok uf ns" and "name \<noteq> []" and "length name \<le> MaxHostname"
  shows "names_ok uf (put_name uf name x ns) \<and>
    ((\<exists>i < length ns. equal_fold uf (nm_value (ns ! i)) name \<and>
        put_name uf name x ns = ns[i := (ns ! i)\<lparr>nm_expires := x\<rparr>]) \<or>
     (\<forall>n \<in> set ns. \<not> equal_fold uf (nm_value n) name) \<and>
        put_name uf name x ns =
          (if length ns < 8 then ns else tl ns) @ [\<lparr>nm_value = name, nm_expires = x\<rparr>])"
proof -
  have "names_ok uf (put_name uf name x ns)" by (rule put_name_ok [OF assms])
  then show ?thesis
    by (cases rule: put_name_cases [of ns uf name x]) (auto simp: MaxNames_def)
qed

theorem name_list_update_witness:
  "names_ok no_unicode (put_name no_unicode ''b'' 9 [\<lparr>nm_value = ''a'', nm_expires = 4\<rparr>])"
  using name_list_update [of no_unicode "[\<lparr>nm_value = ''a'', nm_expires = 4\<rparr>]" "''b''" 9]
  by (simp add: names_ok_def name_ok_def MaxNames_def MaxHostname_def)

text \<open>A full cache of two entries, the second of which was touched longer ago.\<close>

definition sample_slot :: "u8 \<Rightarrow> string \<Rightarrow> u64 \<Rightarrow> entry" where
  "sample_slot b name touched = \<lparr>en_container = 7, en_family = 2, en_address = [10, 0, 0, b] @ replicate 12 0,
     en_names = [\<lparr>nm_value = name, nm_expires = 60000001000\<rparr>], en_touched = touched\<rparr>"

definition sample_pair :: cache where
  "sample_pair = \<lparr>ca_entries = [sample_slot 1 ''a.example'' 2000, sample_slot 2 ''b.example'' 1000], ca_capacity = 2\<rparr>"

lemma sample_pair_length: "length (ca_entries sample_pair) = 2"
  by (simp add: sample_pair_def)

lemma sample_pair_inv: "cache_inv no_unicode sample_pair"
  by (simp add: cache_inv_def sample_pair_def sample_slot_def entry_ok_def key_of_def addr_size_def names_ok_def
      name_ok_def MaxNames_def MaxHostname_def)

lemma sample_pair_accepts: "put_accepts sample_pair 2 [10, 0, 0, 3] ''c.example''"
  by (simp add: put_accepts_def sample_pair_def valid_key_def addr_size_def clean_name_def MaxHostname_def)

text \<open>
  C15. On the cache seen as a finite map from container, family and address to entries, an
  accepted Put is one map update. Nothing is removed when the key is present or the cache has
  room; otherwise one entry goes, the first of those no other entry was touched before.
\<close>

theorem cache_put_refines_map:
  assumes "cache_inv uf c" and "put_accepts c family address name"
  shows "if abs_cache c (key_at cid family address) \<noteq> None \<or> int (length (ca_entries c)) < ca_capacity c
    then abs_cache (cache_put uf c cid family address name ttl now) =
      (abs_cache c)(key_at cid family address \<mapsto> stored_entry uf c cid family address name ttl now)
    else \<exists>i < length (ca_entries c).
      (\<forall>j < length (ca_entries c). en_touched (ca_entries c ! i) \<le> en_touched (ca_entries c ! j)) \<and>
      (\<forall>j < i. en_touched (ca_entries c ! i) < en_touched (ca_entries c ! j)) \<and>
      abs_cache (cache_put uf c cid family address name ttl now) =
        (abs_cache c)(key_of (ca_entries c ! i) := None,
          key_at cid family address \<mapsto> stored_entry uf c cid family address name ttl now)"
proof (cases "abs_cache c (key_at cid family address) \<noteq> None \<or> int (length (ca_entries c)) < ca_capacity c")
  case True
  then show ?thesis by (simp add: abs_cache_put [OF assms] after_eviction_def)
next
  case False
  then have full: "ca_entries c \<noteq> []" using assms(2) by (auto simp: put_accepts_def)
  show ?thesis
    using False victim_least [OF full]
    by (auto simp: abs_cache_put [OF assms] after_eviction_def victim_key_def intro!: exI [of _ "victim (ca_entries c)"])
qed

theorem cache_put_refines_map_witness:
  "abs_cache (cache_put no_unicode sample_pair 7 2 [10, 0, 0, 3] ''c.example'' 30 3000) =
    (abs_cache sample_pair)((7, 2, [10, 0, 0, 2]) := None,
      (7, 2, [10, 0, 0, 3]) \<mapsto> stored_entry no_unicode sample_pair 7 2 [10, 0, 0, 3] ''c.example'' 30 3000)"
proof -
  have k: "key_at 7 2 [10, 0, 0, 3] = (7, 2, [10, 0, 0, 3])" by (simp add: key_at_def addr_size_def)
  have "\<not> (abs_cache sample_pair (key_at 7 2 [10, 0, 0, 3]) \<noteq> None \<or>
      int (length (ca_entries sample_pair)) < ca_capacity sample_pair)"
    by (simp add: sample_pair_def sample_slot_def abs_cache_def abs_entries_def key_of_def key_at_def addr_size_def)
  then obtain i where i: "i < 2" "\<forall>j < 2. en_touched (ca_entries sample_pair ! i) \<le> en_touched (ca_entries sample_pair ! j)"
    "abs_cache (cache_put no_unicode sample_pair 7 2 [10, 0, 0, 3] ''c.example'' 30 3000) =
      (abs_cache sample_pair)(key_of (ca_entries sample_pair ! i) := None,
        key_at 7 2 [10, 0, 0, 3] \<mapsto> stored_entry no_unicode sample_pair 7 2 [10, 0, 0, 3] ''c.example'' 30 3000)"
    using cache_put_refines_map [OF sample_pair_inv sample_pair_accepts, of 7 30 3000]
    unfolding if_not_P [OF \<open>\<not> _\<close>] by (auto simp: sample_pair_length)
  have "i = 1"
  proof (rule ccontr)
    assume "i \<noteq> 1"
    with i(1) have "i = 0" by simp
    with i(2) have "en_touched (ca_entries sample_pair ! 0) \<le> en_touched (ca_entries sample_pair ! 1)" by auto
    then show False by (simp add: sample_pair_def sample_slot_def)
  qed
  then have "key_of (ca_entries sample_pair ! i) = (7, 2, [10, 0, 0, 2])"
    by (simp add: sample_pair_def sample_slot_def key_of_def addr_size_def)
  with i(3) show ?thesis by (simp add: k)
qed

text \<open>
  C16. Starting from NewCache, any sequence of Put and Prune calls with any arguments keeps the
  cache well formed: at most capacity entries, distinct keys, zero-padded addresses of the right
  size, between one and eight distinct valid names per entry.
\<close>

theorem cache_invariant_kept:
  assumes "cache_new cap = Some c"
  shows "cache_inv uf (fold (apply_op (cache_put uf) cache_prune) ops c)"
  by (rule gc.history_inv [OF cache_new_inv [OF assms]])

theorem cache_invariant_kept_witness:
  "cache_inv no_unicode (fold (apply_op (cache_put no_unicode) cache_prune)
     [OpPut 7 2 [10, 0, 0, 1] ''a.example.'' 60 1000, OpPrune 2000] sample_empty)"
  by (rule cache_invariant_kept [where cap = 1]) (simp add: cache_new_def sample_empty_def)

text \<open>
  C17. After an accepted Put, Find of the same key returns an entry touched at that time which
  holds the name, without its trailing dot, with the new expiry. Every other key finds what it
  found before if the key was present or the cache had room; otherwise this holds of every other
  key but one, that of an entry touched least recently.
\<close>

theorem find_after_put:
  assumes "cache_inv uf c" and "put_accepts c family address name"
  shows "(\<exists>e. cache_find (cache_put uf c cid family address name ttl now) cid family address = Some e \<and>
      en_touched e = now \<and>
      (\<exists>n \<in> set (en_names e). nm_expires n = expiry ttl now \<and> same_name uf (nm_value n) (clean_name name))) \<and>
    (\<exists>lost. (if cache_find c cid family address \<noteq> None \<or> int (length (ca_entries c)) < ca_capacity c then lost = {}
        else \<exists>v \<in> set (ca_entries c). (\<forall>e \<in> set (ca_entries c). en_touched v \<le> en_touched e) \<and> lost = {key_of v}) \<and>
      (\<forall>cid' family' address'. key_at cid' family' address' \<noteq> key_at cid family address \<longrightarrow>
        cache_find (cache_put uf c cid family address name ttl now) cid' family' address' =
          (if key_at cid' family' address' \<in> lost then None else cache_find c cid' family' address')))"
    (is "?found \<and> ?others")
proof
  have v: "valid_key family address" using assms(2) by (simp add: put_accepts_def)
  note abs = abs_cache_put [OF assms, of cid ttl now]
  show ?found
    using put_name_has [of uf "clean_name name" "expiry ttl now"]
    by (auto simp: cache_find_abs v abs stored_entry_def touch_entry_def same_name_def)
  show ?others
  proof (cases "cache_find c cid family address \<noteq> None \<or> int (length (ca_entries c)) < ca_capacity c")
    case True
    then show ?thesis by (intro exI [of _ "{}"]) (simp add: cache_find_abs v abs after_eviction_def)
  next
    case False
    let ?v = "ca_entries c ! victim (ca_entries c)"
    have "ca_entries c \<noteq> []" using False assms(2) by (auto simp: put_accepts_def)
    note least = victim_least [OF this]
    have "?v \<in> set (ca_entries c)" using least(1) by simp
    moreover have "\<forall>e \<in> set (ca_entries c). en_touched ?v \<le> en_touched e"
      using least(2) by (auto simp: in_set_conv_nth)
    ultimately show ?thesis
      using False by (intro exI [of _ "{key_of ?v}"])
        (auto simp: cache_find_abs v abs after_eviction_def victim_key_def)
  qed
qed

theorem find_after_put_witness:
  "cache_find (cache_put no_unicode sample_pair 7 2 [10, 0, 0, 3] ''c.example'' 30 3000) 7 2 [10, 0, 0, 1] =
     cache_find sample_pair 7 2 [10, 0, 0, 1] \<and>
   (\<exists>e. cache_find (cache_put no_unicode sample_pair 7 2 [10, 0, 0, 3] ''c.example'' 30 3000) 7 2 [10, 0, 0, 3] = Some e \<and>
     en_touched e = 3000)"
proof -
  have full: "\<not> (cache_find sample_pair 7 2 [10, 0, 0, 3] \<noteq> None \<or>
      int (length (ca_entries sample_pair)) < ca_capacity sample_pair)"
    by (simp add: sample_pair_def sample_slot_def cache_find_def cache_find_index_def entry_matches_def addr_size_def)
  note t = find_after_put [OF sample_pair_inv sample_pair_accepts, of 7 30 3000, unfolded if_not_P [OF full]]
  from conjunct2 [OF t] obtain v where v: "v \<in> set (ca_entries sample_pair)"
    "\<forall>e \<in> set (ca_entries sample_pair). en_touched v \<le> en_touched e"
    and others: "key_at cid' family' address' \<noteq> key_at 7 2 [10, 0, 0, 3] \<Longrightarrow> key_at cid' family' address' \<noteq> key_of v \<Longrightarrow>
      cache_find (cache_put no_unicode sample_pair 7 2 [10, 0, 0, 3] ''c.example'' 30 3000) cid' family' address' =
        cache_find sample_pair cid' family' address'" for cid' family' address'
    by (auto split: if_splits)
  have "v = sample_slot 2 ''b.example'' 1000" using v by (auto simp: sample_pair_def sample_slot_def)
  then show ?thesis
    using others [of 7 2 "[10, 0, 0, 1]"] conjunct1 [OF t] by (auto simp: sample_slot_def key_at_def key_of_def addr_size_def)
qed

text \<open>
  C18. Prune keeps, for every key, exactly the names that expire after the given time, in their
  order; keys without such a name are gone and nothing else changes.
\<close>

theorem prune_keeps_live_names:
  assumes "cache_inv uf c"
  shows "abs_cache (cache_prune c now) k = (case abs_cache c k of
      None \<Rightarrow> None
    | Some e \<Rightarrow> (let ns = filter (\<lambda>n. now < nm_expires n) (en_names e)
        in if ns = [] then None else Some (e\<lparr>en_names := ns\<rparr>)))"
  by (auto simp: abs_cache_prune [OF assms] live_entry_def live_names_def Let_def split: option.split)

theorem prune_keeps_live_names_witness: "abs_cache (cache_prune sample_full 60000001000) (7, 2, [10, 0, 0, 1]) = None"
  unfolding prune_keeps_live_names [OF sample_full_inv]
  by (auto simp: sample_full_eq abs_cache_def abs_entries_def split: option.split)

text \<open>
  C19. For any TTL and any monotonic time below 2^63 the expiry does not wrap around: it is the
  time plus the TTL in nanoseconds, plus five seconds of grace when the TTL is zero.
\<close>

theorem expiry_exact:
  assumes "now < 2 ^ 63"
  shows "unat (expiry ttl now) = unat now + (if ttl = 0 then 5000000000 else unat ttl * 1000000000)"
proof -
  have now: "unat now < 2 ^ 63" using assms by (simp add: word_less_nat_alt)
  have t: "unat ttl < 2 ^ 32" using unsigned_less [of ttl] by simp
  have u: "unat (ucast ttl :: u64) = unat ttl"
    using t by (simp add: unsigned_ucast_eq take_bit_nat_eq_self)
  have m: "unat (ucast ttl * 1000000000 :: u64) = unat ttl * 1000000000"
    using t by (subst unat_mult_lem [THEN iffD1]) (simp_all add: u)
  show ?thesis
    using now t m by (auto simp: expiry_def zeroTTLGracePeriod_def intro!: trans [OF unat_add_lem [THEN iffD1]])
qed

theorem expiry_exact_witness: "unat (expiry 0xFFFFFFFF (2 ^ 62)) = 2 ^ 62 + 4294967295 * 1000000000"
  using expiry_exact [of "2 ^ 62" "0xFFFFFFFF"] by (simp add: word_less_nat_alt)

end
