(* ===== verification/DnsParse.thy ===== *)
theory DnsParse
  imports DnsCacheOps
begin

text \<open>
  The DNS answer parser of src/src/netmon-go/internal/dnscache/dns.go. The wire decoder
  \<open>dns.Msg.Unpack\<close> of github.com/miekg/dns is the parameter \<open>unpack\<close>: an error, or the response
  flag and the answer section, with owner names and targets as the decoder prints them.
\<close>

section \<open>Messages\<close>

record rr_header =
  hdr_name :: string
  hdr_ttl :: u32

datatype rr =
    RR_A rr_header "u8 list"
  | RR_AAAA rr_header "u8 list"
  | RR_CNAME rr_header string
  | RR_Other

record dns_msg =
  msg_response :: bool
  msg_answer :: "rr list"

datatype dns_error = ErrBuf | UnpackError string

type_synonym unpacker = "u8 list \<Rightarrow> dns_error + dns_msg"

record cname =
  cn_alias :: string
  cn_target :: string
  cn_ttl :: u32

text \<open>\<open>net.IP.To4\<close> and \<open>To16\<close>; the empty list is the nil slice.\<close>

definition v4_in_v6_prefix :: "u8 list" where
  "v4_in_v6_prefix = replicate 10 0 @ [0xff, 0xff]"

definition to4 :: "u8 list \<Rightarrow> u8 list" where
  "to4 ip = (if length ip = 4 then ip
     else if length ip = 16 \<and> take 12 ip = v4_in_v6_prefix then drop 12 ip else [])"

definition to16 :: "u8 list \<Rightarrow> u8 list" where
  "to16 ip = (if length ip = 4 then v4_in_v6_prefix @ ip else if length ip = 16 then ip else [])"

section \<open>The parser\<close>

definition lower :: "char \<Rightarrow> u8" where
  "lower c = (let b = of_char c :: u8 in if 65 \<le> b \<and> b \<le> 90 then b + (97 - 65) else b)"

text \<open>The loop of \<open>equalFoldClean\<close> over indices, for strings of the same length.\<close>

fun equal_lower :: "string \<Rightarrow> string \<Rightarrow> bool" where
  "equal_lower (a # s) (b # t) = (if lower a \<noteq> lower b then False else equal_lower s t)"
| "equal_lower s t = True"

definition equal_fold_clean :: "string \<Rightarrow> string \<Rightarrow> bool" where
  "equal_fold_clean a b = (if length a \<noteq> length b then False else equal_lower a b)"

fun collect_cnames :: "rr list \<Rightarrow> cname list \<Rightarrow> cname list" where
  "collect_cnames [] cnames = cnames"
| "collect_cnames (RR_CNAME h target # rrs) cnames =
     (if length cnames \<ge> 32 then collect_cnames rrs cnames
      else let alias = clean_name (hdr_name h); target = clean_name target in
        if length alias \<le> MaxHostname \<and> length target \<le> MaxHostname
        then collect_cnames rrs
          (cnames @ [\<lparr>cn_alias = alias, cn_target = target, cn_ttl = hdr_ttl h\<rparr>])
        else collect_cnames rrs cnames)"
| "collect_cnames (_ # rrs) cnames = collect_cnames rrs cnames"

fun insert_cnames ::
  "(string \<Rightarrow> string \<Rightarrow> bool) \<Rightarrow> cache \<Rightarrow> u64 \<Rightarrow> int \<Rightarrow> u8 list \<Rightarrow> string \<Rightarrow> u32 \<Rightarrow> cname list \<Rightarrow> u64 \<Rightarrow> cache"
where
  "insert_cnames uf c cid family address name ttl [] now = c"
| "insert_cnames uf c cid family address name ttl (cn # cns) now =
     (if \<not> equal_fold_clean (cn_target cn) name
      then insert_cnames uf c cid family address name ttl cns now
      else let aliasTTL = (if cn_ttl cn < ttl then cn_ttl cn else ttl)
           in insert_cnames uf (cache_put uf c cid family address (cn_alias cn) aliasTTL now)
                cid family address name ttl cns now)"

text \<open>One address record: the name itself, then the aliases that point at it.\<close>

definition insert_address ::
  "(string \<Rightarrow> string \<Rightarrow> bool) \<Rightarrow> cache \<Rightarrow> u64 \<Rightarrow> int \<Rightarrow> u8 list \<Rightarrow> rr_header \<Rightarrow> cname list \<Rightarrow> u64 \<Rightarrow> cache"
where
  "insert_address uf c cid family address h cnames now =
     (let name = clean_name (hdr_name h);
          c = cache_put uf c cid family address name (hdr_ttl h) now
      in insert_cnames uf c cid family address name (hdr_ttl h) cnames now)"

fun insert_answers ::
  "(string \<Rightarrow> string \<Rightarrow> bool) \<Rightarrow> cache \<Rightarrow> u64 \<Rightarrow> cname list \<Rightarrow> u64 \<Rightarrow> rr list \<Rightarrow> int \<Rightarrow> cache \<times> int"
where
  "insert_answers uf c cid cnames now [] inserted = (c, inserted)"
| "insert_answers uf c cid cnames now (RR_A h ip # rrs) inserted =
     insert_answers uf (insert_address uf c cid 2 (to4 ip) h cnames now) cid cnames now rrs (inserted + 1)"
| "insert_answers uf c cid cnames now (RR_AAAA h ip # rrs) inserted =
     insert_answers uf (insert_address uf c cid 10 (to16 ip) h cnames now) cid cnames now rrs (inserted + 1)"
| "insert_answers uf c cid cnames now (_ # rrs) inserted =
     insert_answers uf c cid cnames now rrs inserted"

definition parse_response ::
  "unpacker \<Rightarrow> (string \<Rightarrow> string \<Rightarrow> bool) \<Rightarrow> cache \<Rightarrow> u64 \<Rightarrow> u8 list \<Rightarrow> u64 \<Rightarrow> cache \<times> int \<times> dns_error option"
where
  "parse_response unpack uf c cid message now =
     (if length message < 12 then (c, -1, Some ErrBuf)
      else case unpack message of
          Inl err \<Rightarrow> (c, -1, Some err)
        | Inr msg \<Rightarrow>
            if \<not> msg_response msg then (c, -1, Some ErrBuf)
            else let cnames = collect_cnames (msg_answer msg) [];
                     (c', inserted) = insert_answers uf c cid cnames now (msg_answer msg) 0
                 in (c', inserted, None))"

section \<open>Name comparison\<close>

definition is_ascii :: "string \<Rightarrow> bool" where
  "is_ascii s \<longleftrightarrow> (\<forall>c \<in> set s. byte_code c < 128)"

lemma byte_code_less: "byte_code c < 2 ^ 8"
  by simp

lemma of_char_u8: "unat (of_char c :: u8) = byte_code c"
proof -
  have "take_bit 8 (byte_code c) = byte_code c"
    using byte_code_less by (rule take_bit_nat_eq_self)
  then have "unat (of_nat (byte_code c) :: u8) = byte_code c"
    by (simp add: unsigned_of_nat)
  then show ?thesis by (simp only: of_nat_of_char)
qed

lemma fold_ascii_lower:
  assumes "byte_code a < 128" and "byte_code b < 128"
  shows "fold_eq_ascii a b \<longleftrightarrow> lower a = lower b"
proof -
  have l: "unat (lower c) = (if 65 \<le> byte_code c \<and> byte_code c \<le> 90 then byte_code c + 32 else byte_code c)"
    for c
    by (auto simp: lower_def Let_def word_le_nat_alt of_char_u8 unat_word_ariths)
  have "lower a = lower b \<longleftrightarrow> unat (lower a) = unat (lower b)" by (simp add: word_unat_eq_iff)
  moreover have "a = b \<longleftrightarrow> byte_code a = byte_code b" by (simp only: of_char_eq_iff)
  ultimately show ?thesis
    unfolding fold_eq_ascii_def Let_def l by (auto simp: min_def max_def simp del: of_char_eq_iff)
qed

lemma equal_fold_clean_ascii:
  "is_ascii a \<Longrightarrow> is_ascii b \<Longrightarrow> equal_fold uf a b \<longleftrightarrow> equal_fold_clean a b"
proof (induction uf a b rule: equal_fold.induct)
  case (1 uf a s b t)
  then show ?case by (auto simp: is_ascii_def equal_fold_clean_def fold_ascii_lower)
qed (simp_all add: equal_fold_clean_def)

section \<open>What a response teaches the cache\<close>

fun address_records :: "rr list \<Rightarrow> (rr_header \<times> int \<times> u8 list) list" where
  "address_records [] = []"
| "address_records (RR_A h ip # rrs) = (h, 2, to4 ip) # address_records rrs"
| "address_records (RR_AAAA h ip # rrs) = (h, 10, to16 ip) # address_records rrs"
| "address_records (_ # rrs) = address_records rrs"

text \<open>
  The name \<open>n\<close> is taught for an address by its record's owner name, or by a CNAME record whose
  target is that owner name (one step, not a chain), with the smaller of the two TTLs.
\<close>

definition taught_by ::
  "(string \<Rightarrow> string \<Rightarrow> bool) \<Rightarrow> cname list \<Rightarrow> u64 \<Rightarrow> rr_header \<Rightarrow> dns_name \<Rightarrow> bool" where
  "taught_by uf cnames now h n \<longleftrightarrow>
     nm_expires n = expiry (hdr_ttl h) now \<and>
       same_name uf (nm_value n) (clean_name (clean_name (hdr_name h))) \<or>
     (\<exists>cn \<in> set cnames. equal_fold_clean (cn_target cn) (clean_name (hdr_name h)) \<and>
       nm_expires n = expiry (min (cn_ttl cn) (hdr_ttl h)) now \<and>
       same_name uf (nm_value n) (clean_name (cn_alias cn)))"

definition taught ::
  "(string \<Rightarrow> string \<Rightarrow> bool) \<Rightarrow> rr list \<Rightarrow> u64 \<Rightarrow> u64 \<Rightarrow> cache_key \<Rightarrow> dns_name \<Rightarrow> bool" where
  "taught uf answer cid now k n \<longleftrightarrow>
     (\<exists>(h, family, address) \<in> set (address_records answer). k = key_at cid family address \<and>
        taught_by uf (collect_cnames answer []) now h n)"

lemma insert_cnames_inv [inv_intros]:
  "cache_inv uf c \<Longrightarrow> cache_inv uf (insert_cnames uf c cid family address name ttl cns now)"
  by (induction cns arbitrary: c) (auto simp: Let_def intro: gc.inv_put)

lemma insert_address_inv [inv_intros]:
  "cache_inv uf c \<Longrightarrow> cache_inv uf (insert_address uf c cid family address h cnames now)"
  by (simp add: insert_address_def Let_def insert_cnames_inv gc.inv_put)

lemma insert_answers_inv [inv_intros]:
  "cache_inv uf c \<Longrightarrow> cache_inv uf (fst (insert_answers uf c cid cnames now rrs i))"
  by (induction uf c cid cnames now rrs i rule: insert_answers.induct) (auto intro: insert_address_inv)

lemma insert_answers_count:
  "snd (insert_answers uf c cid cnames now rrs i) = i + int (length (address_records rrs))"
  by (induction uf c cid cnames now rrs i rule: insert_answers.induct) simp_all

lemma min_ttl: "(if a < b then a else b) = min a (b :: u32)"
  by (auto simp: min_def)

lemma insert_cnames_names:
  assumes "cache_inv uf c"
    and "n \<in> set (names_of (insert_cnames uf c cid family address name ttl cns now) k)"
  shows "n \<in> set (names_of c k) \<or> k = key_at cid family address \<and>
    (\<exists>cn \<in> set cns. equal_fold_clean (cn_target cn) name \<and>
       nm_expires n = expiry (min (cn_ttl cn) ttl) now \<and> same_name uf (nm_value n) (clean_name (cn_alias cn)))"
  using assms
proof (induction cns arbitrary: c)
  case (Cons cn cns)
  show ?case
  proof (cases "equal_fold_clean (cn_target cn) name")
    case False
    with Cons show ?thesis by auto
  next
    case True
    let ?c = "cache_put uf c cid family address (cn_alias cn) (min (cn_ttl cn) ttl) now"
    have inv: "cache_inv uf ?c" using Cons.prems(1) by (rule gc.inv_put)
    have "n \<in> set (names_of (insert_cnames uf ?c cid family address name ttl cns now) k)"
      using Cons.prems(2) True by (simp add: Let_def min_ttl)
    from Cons.IH [OF inv this] show ?thesis
      using gc.names_put [OF Cons.prems(1)] True by (metis list.set_intros)
  qed
qed simp

lemma insert_address_names:
  assumes inv: "cache_inv uf c"
    and n: "n \<in> set (names_of (insert_address uf c cid family address h cnames now) k)"
  shows "n \<in> set (names_of c k) \<or> k = key_at cid family address \<and> taught_by uf cnames now h n"
proof -
  let ?name = "clean_name (hdr_name h)"
  let ?c = "cache_put uf c cid family address ?name (hdr_ttl h) now"
  have inv': "cache_inv uf ?c" using inv by (rule gc.inv_put)
  have "n \<in> set (names_of (insert_cnames uf ?c cid family address ?name (hdr_ttl h) cnames now) k)"
    using n by (simp add: insert_address_def Let_def)
  from insert_cnames_names [OF inv' this] gc.names_put [OF inv, of n cid family address ?name "hdr_ttl h" now k]
  show ?thesis by (auto simp: taught_by_def)
qed

lemma insert_answers_names:
  assumes "cache_inv uf c" and "n \<in> set (names_of (fst (insert_answers uf c cid cnames now rrs i)) k)"
  shows "n \<in> set (names_of c k) \<or>
    (\<exists>(h, family, address) \<in> set (address_records rrs). k = key_at cid family address \<and> taught_by uf cnames now h n)"
  using assms
proof (induction uf c cid cnames now rrs i rule: insert_answers.induct)
  case (2 uf c cid cnames now h ip rrs i)
  let ?c = "insert_address uf c cid 2 (to4 ip) h cnames now"
  have "n \<in> set (names_of ?c k) \<or>
      (\<exists>(h, family, address) \<in> set (address_records rrs). k = key_at cid family address \<and> taught_by uf cnames now h n)"
    by (rule 2(1)) (use 2(2,3) in \<open>simp_all add: insert_address_inv\<close>)
  then show ?case using insert_address_names [OF 2(2), of n cid 2 "to4 ip" h cnames now k] by auto
next
  case (3 uf c cid cnames now h ip rrs i)
  let ?c = "insert_address uf c cid 10 (to16 ip) h cnames now"
  have "n \<in> set (names_of ?c k) \<or>
      (\<exists>(h, family, address) \<in> set (address_records rrs). k = key_at cid family address \<and> taught_by uf cnames now h n)"
    by (rule 3(1)) (use 3(2,3) in \<open>simp_all add: insert_address_inv\<close>)
  then show ?case using insert_address_names [OF 3(2), of n cid 10 "to16 ip" h cnames now k] by auto
qed auto

lemma parse_response_inv [inv_intros]:
  "cache_inv uf c \<Longrightarrow> cache_inv uf (fst (parse_response unpack uf c cid message now))"
  by (auto simp: parse_response_def Let_def intro: insert_answers_inv split: sum.split prod.split)
    (metis fst_conv insert_answers_inv)

text \<open>The answer section of a message the parser accepts.\<close>

definition accepted_answer :: "unpacker \<Rightarrow> u8 list \<Rightarrow> rr list option" where
  "accepted_answer unpack message =
     (if length message < 12 then None
      else case unpack message of
          Inl _ \<Rightarrow> None
        | Inr msg \<Rightarrow> if msg_response msg then Some (msg_answer msg) else None)"

lemma parse_response_accepted:
  "accepted_answer unpack message = Some answer \<Longrightarrow>
     parse_response unpack uf c cid message now =
       (fst (insert_answers uf c cid (collect_cnames answer []) now answer 0),
        int (length (address_records answer)), None)"
  using insert_answers_count [of uf c cid "collect_cnames answer []" now answer 0]
  by (auto simp: accepted_answer_def parse_response_def Let_def split: if_splits sum.splits prod.splits)

lemma parse_response_refused:
  "accepted_answer unpack message = None \<Longrightarrow>
     \<exists>err. parse_response unpack uf c cid message now = (c, -1, Some err)"
  by (auto simp: accepted_answer_def parse_response_def split: if_splits sum.splits)

lemma parse_response_names:
  assumes inv: "cache_inv uf c"
    and n: "n \<in> set (names_of (fst (parse_response unpack uf c cid message now)) k)"
  shows "n \<in> set (names_of c k) \<or>
    (\<exists>answer. accepted_answer unpack message = Some answer \<and> taught uf answer cid now k n)"
proof (cases "accepted_answer unpack message")
  case None
  with n parse_response_refused [OF None, of uf c cid now] show ?thesis by auto
next
  case (Some answer)
  have "n \<in> set (names_of (fst (insert_answers uf c cid (collect_cnames answer []) now answer 0)) k)"
    using n by (simp add: parse_response_accepted [OF Some])
  from insert_answers_names [OF inv this] Some show ?thesis by (auto simp: taught_def)
qed

lemma collect_cnames_bound: "length acc \<le> 32 \<Longrightarrow> length (collect_cnames rrs acc) \<le> 32"
  by (induction rrs acc rule: collect_cnames.induct) (auto simp: Let_def)

lemma collect_cnames_from:
  "cn \<in> set (collect_cnames rrs acc) \<Longrightarrow> cn \<in> set acc \<or>
     (\<exists>h target. RR_CNAME h target \<in> set rrs \<and> cn_alias cn = clean_name (hdr_name h) \<and>
        cn_target cn = clean_name target \<and> cn_ttl cn = hdr_ttl h)"
  by (induction rrs acc rule: collect_cnames.induct) (fastforce simp: Let_def split: if_splits)+

section \<open>Properties\<close>

text \<open>A decoder that answers every message with one CNAME and one A record.\<close>

definition sample_answer :: "rr list" where
  "sample_answer = [RR_CNAME \<lparr>hdr_name = ''www.example.'', hdr_ttl = 20\<rparr> ''HOST.example.'',
     RR_A \<lparr>hdr_name = ''host.example.'', hdr_ttl = 60\<rparr> [10, 0, 0, 1]]"

definition sample_unpack :: unpacker where
  "sample_unpack message = Inr \<lparr>msg_response = True, msg_answer = sample_answer\<rparr>"

lemma sample_accepted: "12 \<le> length message \<Longrightarrow> accepted_answer sample_unpack message = Some sample_answer"
  by (simp add: accepted_answer_def sample_unpack_def)

text \<open>
  Aliases are followed one step only: of the chain a, b, c with an address for c, the name a that
  was asked for is not taught, only b and c are.
\<close>

definition chain_answer :: "rr list" where
  "chain_answer = [RR_CNAME \<lparr>hdr_name = ''a.example.'', hdr_ttl = 20\<rparr> ''b.example.'',
     RR_CNAME \<lparr>hdr_name = ''b.example.'', hdr_ttl = 20\<rparr> ''c.example.'',
     RR_A \<lparr>hdr_name = ''c.example.'', hdr_ttl = 60\<rparr> [10, 0, 0, 1]]"

lemma chain_alias_not_taught:
  "\<not> taught uf chain_answer cid now k \<lparr>nm_value = ''a.example'', nm_expires = t\<rparr>"
  by (simp add: taught_def taught_by_def chain_answer_def clean_name_def MaxHostname_def Let_def same_name_def
      fold_eq_ascii_def equal_fold_clean_def lower_def)

text \<open>
  On ASCII names the cache's strings.EqualFold and the parser's own equalFoldClean decide the
  same, so a name the parser matches is the name the cache refreshes.
\<close>

theorem name_comparisons_agree:
  assumes "is_ascii a" and "is_ascii b"
  shows "equal_fold uf a b \<longleftrightarrow> equal_fold_clean a b"
  by (rule equal_fold_clean_ascii [OF assms])

theorem name_comparisons_agree_witness: "equal_fold no_unicode ''Example'' ''eXAMPLE''"
  using name_comparisons_agree [of "''Example''" "''eXAMPLE''" no_unicode]
  by (simp add: is_ascii_def equal_fold_clean_def lower_def)

text \<open>
  A message that is too short, does not decode or is not a response leaves the cache as it was and
  is reported with the count -1 and an error.
\<close>

theorem refused_response_changes_nothing:
  assumes "length message < 12 \<or> (\<exists>err. unpack message = Inl err) \<or>
    (\<exists>msg. unpack message = Inr msg \<and> \<not> msg_response msg)"
  shows "\<exists>err. parse_response unpack uf c cid message now = (c, -1, Some err)"
  using assms by (auto simp: parse_response_def)

theorem refused_response_changes_nothing_witness:
  "\<exists>err. parse_response sample_unpack no_unicode sample_full 7 [1, 2, 3] 5 = (sample_full, -1, Some err)"
  by (rule refused_response_changes_nothing) simp

text \<open>
  An accepted response is reported without error and with the number of its A and AAAA records,
  whether or not the cache took their names, and keeps the cache well formed.
\<close>

theorem response_count_and_invariant:
  assumes "accepted_answer unpack message = Some answer" and "cache_inv uf c"
  shows "snd (parse_response unpack uf c cid message now) = (int (length (address_records answer)), None) \<and>
    cache_inv uf (fst (parse_response unpack uf c cid message now))"
  using insert_answers_inv [OF assms(2)] by (simp add: parse_response_accepted [OF assms(1)])

theorem response_count_and_invariant_witness:
  "snd (parse_response sample_unpack no_unicode sample_empty 7 (replicate 12 0) 5) = (1, None)"
  using response_count_and_invariant [OF sample_accepted sample_empty_inv, of "replicate 12 0" no_unicode 7 5]
  by (simp add: sample_answer_def)

lemma insert_answers_single:
  "address_records answer = [(h, family, address)] \<Longrightarrow>
     fst (insert_answers uf c cid [] now answer i) =
       cache_put uf c cid family address (clean_name (hdr_name h)) (hdr_ttl h) now"
proof -
  have none: "address_records answer = [] \<Longrightarrow> fst (insert_answers uf c cid [] now answer i) = c" for answer c i
    by (induction answer arbitrary: i rule: address_records.induct) simp_all
  show "address_records answer = [(h, family, address)] \<Longrightarrow> ?thesis"
    by (induction answer arbitrary: i rule: address_records.induct)
      (auto simp: none insert_address_def Let_def)
qed

text \<open>
  After a response with exactly one address record and no CNAME, whose owner is a valid name, Find
  of that address returns an entry with the owner's name and the record's expiry.
\<close>

theorem single_address_found:
  assumes "accepted_answer unpack message = Some answer" and "cache_inv uf c"
    and "address_records answer = [(h, family, address)]" and "collect_cnames answer [] = []"
    and "put_accepts c family address (clean_name (hdr_name h))"
  shows "\<exists>e n. cache_find (fst (parse_response unpack uf c cid message now)) cid family address = Some e \<and>
    en_touched e = now \<and> n \<in> set (en_names e) \<and> nm_expires n = expiry (hdr_ttl h) now \<and>
    same_name uf (nm_value n) (clean_name (clean_name (hdr_name h)))"
proof -
  have "fst (parse_response unpack uf c cid message now) =
      cache_put uf c cid family address (clean_name (hdr_name h)) (hdr_ttl h) now"
    using insert_answers_single [OF assms(3)] by (simp add: parse_response_accepted [OF assms(1)] assms(4))
  moreover have v: "valid_key family address" using assms(5) by (simp add: put_accepts_def)
  ultimately show ?thesis
    using put_name_has [of uf "clean_name (clean_name (hdr_name h))" "expiry (hdr_ttl h) now"]
    by (auto simp: cache_find_abs v abs_cache_put [OF assms(2,5)] stored_entry_def touch_entry_def
        same_name_def)
qed

theorem single_address_found_witness:
  "\<exists>e. cache_find (fst (parse_response
      (\<lambda>_. Inr \<lparr>msg_response = True, msg_answer = [RR_A \<lparr>hdr_name = ''b.'', hdr_ttl = 0\<rparr> [1, 2, 3, 4]]\<rparr>)
      no_unicode sample_empty 7 (replicate 12 0) 1000)) 7 2 [1, 2, 3, 4] = Some e \<and> en_touched e = 1000"
proof -
  let ?a = "[RR_A \<lparr>hdr_name = ''b.'', hdr_ttl = 0\<rparr> [1, 2, 3, 4]]"
  let ?u = "\<lambda>_. Inr \<lparr>msg_response = True, msg_answer = ?a\<rparr>"
  have "accepted_answer ?u (replicate 12 0) = Some ?a" by (simp add: accepted_answer_def)
  from single_address_found [OF this sample_empty_inv, of "\<lparr>hdr_name = ''b.'', hdr_ttl = 0\<rparr>" 2 "[1, 2, 3, 4]" no_unicode 7 1000]
  show ?thesis
    by (auto simp: to4_def put_accepts_def clean_name_def MaxHostname_def valid_key_def addr_size_def
        sample_empty_def)
qed

text \<open>
  The parser keeps at most 32 CNAME records however many the answer holds, each of them a record
  of the answer with cleaned names and its own TTL.
\<close>

theorem cname_collection_bounded:
  "length (collect_cnames answer []) \<le> 32 \<and>
   (\<forall>cn \<in> set (collect_cnames answer []). \<exists>h target. RR_CNAME h target \<in> set answer \<and>
      cn = \<lparr>cn_alias = clean_name (hdr_name h), cn_target = clean_name target, cn_ttl = hdr_ttl h\<rparr>)"
  using collect_cnames_bound [of "[]" answer] collect_cnames_from [of _ answer "[]"]
  by fastforce

theorem cname_collection_bounded_witness:
  "\<exists>h target. RR_CNAME h target \<in> set sample_answer \<and>
     \<lparr>cn_alias = ''www.example'', cn_target = ''HOST.example'', cn_ttl = 20\<rparr> =
     \<lparr>cn_alias = clean_name (hdr_name h), cn_target = clean_name target, cn_ttl = hdr_ttl h\<rparr>"
proof -
  have "\<lparr>cn_alias = ''www.example'', cn_target = ''HOST.example'', cn_ttl = 20\<rparr> \<in> set (collect_cnames sample_answer [])"
    by (simp add: sample_answer_def clean_name_def MaxHostname_def Let_def)
  with cname_collection_bounded [of sample_answer] show ?thesis by blast
qed



end
