(* ===== verification/CLayout.thy ===== *)
theory CLayout
  imports Prelude
begin

text \<open>
  How the C compiler lays out the declarations of vmlinux.h and netmon.h for the 64-bit
  little-endian BPF target: sizes, alignments, bit-fields, arrays, nested and anonymous structs
  and unions, packed structs. A declaration is a value of \<open>cty\<close>; its layout is computed by
  \<open>size_of\<close>, \<open>align_of\<close>, \<open>placements\<close> and \<open>find_field\<close>. The lemmas are proved for
  every well-formed declaration, so that the concrete ones only have to be evaluated.
\<close>

section \<open>Declarations\<close>

text \<open>
  \<open>CInt n\<close> is a scalar of \<open>n\<close> bytes (an integer, an enum or a pointer), aligned to its size.
  A member \<open>Bits f n w\<close> is a bit-field of \<open>w\<close> bits declared with a type of \<open>n\<close> bytes; the
  empty name stands for an anonymous member, \<open>Bits '''' n 0\<close> for the zero-width bit-field.
\<close>

datatype cty =
    CInt nat
  | CArr nat cty
  | CStruct "cmem list"
  | CUnion "cmem list"
  | CPacked "cmem list"
and cmem =
    Fld string cty
  | Bits string nat nat

abbreviation "cU8 \<equiv> CInt 1"
abbreviation "cU16 \<equiv> CInt 2"
abbreviation "cU32 \<equiv> CInt 4"
abbreviation "cU64 \<equiv> CInt 8"
abbreviation "cPtr \<equiv> CInt 8"
abbreviation "cEnum \<equiv> CInt 4"

definition round_up :: "nat \<Rightarrow> nat \<Rightarrow> nat" where
  "round_up p a = (p + a - 1) div a * a"

fun align_of :: "cty \<Rightarrow> nat" and mems_align :: "cmem list \<Rightarrow> nat" where
  "align_of (CInt n) = n"
| "align_of (CArr n t) = align_of t"
| "align_of (CStruct ms) = mems_align ms"
| "align_of (CUnion ms) = mems_align ms"
| "align_of (CPacked ms) = 1"
| "mems_align [] = 1"
| "mems_align (Fld f t # ms) = max (align_of t) (mems_align ms)"
| "mems_align (Bits f n w # ms) = max (if f = [] then 1 else n) (mems_align ms)"

text \<open>The bit at which a member starts when the next free bit is \<open>p\<close>.\<close>

fun mem_start :: "nat \<Rightarrow> cmem \<Rightarrow> nat" where
  "mem_start p (Fld f t) = round_up p (8 * align_of t)"
| "mem_start p (Bits f n w) =
     (if w = 0 \<or> p mod (8 * n) + w > 8 * n then round_up p (8 * n) else p)"

fun packed_start :: "nat \<Rightarrow> cmem \<Rightarrow> nat" where
  "packed_start p (Fld f t) = round_up p 8"
| "packed_start p (Bits f n w) = (if w = 0 then round_up p (8 * n) else p)"

fun size_of :: "cty \<Rightarrow> nat" and mem_bits :: "cmem \<Rightarrow> nat"
  and end_bits :: "nat \<Rightarrow> cmem list \<Rightarrow> nat" and union_bits :: "cmem list \<Rightarrow> nat"
  and packed_bits :: "nat \<Rightarrow> cmem list \<Rightarrow> nat" where
  "size_of (CInt n) = n"
| "size_of (CArr n t) = n * size_of t"
| "size_of (CStruct ms) = round_up (end_bits 0 ms) (8 * mems_align ms) div 8"
| "size_of (CUnion ms) = round_up (union_bits ms) (8 * mems_align ms) div 8"
| "size_of (CPacked ms) = round_up (packed_bits 0 ms) 8 div 8"
| "mem_bits (Fld f t) = 8 * size_of t"
| "mem_bits (Bits f n w) = w"
| "end_bits p [] = p"
| "end_bits p (m # ms) = end_bits (mem_start p m + mem_bits m) ms"
| "union_bits [] = 0"
| "union_bits (m # ms) = max (mem_bits m) (union_bits ms)"
| "packed_bits p [] = p"
| "packed_bits p (m # ms) = packed_bits (packed_start p m + mem_bits m) ms"

text \<open>Where the members of a struct lie: each with its first bit and the bit after its last.\<close>

fun placements :: "nat \<Rightarrow> cmem list \<Rightarrow> (cmem \<times> nat \<times> nat) list" where
  "placements p [] = []"
| "placements p (m # ms) =
     (m, mem_start p m, mem_start p m + mem_bits m) #
     placements (mem_start p m + mem_bits m) ms"

text \<open>
  The bit offset and bit width of a named member, looking through anonymous structs and
  unions as C does. The first argument of the list functions is the next free bit.
\<close>

fun find_field :: "string \<Rightarrow> cty \<Rightarrow> (nat \<times> nat) option"
  and find_struct :: "string \<Rightarrow> nat \<Rightarrow> cmem list \<Rightarrow> (nat \<times> nat) option"
  and find_union :: "string \<Rightarrow> cmem list \<Rightarrow> (nat \<times> nat) option"
  and find_packed :: "string \<Rightarrow> nat \<Rightarrow> cmem list \<Rightarrow> (nat \<times> nat) option"
  and find_mem :: "string \<Rightarrow> cmem \<Rightarrow> (nat \<times> nat) option" where
  "find_field f (CInt n) = None"
| "find_field f (CArr n t) = None"
| "find_field f (CStruct ms) = find_struct f 0 ms"
| "find_field f (CUnion ms) = find_union f ms"
| "find_field f (CPacked ms) = find_packed f 0 ms"
| "find_struct f p [] = None"
| "find_struct f p (m # ms) =
     (case find_mem f m of
        Some (off, w) \<Rightarrow> Some (mem_start p m + off, w)
      | None \<Rightarrow> find_struct f (mem_start p m + mem_bits m) ms)"
| "find_union f [] = None"
| "find_union f (m # ms) =
     (case find_mem f m of Some r \<Rightarrow> Some r | None \<Rightarrow> find_union f ms)"
| "find_packed f p [] = None"
| "find_packed f p (m # ms) =
     (case find_mem f m of
        Some (off, w) \<Rightarrow> Some (packed_start p m + off, w)
      | None \<Rightarrow> find_packed f (packed_start p m + mem_bits m) ms)"
| "find_mem f (Fld g t) =
     (if g = f then Some (0, 8 * size_of t) else if g = [] then find_field f t else None)"
| "find_mem f (Bits g n w) = (if g = f then Some (0, w) else None)"

text \<open>
  The names a program can use for the members of an object, those of anonymous structs and unions
  included, in the order of the declaration; and where each of them lies.
\<close>

fun member_names :: "cty \<Rightarrow> string list" and mem_names :: "cmem \<Rightarrow> string list"
  and mems_names :: "cmem list \<Rightarrow> string list" where
  "member_names (CInt n) = []"
| "member_names (CArr n t) = []"
| "member_names (CStruct ms) = mems_names ms"
| "member_names (CUnion ms) = mems_names ms"
| "member_names (CPacked ms) = mems_names ms"
| "mem_names (Fld f t) = (if f = [] then member_names t else [f])"
| "mem_names (Bits f n w) = (if f = [] then [] else [f])"
| "mems_names [] = []"
| "mems_names (m # ms) = mem_names m @ mems_names ms"

definition member_table :: "cty \<Rightarrow> (string \<times> (nat \<times> nat) option) list" where
  "member_table t = map (\<lambda>f. (f, find_field f t)) (member_names t)"

text \<open>The byte offset and byte size of a member that is not a bit-field.\<close>

definition byte_field :: "string \<Rightarrow> cty \<Rightarrow> (nat \<times> nat) option" where
  "byte_field f t = (case find_field f t of
     Some (off, w) \<Rightarrow> if 8 dvd off \<and> 8 dvd w then Some (off div 8, w div 8) else None
   | None \<Rightarrow> None)"

section \<open>Well-formed declarations\<close>

definition scalar_sizes :: "nat list" where
  "scalar_sizes = [1, 2, 4, 8, 16]"

fun wf_cty :: "cty \<Rightarrow> bool" and wf_mem :: "cmem \<Rightarrow> bool" and wf_mems :: "cmem list \<Rightarrow> bool" where
  "wf_cty (CInt n) \<longleftrightarrow> n \<in> set scalar_sizes"
| "wf_cty (CArr n t) \<longleftrightarrow> wf_cty t"
| "wf_cty (CStruct ms) \<longleftrightarrow> wf_mems ms"
| "wf_cty (CUnion ms) \<longleftrightarrow> wf_mems ms"
| "wf_cty (CPacked ms) \<longleftrightarrow> wf_mems ms"
| "wf_mem (Fld f t) \<longleftrightarrow> wf_cty t"
| "wf_mem (Bits f n w) \<longleftrightarrow> n \<in> set scalar_sizes \<and> w \<le> 8 * n \<and> (w = 0 \<longrightarrow> f = [])"
| "wf_mems [] \<longleftrightarrow> True"
| "wf_mems (m # ms) \<longleftrightarrow> wf_mem m \<and> wf_mems ms"

lemma wf_mems_all: "wf_mems ms \<longleftrightarrow> (\<forall>m \<in> set ms. wf_mem m)"
  by (induction ms) auto

section \<open>Rounding\<close>

lemma round_up_ge: "0 < a \<Longrightarrow> p \<le> round_up p a"
proof -
  assume a: "0 < a"
  have "p + a - 1 = (p + a - 1) div a * a + (p + a - 1) mod a"
    by simp
  moreover have "(p + a - 1) mod a < a" using a by simp
  ultimately show ?thesis unfolding round_up_def by linarith
qed

lemma round_up_dvd [simp]: "a dvd round_up p a"
  by (simp add: round_up_def)

lemma round_up_less: "0 < a \<Longrightarrow> round_up p a < p + a"
proof -
  assume a: "0 < a"
  have "(p + a - 1) div a * a \<le> p + a - 1" by simp
  with a show ?thesis unfolding round_up_def by linarith
qed

lemma round_up_id: "0 < a \<Longrightarrow> a dvd p \<Longrightarrow> round_up p a = p"
proof -
  assume a: "0 < a" and d: "a dvd p"
  from d obtain k where p: "p = a * k" ..
  have "a * k + a - 1 = (a - 1) + k * a" using a by (simp add: mult.commute)
  moreover have "((a - 1) + k * a) div a = k + (a - 1) div a"
    using a by (intro div_mult_self1) simp
  moreover have "(a - 1) div a = 0" using a by simp
  ultimately show ?thesis by (simp add: round_up_def p)
qed

section \<open>Alignments are powers of two and divide sizes\<close>

definition pow2 :: "nat \<Rightarrow> bool" where
  "pow2 a \<longleftrightarrow> (\<exists>k. a = 2 ^ k)"

lemma pow2_pos: "pow2 a \<Longrightarrow> 0 < a"
  by (auto simp: pow2_def)

lemma pow2_le_dvd: "pow2 a \<Longrightarrow> pow2 b \<Longrightarrow> a \<le> b \<Longrightarrow> a dvd b"
  by (auto simp: pow2_def le_imp_power_dvd)

lemma pow2_max: "pow2 a \<Longrightarrow> pow2 b \<Longrightarrow> pow2 (max a b)"
  by (simp add: max_def)

lemma pow2_1: "pow2 1"
  unfolding pow2_def by (rule exI [of _ 0]) simp

lemma pow2_scalar: "n \<in> set scalar_sizes \<Longrightarrow> pow2 n"
proof -
  assume "n \<in> set scalar_sizes"
  then consider "n = 2 ^ 0" | "n = 2 ^ 1" | "n = 2 ^ 2" | "n = 2 ^ 3" | "n = 2 ^ 4"
    by (auto simp: scalar_sizes_def)
  then show ?thesis unfolding pow2_def by cases blast+
qed

lemma align_pow2:
  "wf_cty t \<Longrightarrow> pow2 (align_of t)"
  "wf_mems ms \<Longrightarrow> pow2 (mems_align ms)"
proof (induction t and ms rule: align_of_mems_align.induct)
  case (8 f n w ms)
  then have "pow2 (if f = [] then 1 else n)" and "pow2 (mems_align ms)"
    by (simp_all add: pow2_1 pow2_scalar del: One_nat_def)
  then show ?case by (simp add: pow2_max del: One_nat_def)
qed (auto intro: pow2_scalar pow2_max pow2_1 simp del: One_nat_def)

lemma align_pos: "wf_cty t \<Longrightarrow> 0 < align_of t" "wf_mems ms \<Longrightarrow> 0 < mems_align ms"
  by (blast intro: pow2_pos align_pow2)+

lemma dvd_round_up_div8: "a dvd round_up p (8 * a) div 8"
proof -
  have "8 * a dvd round_up p (8 * a)" by simp
  then obtain k where "round_up p (8 * a) = 8 * a * k" ..
  then show ?thesis by simp
qed

lemma size_align_dvd: "align_of t dvd size_of t"
proof (induction t rule: cty.induct [where ?P2.0 = "\<lambda>_. True"])
  case (CArr n t)
  then show ?case by simp
qed (simp_all add: dvd_round_up_div8)

lemma size_bits_struct: "8 * size_of (CStruct ms) = round_up (end_bits 0 ms) (8 * mems_align ms)"
proof -
  have "8 dvd round_up (end_bits 0 ms) (8 * mems_align ms)"
    by (rule dvd_trans [of _ "8 * mems_align ms"]) simp_all
  then show ?thesis by simp
qed

lemma size_bits_union: "8 * size_of (CUnion ms) = round_up (union_bits ms) (8 * mems_align ms)"
proof -
  have "8 dvd round_up (union_bits ms) (8 * mems_align ms)"
    by (rule dvd_trans [of _ "8 * mems_align ms"]) simp_all
  then show ?thesis by simp
qed

lemma size_bits_packed: "8 * size_of (CPacked ms) = round_up (packed_bits 0 ms) 8"
  by simp

section \<open>No overlap, alignment and bounds of the members\<close>

lemma scalar_pos: "n \<in> set scalar_sizes \<Longrightarrow> 0 < n"
  by (auto simp: scalar_sizes_def)

lemma mem_start_ge: "wf_mem m \<Longrightarrow> p \<le> mem_start p m"
  by (cases m) (auto intro!: round_up_ge simp: scalar_pos align_pos)

lemma packed_start_ge: "wf_mem m \<Longrightarrow> p \<le> packed_start p m"
  by (cases m) (auto intro!: round_up_ge simp: scalar_pos)

lemma end_bits_ge: "wf_mems ms \<Longrightarrow> p \<le> end_bits p ms"
proof (induction ms arbitrary: p)
  case (Cons m ms)
  then have "p \<le> mem_start p m + mem_bits m"
    by (auto intro: trans_le_add1 mem_start_ge)
  also have "\<dots> \<le> end_bits (mem_start p m + mem_bits m) ms"
    using Cons by simp
  finally show ?case by simp
qed simp

lemma packed_bits_ge: "wf_mems ms \<Longrightarrow> p \<le> packed_bits p ms"
proof (induction ms arbitrary: p)
  case (Cons m ms)
  then have "p \<le> packed_start p m + mem_bits m"
    by (auto intro: trans_le_add1 packed_start_ge)
  also have "\<dots> \<le> packed_bits (packed_start p m + mem_bits m) ms"
    using Cons by simp
  finally show ?case by simp
qed simp

lemma placements_range:
  "wf_mems ms \<Longrightarrow> (m, s, e) \<in> set (placements p ms) \<Longrightarrow> p \<le> s \<and> s \<le> e \<and> e \<le> end_bits p ms"
proof (induction ms arbitrary: p)
  case (Cons m' ms)
  let ?q = "mem_start p m' + mem_bits m'"
  have pq: "p \<le> mem_start p m'" using Cons.prems(1) by (simp add: mem_start_ge)
  have qe: "?q \<le> end_bits ?q ms" using Cons.prems(1) by (simp add: end_bits_ge)
  show ?case
  proof (cases "(m, s, e) \<in> set (placements ?q ms)")
    case True
    with Cons have "?q \<le> s \<and> s \<le> e \<and> e \<le> end_bits ?q ms" by simp
    with pq show ?thesis by simp
  next
    case False
    with Cons.prems(2) have "s = mem_start p m'" and "e = ?q" by auto
    with pq qe show ?thesis by simp
  qed
qed simp

definition placed_before :: "cmem \<times> nat \<times> nat \<Rightarrow> cmem \<times> nat \<times> nat \<Rightarrow> bool" where
  "placed_before a b \<longleftrightarrow> snd (snd a) \<le> fst (snd b)"

lemma placements_disjoint: "wf_mems ms \<Longrightarrow> sorted_wrt placed_before (placements p ms)"
  by (induction ms arbitrary: p)
    (auto simp: placed_before_def dest: placements_range)

text \<open>A member obeys its own alignment: a field its type's, a bit-field its storage unit.\<close>

fun placed_ok :: "cmem \<times> nat \<times> nat \<Rightarrow> bool" where
  "placed_ok (Fld f t, s, e) \<longleftrightarrow> 8 * align_of t dvd s \<and> e = s + 8 * size_of t"
| "placed_ok (Bits f n w, s, e) \<longleftrightarrow> s mod (8 * n) + w \<le> 8 * n \<and> e = s + w"

lemma mem_start_ok: "wf_mem m \<Longrightarrow> placed_ok (m, mem_start p m, mem_start p m + mem_bits m)"
proof (cases m)
  case (Bits f n w)
  have "8 * n dvd round_up p (8 * n)" by simp
  then have "round_up p (8 * n) mod (8 * n) = 0" by (rule dvd_imp_mod_0)
  moreover assume "wf_mem m"
  ultimately show ?thesis using Bits by auto
qed simp

lemma placements_ok: "wf_mems ms \<Longrightarrow> x \<in> set (placements p ms) \<Longrightarrow> placed_ok x"
  by (induction ms arbitrary: p) (auto simp: mem_start_ok simp del: mem_start.simps)

lemma mem_in_union: "m \<in> set ms \<Longrightarrow> mem_bits m \<le> union_bits ms"
  by (induction ms) auto

lemma struct_bits_le: "wf_mems ms \<Longrightarrow> end_bits 0 ms \<le> 8 * size_of (CStruct ms)"
  unfolding size_bits_struct by (intro round_up_ge) (simp add: align_pos)

lemma union_bits_le: "wf_mems ms \<Longrightarrow> union_bits ms \<le> 8 * size_of (CUnion ms)"
  unfolding size_bits_union by (intro round_up_ge) (simp add: align_pos)

lemma packed_bits_le: "packed_bits 0 ms \<le> 8 * size_of (CPacked ms)"
  unfolding size_bits_packed by (intro round_up_ge) simp

text \<open>A field that is found lies inside the object, however deep the anonymous nesting.\<close>

lemma find_in_bounds:
  "wf_cty t \<Longrightarrow> find_field f t = Some (off, w) \<Longrightarrow> off + w \<le> 8 * size_of t"
  "wf_mems ms \<Longrightarrow> find_struct f p ms = Some (off, w) \<Longrightarrow> off + w \<le> end_bits p ms"
  "wf_mems ms \<Longrightarrow> find_union f ms = Some (off, w) \<Longrightarrow> off + w \<le> union_bits ms"
  "wf_mems ms \<Longrightarrow> find_packed f p ms = Some (off, w) \<Longrightarrow> off + w \<le> packed_bits p ms"
  "wf_mem m \<Longrightarrow> find_mem f m = Some (off, w) \<Longrightarrow> off + w \<le> mem_bits m"
proof (induction f t and f p ms and f ms and f p ms and f m
    arbitrary: off w and off w and off w and off w and off w
    rule: find_field_find_struct_find_union_find_packed_find_mem.induct)
  case (3 f ms)
  then have "off + w \<le> end_bits 0 ms" by simp
  then show ?case using struct_bits_le [of ms] 3 by (simp del: size_of.simps)
next
  case (4 f ms)
  then have "off + w \<le> union_bits ms" by simp
  then show ?case using union_bits_le [of ms] 4 by (simp del: size_of.simps)
next
  case (5 f ms)
  then have "off + w \<le> packed_bits 0 ms" by simp
  then show ?case using packed_bits_le [of ms] by simp
next
  case (7 f p m ms)
  show ?case
  proof (cases "find_mem f m")
    case None
    with 7 show ?thesis by simp
  next
    case (Some r)
    obtain o' w' where r: "r = (o', w')" by (cases r)
    with Some 7 have "o' + w' \<le> mem_bits m" by simp
    moreover have "mem_start p m + mem_bits m \<le> end_bits (mem_start p m + mem_bits m) ms"
      using 7 by (simp add: end_bits_ge)
    ultimately show ?thesis using 7 Some r by auto
  qed
next
  case (9 f m ms)
  then show ?case by (fastforce split: option.splits)
next
  case (11 f p m ms)
  show ?case
  proof (cases "find_mem f m")
    case None
    with 11 show ?thesis by simp
  next
    case (Some r)
    obtain o' w' where r: "r = (o', w')" by (cases r)
    with Some 11 have "o' + w' \<le> mem_bits m" by simp
    moreover have "packed_start p m + mem_bits m \<le> packed_bits (packed_start p m + mem_bits m) ms"
      using 11 by (simp add: packed_bits_ge)
    ultimately show ?thesis using 11 Some r by auto
  qed
qed (auto split: if_splits simp del: size_of.simps)

lemma byte_field_in_bounds:
  assumes "wf_cty t" and "byte_field f t = Some (off, n)"
  shows "off + n \<le> size_of t"
proof -
  from assms(2) obtain b w where bw: "find_field f t = Some (b, w)"
    and d: "8 dvd b" "8 dvd w" "off = b div 8" "n = w div 8"
    by (auto simp: byte_field_def split: option.splits if_splits)
  from assms(1) bw have "b + w \<le> 8 * size_of t" by (rule find_in_bounds)
  with d show ?thesis by (auto elim!: dvdE)
qed

section \<open>Enumerations, padding and evaluation\<close>

text \<open>An enum as its enumerators in the order of the source, each with its value.\<close>

type_synonym enumeration = "(string \<times> int) list"

text \<open>The enumerators are numbered from 0 without a gap or a repetition.\<close>

definition counts_up :: "enumeration \<Rightarrow> bool" where
  "counts_up e \<longleftrightarrow> map snd e = map int [0..<length e]"

text \<open>
  \<open>pad64 n\<close> is \<open>n\<close> consecutive lines \<open>long: 64;\<close>, the filler bpftool prints for cache-line
  and page alignment.
\<close>

definition pad64 :: "nat \<Rightarrow> cmem list" where
  "pad64 n = replicate n (Bits '''' 8 64)"

lemma wf_mems_append: "wf_mems (ms @ ms') \<longleftrightarrow> wf_mems ms \<and> wf_mems ms'"
  by (induction ms) auto

lemma wf_pad64: "wf_mems (pad64 n)"
  by (simp add: wf_mems_all pad64_def scalar_sizes_def)

lemma mems_align_ge: "1 \<le> mems_align ms"
proof (induction ms)
  case (Cons m ms)
  then show ?case by (cases m) (simp_all add: le_max_iff_disj)
qed simp

lemma mems_align_append: "mems_align (ms @ ms') = max (mems_align ms) (mems_align ms')"
proof (induction ms)
  case Nil
  then show ?case using mems_align_ge [of ms'] by simp
next
  case (Cons m ms)
  then show ?case by (cases m) simp_all
qed

lemma mems_align_pad64: "mems_align (pad64 n) = 1"
  unfolding pad64_def by (induction n) simp_all

lemma end_bits_append: "end_bits p (ms @ ms') = end_bits (end_bits p ms) ms'"
  by (induction ms arbitrary: p) simp_all

lemma end_bits_pad64_aligned: "64 dvd p \<Longrightarrow> end_bits p (pad64 n) = p + 64 * n"
  unfolding pad64_def by (induction n arbitrary: p) (auto simp: mod_eq_0_iff_dvd)

lemma end_bits_pad64:
  "end_bits p (pad64 n) = (if n = 0 then p else round_up p 64 + 64 * n)"
proof (cases n)
  case (Suc k)
  have start: "mem_start p (Bits '''' 8 64) = round_up p 64"
    by (auto simp: mod_eq_0_iff_dvd round_up_id)
  have "end_bits p (pad64 n) = end_bits (round_up p 64 + 64) (pad64 k)"
    by (simp add: Suc pad64_def start del: mem_start.simps)
  then show ?thesis by (simp add: Suc end_bits_pad64_aligned)
qed (simp add: pad64_def)

lemma find_struct_append:
  "find_struct f p (ms @ ms') = (case find_struct f p ms of
     Some r \<Rightarrow> Some r | None \<Rightarrow> find_struct f (end_bits p ms) ms')"
  by (induction ms arbitrary: p) (auto split: option.splits)

lemma find_struct_pad64: "f \<noteq> '''' \<Longrightarrow> find_struct f p (pad64 n) = None"
  unfolding pad64_def by (induction n arbitrary: p) auto

text \<open>The rules that evaluate the layout of a concrete declaration.\<close>

lemmas layout_simps = round_up_def scalar_sizes_def

lemmas pad_simps = wf_mems_append wf_pad64 mems_align_append mems_align_pad64 end_bits_append
  end_bits_pad64 find_struct_append find_struct_pad64

end
