(* ===== verification/NetmonEvents.thy ===== *)
theory NetmonEvents
  imports CLayout
begin

text \<open>
  The event ABI of src/src/netmon-go/bpf/netmon.h: the limits, the enumerations, the two record
  types that cross the ring buffer, their C declarations, and their memory images as the BPF
  program (little-endian) leaves them in the ring buffer. The lemmas show that every field of
  an image lies at the offset the C layout gives it and that an image determines its record.
\<close>

section \<open>Limits and enumerations\<close>

definition DNS_CAPTURE_MAX :: nat where "DNS_CAPTURE_MAX = 1232"
definition TASK_COMM_LEN :: nat where "TASK_COMM_LEN = 16"

datatype event_kind = EVENT_CONNECT | EVENT_DNS_PACKET

fun event_kind_num :: "event_kind \<Rightarrow> u32" where
  "event_kind_num EVENT_CONNECT = 1"
| "event_kind_num EVENT_DNS_PACKET = 2"

datatype packet_direction = DIR_INGRESS | DIR_EGRESS

fun packet_direction_num :: "packet_direction \<Rightarrow> u8" where
  "packet_direction_num DIR_INGRESS = 1"
| "packet_direction_num DIR_EGRESS = 2"

datatype counter_id =
    CNT_RINGBUF_FAIL
  | CNT_BAD_L3
  | CNT_BAD_IPV4
  | CNT_IPV4_FRAGMENT
  | CNT_IPV6_EXT
  | CNT_BAD_UDP
  | CNT_DNS_SHORT
  | CNT_DNS_TRUNCATED
  | CNT_DNS_TCP_SEEN
  | CNT_MAX

fun counter_num :: "counter_id \<Rightarrow> nat" where
  "counter_num CNT_RINGBUF_FAIL = 0"
| "counter_num CNT_BAD_L3 = 1"
| "counter_num CNT_BAD_IPV4 = 2"
| "counter_num CNT_IPV4_FRAGMENT = 3"
| "counter_num CNT_IPV6_EXT = 4"
| "counter_num CNT_BAD_UDP = 5"
| "counter_num CNT_DNS_SHORT = 6"
| "counter_num CNT_DNS_TRUNCATED = 7"
| "counter_num CNT_DNS_TCP_SEEN = 8"
| "counter_num CNT_MAX = 9"

lemma counter_num_inj [simp]: "counter_num a = counter_num b \<longleftrightarrow> a = b"
  by (cases a; cases b) simp_all

lemma counter_num_le: "counter_num c \<le> 9"
  by (cases c) simp_all

text \<open>The enumerators in the order of their values; the order is the one of the C integers.\<close>

instantiation counter_id :: linorder
begin

definition less_eq_counter_id :: "counter_id \<Rightarrow> counter_id \<Rightarrow> bool" where
  "less_eq_counter_id a b \<longleftrightarrow> counter_num a \<le> counter_num b"

definition less_counter_id :: "counter_id \<Rightarrow> counter_id \<Rightarrow> bool" where
  "less_counter_id a b \<longleftrightarrow> counter_num a < counter_num b"

instance
  by standard (auto simp: less_eq_counter_id_def less_counter_id_def)

end

section \<open>The C declarations\<close>

definition struct_connection_event :: cty where
  "struct_connection_event = CStruct [
     Fld ''kind'' cU32,
     Fld ''_pad'' cU32,
     Fld ''timestamp_ns'' cU64,
     Fld ''cgroup_id'' cU64,
     Fld ''pid'' cU32,
     Fld ''tid'' cU32,
     Fld ''uid'' cU32,
     Fld ''family'' cU16,
     Fld ''protocol'' cU8,
     Fld ''_pad2'' cU8,
     Fld ''destination_port'' cU16,
     Fld ''_pad3'' cU16,
     Fld ''destination'' (CArr 16 cU8),
     Fld ''comm'' (CArr TASK_COMM_LEN cU8)]"

definition struct_dns_packet_event :: cty where
  "struct_dns_packet_event = CStruct [
     Fld ''kind'' cU32,
     Fld ''ifindex'' cU32,
     Fld ''timestamp_ns'' cU64,
     Fld ''direction'' cU8,
     Fld ''family'' cU8,
     Fld ''protocol'' cU8,
     Fld ''_pad'' cU8,
     Fld ''message_len'' cU16,
     Fld ''captured_len'' cU16,
     Fld ''payload'' (CArr DNS_CAPTURE_MAX cU8)]"

section \<open>The records\<close>

record connection_event =
  ce_kind :: u32
  ce_pad :: u32
  ce_timestamp_ns :: u64
  ce_cgroup_id :: u64
  ce_pid :: u32
  ce_tid :: u32
  ce_uid :: u32
  ce_family :: u16
  ce_protocol :: u8
  ce_pad2 :: u8
  ce_destination_port :: u16
  ce_pad3 :: u16
  ce_destination :: "u8 list"
  ce_comm :: "u8 list"

record dns_packet_event =
  dp_kind :: u32
  dp_ifindex :: u32
  dp_timestamp_ns :: u64
  dp_direction :: u8
  dp_family :: u8
  dp_protocol :: u8
  dp_pad :: u8
  dp_message_len :: u16
  dp_captured_len :: u16
  dp_payload :: "u8 list"

definition wf_connection_event :: "connection_event \<Rightarrow> bool" where
  "wf_connection_event e \<longleftrightarrow> length (ce_destination e) = 16 \<and> length (ce_comm e) = TASK_COMM_LEN"

definition wf_dns_packet_event :: "dns_packet_event \<Rightarrow> bool" where
  "wf_dns_packet_event e \<longleftrightarrow> length (dp_payload e) = DNS_CAPTURE_MAX"

text \<open>The fields of a record in declaration order, with their bytes.\<close>

definition connection_fields :: "connection_event \<Rightarrow> (string \<times> u8 list) list" where
  "connection_fields e = [
     (''kind'', bytes_le 4 (ce_kind e)),
     (''_pad'', bytes_le 4 (ce_pad e)),
     (''timestamp_ns'', bytes_le 8 (ce_timestamp_ns e)),
     (''cgroup_id'', bytes_le 8 (ce_cgroup_id e)),
     (''pid'', bytes_le 4 (ce_pid e)),
     (''tid'', bytes_le 4 (ce_tid e)),
     (''uid'', bytes_le 4 (ce_uid e)),
     (''family'', bytes_le 2 (ce_family e)),
     (''protocol'', bytes_le 1 (ce_protocol e)),
     (''_pad2'', bytes_le 1 (ce_pad2 e)),
     (''destination_port'', bytes_le 2 (ce_destination_port e)),
     (''_pad3'', bytes_le 2 (ce_pad3 e)),
     (''destination'', ce_destination e),
     (''comm'', ce_comm e)]"

definition dns_packet_fields :: "dns_packet_event \<Rightarrow> (string \<times> u8 list) list" where
  "dns_packet_fields e = [
     (''kind'', bytes_le 4 (dp_kind e)),
     (''ifindex'', bytes_le 4 (dp_ifindex e)),
     (''timestamp_ns'', bytes_le 8 (dp_timestamp_ns e)),
     (''direction'', bytes_le 1 (dp_direction e)),
     (''family'', bytes_le 1 (dp_family e)),
     (''protocol'', bytes_le 1 (dp_protocol e)),
     (''_pad'', bytes_le 1 (dp_pad e)),
     (''message_len'', bytes_le 2 (dp_message_len e)),
     (''captured_len'', bytes_le 2 (dp_captured_len e)),
     (''payload'', dp_payload e)]"

text \<open>
  The memory images. \<open>connection_event\<close> has four bytes of tail padding, which the program has
  zeroed; \<open>dns_packet_event\<close> has none.
\<close>

definition connection_image :: "connection_event \<Rightarrow> u8 list" where
  "connection_image e = concat (map snd (connection_fields e)) @ replicate 4 0"

definition dns_packet_image :: "dns_packet_event \<Rightarrow> u8 list" where
  "dns_packet_image e = concat (map snd (dns_packet_fields e))"

text \<open>Reading the dns record back from the memory the program was given.\<close>

definition dns_packet_of_memory :: "u8 list \<Rightarrow> dns_packet_event" where
  "dns_packet_of_memory m = \<lparr>
     dp_kind = word_le (subrange 0 4 m),
     dp_ifindex = word_le (subrange 4 4 m),
     dp_timestamp_ns = word_le (subrange 8 8 m),
     dp_direction = word_le (subrange 16 1 m),
     dp_family = word_le (subrange 17 1 m),
     dp_protocol = word_le (subrange 18 1 m),
     dp_pad = word_le (subrange 19 1 m),
     dp_message_len = word_le (subrange 20 2 m),
     dp_captured_len = word_le (subrange 22 2 m),
     dp_payload = subrange 24 DNS_CAPTURE_MAX m\<rparr>"

section \<open>The images follow the C layout\<close>

text \<open>
  \<open>image_follows t fs m\<close>: every field of \<open>fs\<close> is a member of \<open>t\<close> of exactly that many bytes, and
  its bytes are found in \<open>m\<close> at the member's offset.
\<close>

definition image_follows :: "cty \<Rightarrow> (string \<times> u8 list) list \<Rightarrow> u8 list \<Rightarrow> bool" where
  "image_follows t fs m \<longleftrightarrow> length m = size_of t \<and>
     (\<forall>(f, bs) \<in> set fs. case byte_field f t of
        None \<Rightarrow> False
      | Some (off, n) \<Rightarrow> n = length bs \<and> subrange off n m = bs)"

lemma connection_event_size: "size_of struct_connection_event = 80"
  by (simp add: struct_connection_event_def round_up_def TASK_COMM_LEN_def)

lemma dns_packet_event_size: "size_of struct_dns_packet_event = 1256"
  by (simp add: struct_dns_packet_event_def round_up_def DNS_CAPTURE_MAX_def)

lemma length_connection_image [simp]:
  "wf_connection_event e \<Longrightarrow> length (connection_image e) = 80"
  by (simp add: wf_connection_event_def connection_image_def connection_fields_def
      TASK_COMM_LEN_def)

lemma length_dns_packet_image [simp]:
  "wf_dns_packet_event e \<Longrightarrow> length (dns_packet_image e) = 1256"
  by (simp add: wf_dns_packet_event_def dns_packet_image_def dns_packet_fields_def
      DNS_CAPTURE_MAX_def)

lemma connection_event_field_at:
  "byte_field ''kind'' struct_connection_event = Some (0, 4)"
  "byte_field ''_pad'' struct_connection_event = Some (4, 4)"
  "byte_field ''timestamp_ns'' struct_connection_event = Some (8, 8)"
  "byte_field ''cgroup_id'' struct_connection_event = Some (16, 8)"
  "byte_field ''pid'' struct_connection_event = Some (24, 4)"
  "byte_field ''tid'' struct_connection_event = Some (28, 4)"
  "byte_field ''uid'' struct_connection_event = Some (32, 4)"
  "byte_field ''family'' struct_connection_event = Some (36, 2)"
  "byte_field ''protocol'' struct_connection_event = Some (38, 1)"
  "byte_field ''_pad2'' struct_connection_event = Some (39, 1)"
  "byte_field ''destination_port'' struct_connection_event = Some (40, 2)"
  "byte_field ''_pad3'' struct_connection_event = Some (42, 2)"
  "byte_field ''destination'' struct_connection_event = Some (44, 16)"
  "byte_field ''comm'' struct_connection_event = Some (60, 16)"
  by (simp_all add: byte_field_def struct_connection_event_def round_up_def TASK_COMM_LEN_def)

lemma dns_packet_event_field_at:
  "byte_field ''kind'' struct_dns_packet_event = Some (0, 4)"
  "byte_field ''ifindex'' struct_dns_packet_event = Some (4, 4)"
  "byte_field ''timestamp_ns'' struct_dns_packet_event = Some (8, 8)"
  "byte_field ''direction'' struct_dns_packet_event = Some (16, 1)"
  "byte_field ''family'' struct_dns_packet_event = Some (17, 1)"
  "byte_field ''protocol'' struct_dns_packet_event = Some (18, 1)"
  "byte_field ''_pad'' struct_dns_packet_event = Some (19, 1)"
  "byte_field ''message_len'' struct_dns_packet_event = Some (20, 2)"
  "byte_field ''captured_len'' struct_dns_packet_event = Some (22, 2)"
  "byte_field ''payload'' struct_dns_packet_event = Some (24, 1232)"
  by (simp_all add: byte_field_def struct_dns_packet_event_def round_up_def DNS_CAPTURE_MAX_def)

lemma subrange_skip:
  "length xs \<le> off \<Longrightarrow> subrange off n (xs @ ys) = subrange (off - length xs) n ys"
  "length xs = n \<Longrightarrow> subrange 0 n (xs @ ys) = xs"
  by (simp_all add: subrange_def)

lemma connection_image_follows:
  assumes "wf_connection_event e"
  shows "image_follows struct_connection_event (connection_fields e) (connection_image e)"
  using assms
  by (simp add: image_follows_def connection_event_size connection_image_def connection_fields_def
      connection_event_field_at subrange_skip wf_connection_event_def TASK_COMM_LEN_def)

lemma dns_packet_image_follows:
  assumes "wf_dns_packet_event e"
  shows "image_follows struct_dns_packet_event (dns_packet_fields e) (dns_packet_image e)"
  using assms
  by (simp add: image_follows_def dns_packet_event_size dns_packet_image_def dns_packet_fields_def
      dns_packet_event_field_at subrange_skip wf_dns_packet_event_def DNS_CAPTURE_MAX_def)

lemma dns_packet_of_image:
  assumes "wf_dns_packet_event e"
  shows "dns_packet_of_memory (dns_packet_image e) = e"
  using assms
  by (simp add: dns_packet_of_memory_def dns_packet_image_def dns_packet_fields_def
      subrange_skip wire_simps wf_dns_packet_event_def DNS_CAPTURE_MAX_def)

section \<open>Properties\<close>

text \<open>
  C13. The bytes the programs write for the two records are what the C compiler lays out for the
  structs of netmon.h: every field at its computed offset and size, 80 and 1256 bytes in all.
\<close>

theorem records_follow_c_layout:
  assumes "wf_connection_event c" and "wf_dns_packet_event d"
  shows "image_follows struct_connection_event (connection_fields c) (connection_image c) \<and>
    image_follows struct_dns_packet_event (dns_packet_fields d) (dns_packet_image d) \<and>
    length (connection_image c) = 80 \<and> length (dns_packet_image d) = 1256"
  using assms by (simp add: connection_image_follows dns_packet_image_follows)

theorem records_follow_c_layout_witness:
  "\<exists>c d. image_follows struct_connection_event (connection_fields c) (connection_image c) \<and>
     image_follows struct_dns_packet_event (dns_packet_fields d) (dns_packet_image d) \<and>
     ce_kind c = 1 \<and> dp_kind d = 2"
  using records_follow_c_layout
    [of "\<lparr>ce_kind = 1, ce_pad = 0, ce_timestamp_ns = 5, ce_cgroup_id = 6, ce_pid = 7, ce_tid = 8,
       ce_uid = 9, ce_family = 2, ce_protocol = 6, ce_pad2 = 0, ce_destination_port = 443, ce_pad3 = 0,
       ce_destination = replicate 16 1, ce_comm = replicate 16 65\<rparr>"
     "\<lparr>dp_kind = 2, dp_ifindex = 3, dp_timestamp_ns = 5, dp_direction = 0, dp_family = 2,
       dp_protocol = 17, dp_pad = 0, dp_message_len = 20, dp_captured_len = 20,
       dp_payload = replicate 1232 7\<rparr>"]
  by (intro exI conjI) (auto simp: wf_connection_event_def wf_dns_packet_event_def TASK_COMM_LEN_def
    DNS_CAPTURE_MAX_def)

end
