(* ===== verification/NetmonApp.thy ===== *)
theory NetmonApp
  imports DnsParse NetmonEvents
begin

text \<open>
  The event loop of src/src/netmon-go/cmd/netmon/main.go: decoding of ring-buffer records with
  \<open>binary.Read\<close>, the handling of DNS and connection records, the CONNECT line, the polling loop
  with its maintenance, and the shutdown counters. The wall clock is the parameter \<open>wall\<close>, the
  outcome of each ring-buffer read and identity check an input of the loop.
\<close>

section \<open>Decoding\<close>

record connectionEvent =
  Kind :: u32
  Pad :: u32
  TimestampNS :: u64
  CgroupID :: u64
  PID :: u32
  TID :: u32
  UID :: u32
  Family :: u16
  Protocol :: u8
  Pad2 :: u8
  DestinationPort :: u16
  Pad3 :: u16
  Destination :: "u8 list"
  Comm :: "u8 list"

record dnsPacketEvent =
  DKind :: u32
  DIfindex :: u32
  DTimestampNS :: u64
  DDirection :: u8
  DFamily :: u8
  DProtocol :: u8
  DPad :: u8
  DMessageLen :: u16
  DCapturedLen :: u16
  DPayload :: "u8 list"

text \<open>
  \<open>binary.Read\<close> into a struct: the fixed size of its fields without padding, read in order in
  little-endian; an error (\<open>None\<close>) when the reader is shorter, the rest is left unread.
\<close>

definition read_connection_event :: "u8 list \<Rightarrow> connectionEvent option" where
  "read_connection_event data =
     (if length data < 76 then None
      else Some \<lparr>
        Kind = word_le (subrange 0 4 data),
        Pad = word_le (subrange 4 4 data),
        TimestampNS = word_le (subrange 8 8 data),
        CgroupID = word_le (subrange 16 8 data),
        PID = word_le (subrange 24 4 data),
        TID = word_le (subrange 28 4 data),
        UID = word_le (subrange 32 4 data),
        Family = word_le (subrange 36 2 data),
        Protocol = word_le (subrange 38 1 data),
        Pad2 = word_le (subrange 39 1 data),
        DestinationPort = word_le (subrange 40 2 data),
        Pad3 = word_le (subrange 42 2 data),
        Destination = subrange 44 16 data,
        Comm = subrange 60 16 data\<rparr>)"

definition read_dns_packet_event :: "u8 list \<Rightarrow> dnsPacketEvent option" where
  "read_dns_packet_event data =
     (if length data < 1256 then None
      else Some \<lparr>
        DKind = word_le (subrange 0 4 data),
        DIfindex = word_le (subrange 4 4 data),
        DTimestampNS = word_le (subrange 8 8 data),
        DDirection = word_le (subrange 16 1 data),
        DFamily = word_le (subrange 17 1 data),
        DProtocol = word_le (subrange 18 1 data),
        DPad = word_le (subrange 19 1 data),
        DMessageLen = word_le (subrange 20 2 data),
        DCapturedLen = word_le (subrange 22 2 data),
        DPayload = subrange 24 1232 data\<rparr>)"

section \<open>Text\<close>

fun show_nat :: "nat \<Rightarrow> string" where
  "show_nat n = (if n < 10 then [char_of (48 + n)] else show_nat (n div 10) @ [char_of (48 + n mod 10)])"

declare show_nat.simps [simp del]

definition hex_digit :: "nat \<Rightarrow> char" where
  "hex_digit d = (if d < 10 then char_of (48 + d) else char_of (87 + d))"

fun show_hex :: "nat \<Rightarrow> string" where
  "show_hex n = (if n < 16 then [hex_digit n] else show_hex (n div 16) @ [hex_digit (n mod 16)])"

declare show_hex.simps [simp del]

fun join :: "string \<Rightarrow> string list \<Rightarrow> string" where
  "join sep [] = []"
| "join sep [s] = s"
| "join sep (s # ss) = s @ sep @ join sep ss"

text \<open>The eight 16-bit groups of an IPv6 address and the run of zeros \<open>net.IP.String\<close> elides.\<close>

definition ipv6_group :: "u8 list \<Rightarrow> nat \<Rightarrow> nat" where
  "ipv6_group ip i = 256 * unat (ip ! (2 * i)) + unat (ip ! (2 * i + 1))"

fun zero_run :: "nat list \<Rightarrow> nat" where
  "zero_run [] = 0"
| "zero_run (g # gs) = (if g = 0 then Suc (zero_run gs) else 0)"

fun best_run :: "nat \<Rightarrow> nat list \<Rightarrow> nat \<times> nat \<Rightarrow> nat \<times> nat" where
  "best_run i [] best = best"
| "best_run i (g # gs) (start, len) =
     (let l = zero_run (g # gs)
      in best_run (Suc i) gs (if 2 \<le> l \<and> len < l then (i, l) else (start, len)))"

definition show_ipv6 :: "u8 list \<Rightarrow> string" where
  "show_ipv6 ip =
     (let gs = map (ipv6_group ip) [0..<8]; (start, len) = best_run 0 gs (0, 0) in
      if len = 0 then join '':'' (map show_hex gs)
      else join '':'' (map show_hex (take start gs)) @ ''::'' @
           join '':'' (map show_hex (drop (start + len) gs)))"

definition show_ip :: "u8 list \<Rightarrow> string" where
  "show_ip ip = (case to4 ip of
     [] \<Rightarrow> show_ipv6 ip
   | v4 \<Rightarrow> join ''.'' (map (\<lambda>b. show_nat (unat b)) v4))"

definition destination_ip :: "u16 \<Rightarrow> u8 list \<Rightarrow> string" where
  "destination_ip family raw =
     (if family = 2 then show_ip (take 4 raw) else if family = 10 then show_ip raw else [])"

definition comm_string :: "u8 list \<Rightarrow> string" where
  "comm_string comm = map (\<lambda>b. char_of (unat b)) (takeWhile (\<lambda>b. b \<noteq> 0) comm)"

section \<open>Handling one record\<close>

record app =
  app_cache :: cache
  app_containerID :: u64
  app_noDNS :: bool

text \<open>The arguments of the one \<open>fmt.Printf\<close> of a connection.\<close>

record connect_line =
  cl_timestamp_ns :: u64
  cl_pid :: u32
  cl_tid :: u32
  cl_uid :: u32
  cl_comm :: string
  cl_protocol :: string
  cl_destination :: string
  cl_port :: u16
  cl_hostnames :: "string list"

definition connect_text :: "(u64 \<Rightarrow> string) \<Rightarrow> connect_line \<Rightarrow> string" where
  "connect_text wall l =
     ''CONNECT time='' @ wall (cl_timestamp_ns l) @
     '' timestamp_ns='' @ show_nat (unat (cl_timestamp_ns l)) @
     '' host_pid='' @ show_nat (unat (cl_pid l)) @
     '' tid='' @ show_nat (unat (cl_tid l)) @
     '' uid='' @ show_nat (unat (cl_uid l)) @
     '' comm='' @ cl_comm l @
     '' protocol='' @ cl_protocol l @
     '' dst='' @ cl_destination l @ '':'' @ show_nat (unat (cl_port l)) @
     '' hostnames='' @ join '','' (cl_hostnames l) @ [char_of (10 :: nat)]"

definition print_connection :: "app \<Rightarrow> connectionEvent \<Rightarrow> app \<times> connect_line option" where
  "print_connection app event =
     (let destination = destination_ip (Family event) (Destination event) in
      if destination = [] then (app, None)
      else
        let c = cache_prune (app_cache app) (TimestampNS event);
            entry = cache_find c (app_containerID app) (int (unat (Family event))) (Destination event);
            protocol = (if Protocol event = 6 then ''tcp'' else ''udp'');
            hostnames = (case entry of None \<Rightarrow> [] | Some e \<Rightarrow> map nm_value (en_names e))
        in (app\<lparr>app_cache := c\<rparr>, Some \<lparr>
              cl_timestamp_ns = TimestampNS event,
              cl_pid = PID event,
              cl_tid = TID event,
              cl_uid = UID event,
              cl_comm = comm_string (Comm event),
              cl_protocol = protocol,
              cl_destination = destination,
              cl_port = DestinationPort event,
              cl_hostnames = hostnames\<rparr>))"

definition dns_response :: "u8 list \<Rightarrow> bool" where
  "dns_response message \<longleftrightarrow> length message \<ge> 3 \<and> message ! 2 AND 0x80 \<noteq> 0"

definition handle_event ::
  "unpacker \<Rightarrow> (string \<Rightarrow> string \<Rightarrow> bool) \<Rightarrow> app \<Rightarrow> u8 list \<Rightarrow> app \<times> connect_line option" where
  "handle_event unpack uf app data =
     (if length data < 4 then (app, None)
      else
        let kind = word_le (take 4 data) :: u32 in
        if kind = 2 then
          (if app_noDNS app then (app, None)
           else case read_dns_packet_event data of
               None \<Rightarrow> (app, None)
             | Some event \<Rightarrow>
                 if DCapturedLen event > of_nat (length (DPayload event))
                    \<or> DCapturedLen event \<noteq> DMessageLen event
                 then (app, None)
                 else
                   let message = take (unat (DCapturedLen event)) (DPayload event) in
                   if \<not> dns_response message then (app, None)
                   else (app\<lparr>app_cache := fst (parse_response unpack uf (app_cache app)
                           (app_containerID app) message (DTimestampNS event))\<rparr>, None))
        else if kind = 1 then
          (case read_connection_event data of
             None \<Rightarrow> (app, None)
           | Some event \<Rightarrow> print_connection app event)
        else (app, None))"

section \<open>The polling loop\<close>

datatype read_result = ReadOk "u8 list" | ReadDeadline | ReadClosed | ReadFailed string

datatype poll_error = PollFailed string | CgroupGone

text \<open>
  One iteration: \<open>Inl\<close> leaves the loop with nil or an error, \<open>Inr\<close> goes on with the new state,
  the new \<open>lastMaintenance\<close> and what was printed. \<open>verify\<close> is the outcome of
  \<open>verifyCgroupIdentity\<close>, consulted only after maintenance.
\<close>

definition poll_iteration ::
  "unpacker \<Rightarrow> (string \<Rightarrow> string \<Rightarrow> bool) \<Rightarrow> app \<Rightarrow> u64 \<Rightarrow> bool \<Rightarrow> read_result \<Rightarrow> u64 \<Rightarrow> bool \<Rightarrow>
     (poll_error option \<times> app \<times> connect_line option) + (app \<times> u64 \<times> connect_line option)" where
  "poll_iteration unpack uf app lastMaintenance signal r now verify =
     (if signal then Inl (None, app, None)
      else
        case (case r of
            ReadOk data \<Rightarrow> Inr (handle_event unpack uf app data)
          | ReadDeadline \<Rightarrow> Inr (app, None)
          | ReadClosed \<Rightarrow> Inr (app, None)
          | ReadFailed e \<Rightarrow> Inl (PollFailed e)) of
          Inl e \<Rightarrow> Inl (Some e, app, None)
        | Inr (app, out) \<Rightarrow>
            if now - lastMaintenance < 30000000000 then Inr (app, lastMaintenance, out)
            else
              let app = app\<lparr>app_cache := cache_prune (app_cache app) now\<rparr> in
              if \<not> verify then Inl (Some CgroupGone, app, out)
              else Inr (app, now, out))"

section \<open>Shutdown counters\<close>

definition counter_names :: "string list" where
  "counter_names = [''ringbuf_fail'', ''malformed_l3'', ''malformed_ipv4'', ''fragmented_ipv4'',
     ''unsupported_ipv6'', ''malformed_udp'', ''dns_too_short'', ''dns_capture_truncated'',
     ''dns_tcp_seen'']"

text \<open>\<open>counters.Lookup\<close> yields one value per CPU, or an error.\<close>

definition counter_total :: "u64 list option \<Rightarrow> u64" where
  "counter_total values = (case values of None \<Rightarrow> 0 | Some vs \<Rightarrow> foldl (+) 0 vs)"

definition print_counters :: "(nat \<Rightarrow> u64 list option) \<Rightarrow> (string \<times> u64) list" where
  "print_counters lookup =
     map (\<lambda>(key, name). (name, counter_total (lookup key))) (enumerate 0 counter_names)"

end
