(* ===== verification/NetmonBpf.thy ===== *)
theory NetmonBpf
  imports NetmonEvents
begin

text \<open>
  The eBPF programs of src/src/netmon-go/bpf/netmon.bpf.c. The state is what the two maps hold:
  the records submitted to the ring buffer \<open>events\<close>, oldest first, and the per-CPU array
  \<open>counters\<close>. One run of a program is a function from that state to the next; what the kernel
  helpers return during the run is the record \<open>bpf_env\<close> (clock, current task, the outcome of
  \<open>bpf_ringbuf_reserve\<close>) and, for packets, the function \<open>bpf_skb_load_bytes\<close>.
\<close>

section \<open>Maps, helpers and contexts\<close>

definition IPPROTO_TCP :: nat where "IPPROTO_TCP = 6"
definition IPPROTO_UDP :: nat where "IPPROTO_UDP = 17"
definition AF_INET :: nat where "AF_INET = 2"
definition AF_INET6 :: nat where "AF_INET6 = 10"
definition DNS_MIN_LEN :: nat where "DNS_MIN_LEN = 12"

lemmas proto_defs = IPPROTO_TCP_def IPPROTO_UDP_def AF_INET_def AF_INET6_def DNS_MIN_LEN_def

record kstate =
  ks_events :: "u8 list list"
  ks_counters :: "nat \<Rightarrow> nat \<Rightarrow> u64"

text \<open>
  \<open>env_reserve n\<close> is \<open>bpf_ringbuf_reserve(&events, n, 0)\<close>: no slot, or the memory of the slot
  with whatever it held before.
\<close>

record bpf_env =
  env_cpu :: nat
  env_pid_tgid :: u64
  env_ktime_ns :: u64
  env_cgroup_id :: u64
  env_uid_gid :: u64
  env_comm :: "u8 list"
  env_reserve :: "nat \<Rightarrow> u8 list option"

text \<open>What the helpers are documented to return: a full comm buffer, a slot of the asked size.\<close>

definition helpers_ok :: "bpf_env \<Rightarrow> bool" where
  "helpers_ok env \<longleftrightarrow> length (env_comm env) = TASK_COMM_LEN \<and>
     (\<forall>n m. env_reserve env n = Some m \<longrightarrow> length m = n)"

record bpf_sock_addr =
  sa_user_family :: u32
  sa_user_ip4 :: u32
  sa_user_ip6 :: "u32 list"
  sa_user_port :: u32
  sa_family :: u32
  sa_type :: u32
  sa_protocol :: u32
  sa_msg_src_ip4 :: u32
  sa_msg_src_ip6 :: "u32 list"
  sa_sk :: u64

definition counters_lookup :: "bpf_env \<Rightarrow> nat \<Rightarrow> kstate \<Rightarrow> u64 option" where
  "counters_lookup env key s =
     (if key < counter_num CNT_MAX then Some (ks_counters s (env_cpu env) key) else None)"

definition counters_store :: "bpf_env \<Rightarrow> nat \<Rightarrow> u64 \<Rightarrow> kstate \<Rightarrow> kstate" where
  "counters_store env key v s =
     s\<lparr>ks_counters := (ks_counters s)(env_cpu env := (ks_counters s (env_cpu env))(key := v))\<rparr>"

definition count :: "bpf_env \<Rightarrow> counter_id \<Rightarrow> kstate \<Rightarrow> kstate" where
  "count env key s = (case counters_lookup env (counter_num key) s of
     None \<Rightarrow> s
   | Some v \<Rightarrow> counters_store env (counter_num key) (v + 1) s)"

definition ringbuf_submit :: "u8 list \<Rightarrow> kstate \<Rightarrow> kstate" where
  "ringbuf_submit m s = s\<lparr>ks_events := ks_events s @ [m]\<rparr>"

definition bpf_ntohl :: "u32 \<Rightarrow> u32" where
  "bpf_ntohl w = word_le (rev (bytes_le 4 w))"

definition bpf_ntohs :: "u16 \<Rightarrow> u16" where
  "bpf_ntohs w = word_le (rev (bytes_le 2 w))"

section \<open>The socket-address programs\<close>

definition zero_connection_event :: connection_event where
  "zero_connection_event = \<lparr>
     ce_kind = 0, ce_pad = 0, ce_timestamp_ns = 0, ce_cgroup_id = 0, ce_pid = 0, ce_tid = 0,
     ce_uid = 0, ce_family = 0, ce_protocol = 0, ce_pad2 = 0, ce_destination_port = 0,
     ce_pad3 = 0, ce_destination = replicate 16 0, ce_comm = replicate TASK_COMM_LEN 0\<rparr>"

text \<open>A 32-bit store into the destination array.\<close>

definition store32 :: "nat \<Rightarrow> u32 \<Rightarrow> u8 list \<Rightarrow> u8 list" where
  "store32 off w bs = take off bs @ bytes_le 4 w @ drop (off + 4) bs"

definition emit_connect :: "bpf_env \<Rightarrow> bpf_sock_addr \<Rightarrow> u8 \<Rightarrow> u8 \<Rightarrow> kstate \<Rightarrow> kstate \<times> int" where
  "emit_connect env ctx proto family s =
     (case env_reserve env (size_of struct_connection_event) of
        None \<Rightarrow> (count env CNT_RINGBUF_FAIL s, 1)
      | Some m \<Rightarrow>
          let e = zero_connection_event;
              pt = env_pid_tgid env;
              e = e\<lparr>ce_kind := event_kind_num EVENT_CONNECT,
                    ce_timestamp_ns := env_ktime_ns env,
                    ce_cgroup_id := env_cgroup_id env,
                    ce_pid := ucast (drop_bit 32 pt),
                    ce_tid := ucast pt,
                    ce_uid := ucast (env_uid_gid env),
                    ce_family := ucast family,
                    ce_protocol := proto,
                    ce_destination_port := ucast (drop_bit 16 (bpf_ntohl (sa_user_port ctx)))\<rparr>;
              d = ce_destination e;
              d = (if unat family = AF_INET then store32 0 (sa_user_ip4 ctx) d
                   else store32 12 (sa_user_ip6 ctx ! 3) (store32 8 (sa_user_ip6 ctx ! 2)
                         (store32 4 (sa_user_ip6 ctx ! 1) (store32 0 (sa_user_ip6 ctx ! 0) d))));
              e = e\<lparr>ce_destination := d, ce_comm := env_comm env\<rparr>
          in (ringbuf_submit (connection_image e) s, 1))"

definition connect4 :: "bpf_env \<Rightarrow> bpf_sock_addr \<Rightarrow> kstate \<Rightarrow> kstate \<times> int" where
  "connect4 env ctx s =
     (if unat (sa_protocol ctx) \<noteq> IPPROTO_TCP \<and> unat (sa_protocol ctx) \<noteq> IPPROTO_UDP then (s, 1)
      else emit_connect env ctx (ucast (sa_protocol ctx)) (of_nat AF_INET) s)"

definition connect6 :: "bpf_env \<Rightarrow> bpf_sock_addr \<Rightarrow> kstate \<Rightarrow> kstate \<times> int" where
  "connect6 env ctx s =
     (if unat (sa_protocol ctx) \<noteq> IPPROTO_TCP \<and> unat (sa_protocol ctx) \<noteq> IPPROTO_UDP then (s, 1)
      else emit_connect env ctx (ucast (sa_protocol ctx)) (of_nat AF_INET6) s)"

definition sendmsg4 :: "bpf_env \<Rightarrow> bpf_sock_addr \<Rightarrow> kstate \<Rightarrow> kstate \<times> int" where
  "sendmsg4 env ctx s = emit_connect env ctx (of_nat IPPROTO_UDP) (of_nat AF_INET) s"

definition sendmsg6 :: "bpf_env \<Rightarrow> bpf_sock_addr \<Rightarrow> kstate \<Rightarrow> kstate \<times> int" where
  "sendmsg6 env ctx s = emit_connect env ctx (of_nat IPPROTO_UDP) (of_nat AF_INET6) s"

section \<open>The packet programs\<close>

text \<open>
  \<open>load off len\<close> is \<open>bpf_skb_load_bytes(skb, off, dst, len)\<close>: \<open>None\<close> for a non-zero return,
  else the bytes copied to \<open>dst\<close>.
\<close>

type_synonym loader = "u32 \<Rightarrow> u32 \<Rightarrow> u8 list option"

definition detect_dns_tcp :: "loader \<Rightarrow> bpf_env \<Rightarrow> u32 \<Rightarrow> kstate \<Rightarrow> kstate" where
  "detect_dns_tcp load env off s =
     (case load off 4 of
        None \<Rightarrow> s
      | Some ports \<Rightarrow>
          let sport = word_le (subrange 0 2 ports); dport = word_le (subrange 2 2 ports)
          in if bpf_ntohs sport = 53 \<or> bpf_ntohs dport = 53 then count env CNT_DNS_TCP_SEEN s
             else s)"

text \<open>
  \<open>dns_packet\<close> up to the transport header: \<open>Inl\<close> is an early \<open>return 0\<close> with the state it
  leaves, \<open>Inr\<close> the offset of the UDP header and the address family.
\<close>

definition dns_packet_l3 :: "loader \<Rightarrow> bpf_env \<Rightarrow> kstate \<Rightarrow> kstate + u32 \<times> u8" where
  "dns_packet_l3 load env s =
     (let off = 0 in
      case load 0 1 of
        None \<Rightarrow> Inl (count env CNT_BAD_L3 s)
      | Some b \<Rightarrow>
        let first = b ! 0 in
        if drop_bit 4 first = 4 then
          (case load off 20 of
             None \<Rightarrow> Inl (count env CNT_BAD_IPV4 s)
           | Some ip4 \<Rightarrow>
             let ihl = ucast (ip4 ! 0 AND 15) * 4 :: u32 in
             if drop_bit 4 (ip4 ! 0) \<noteq> 4 \<or> ihl < 20 \<or> ihl > 60
             then Inl (count env CNT_BAD_IPV4 s)
             else
               let frag = word_le (subrange 6 2 ip4) in
               if bpf_ntohs frag AND 0x3fff \<noteq> 0 then Inl (count env CNT_IPV4_FRAGMENT s)
               else if unat (ip4 ! 9) = IPPROTO_TCP then Inl (detect_dns_tcp load env (off + ihl) s)
               else if unat (ip4 ! 9) \<noteq> IPPROTO_UDP then Inl s
               else Inr (off + ihl, of_nat AF_INET))
        else if drop_bit 4 first = 6 then
          (case load off 40 of
             None \<Rightarrow> Inl (count env CNT_IPV6_EXT s)
           | Some ip6 \<Rightarrow>
             if drop_bit 4 (ip6 ! 0) \<noteq> 6 then Inl (count env CNT_IPV6_EXT s)
             else if unat (ip6 ! 6) = IPPROTO_TCP then Inl (detect_dns_tcp load env (off + 40) s)
             else if unat (ip6 ! 6) \<noteq> IPPROTO_UDP then Inl (count env CNT_IPV6_EXT s)
             else Inr (off + 40, of_nat AF_INET6))
        else Inl (count env CNT_BAD_L3 s))"

text \<open>The block that fills the reserved slot; a failed payload load discards it.\<close>

definition dns_packet_emit ::
  "loader \<Rightarrow> bpf_env \<Rightarrow> u32 \<Rightarrow> u8 \<Rightarrow> u32 \<Rightarrow> u8 \<Rightarrow> u32 \<Rightarrow> u32 \<Rightarrow> kstate \<Rightarrow> kstate" where
  "dns_packet_emit load env ifindex direction off family dnslen cap s =
     (case env_reserve env (size_of struct_dns_packet_event) of
        None \<Rightarrow> count env CNT_RINGBUF_FAIL s
      | Some m \<Rightarrow>
          let e = dns_packet_of_memory m;
              e = e\<lparr>dp_kind := event_kind_num EVENT_DNS_PACKET,
                    dp_ifindex := ifindex,
                    dp_timestamp_ns := env_ktime_ns env,
                    dp_direction := direction,
                    dp_family := family,
                    dp_protocol := of_nat IPPROTO_UDP,
                    dp_message_len := ucast dnslen,
                    dp_captured_len := ucast cap\<rparr>
          in case load (off + 8) cap of
               None \<Rightarrow> count env CNT_BAD_UDP s
             | Some p \<Rightarrow>
                 ringbuf_submit
                   (dns_packet_image (e\<lparr>dp_payload := p @ drop (length p) (dp_payload e)\<rparr>)) s)"

definition dns_packet ::
  "loader \<Rightarrow> bpf_env \<Rightarrow> u32 \<Rightarrow> u8 \<Rightarrow> kstate \<Rightarrow> kstate" where
  "dns_packet load env ifindex direction s =
     (case dns_packet_l3 load env s of
        Inl s' \<Rightarrow> s'
      | Inr (off, family) \<Rightarrow>
        case load off 8 of
          None \<Rightarrow> count env CNT_BAD_UDP s
        | Some udp \<Rightarrow>
          let sport = word_le (subrange 0 2 udp); dport = word_le (subrange 2 2 udp);
              ulen = word_le (subrange 4 2 udp) :: u16 in
          if bpf_ntohs sport \<noteq> 53 \<and> bpf_ntohs dport \<noteq> 53 then s
          else
            let ulen = bpf_ntohs ulen in
            if ulen < 8 then count env CNT_BAD_UDP s
            else
              let dnslen = ucast ulen - 8 :: u32 in
              if dnslen < of_nat DNS_MIN_LEN then count env CNT_DNS_SHORT s
              else
                let cap = (if dnslen > of_nat DNS_CAPTURE_MAX then of_nat DNS_CAPTURE_MAX else dnslen);
                    s = (if dnslen > of_nat DNS_CAPTURE_MAX then count env CNT_DNS_TRUNCATED s else s)
                in if cap < of_nat DNS_MIN_LEN \<or> cap > of_nat DNS_CAPTURE_MAX then s
                   else dns_packet_emit load env ifindex direction off family dnslen cap s)"

definition cgroup_ingress :: "loader \<Rightarrow> bpf_env \<Rightarrow> u32 \<Rightarrow> kstate \<Rightarrow> kstate \<times> int" where
  "cgroup_ingress load env ifindex s =
     (dns_packet load env ifindex (packet_direction_num DIR_INGRESS) s, 1)"

definition cgroup_egress :: "loader \<Rightarrow> bpf_env \<Rightarrow> u32 \<Rightarrow> kstate \<Rightarrow> kstate \<times> int" where
  "cgroup_egress load env ifindex s =
     (dns_packet load env ifindex (packet_direction_num DIR_EGRESS) s, 1)"

end
