(* ===== verification/NetmonBpfSpec.thy ===== *)
theory NetmonBpfSpec
  imports NetmonBpf
begin

text \<open>
  What the BPF programs promise. The packet program is compared with a reference that reads the
  packet as a list of bytes in network order, with natural-number lengths and no loads, byte
  swaps or machine words; the socket-address programs are characterised field by field.
\<close>

section \<open>The reference classification of a packet\<close>

text \<open>
  \<open>loads_from pkt load\<close> states what \<open>bpf_skb_load_bytes\<close> is documented to do: it copies the
  range when it lies in the packet and fails otherwise.
\<close>

definition loads_from :: "u8 list \<Rightarrow> loader \<Rightarrow> bool" where
  "loads_from pkt load \<longleftrightarrow> (\<forall>off n. load off n =
     (if unat off + unat n \<le> length pkt then Some (subrange (unat off) (unat n) pkt) else None))"

definition packet_loader :: "u8 list \<Rightarrow> loader" where
  "packet_loader pkt off n =
     (if unat off + unat n \<le> length pkt then Some (subrange (unat off) (unat n) pkt) else None)"

definition be16_at :: "u8 list \<Rightarrow> nat \<Rightarrow> nat" where
  "be16_at pkt off = 256 * unat (pkt ! off) + unat (pkt ! Suc off)"

definition high_nibble :: "u8 \<Rightarrow> nat" where "high_nibble b = unat b div 16"
definition low_nibble :: "u8 \<Rightarrow> nat" where "low_nibble b = unat b mod 16"

datatype verdict =
    Pass
  | Bump counter_id
  | Deliver (fam: nat) (udp_off: nat) (dns_len: nat)

definition dns_port :: "u8 list \<Rightarrow> nat \<Rightarrow> bool" where
  "dns_port pkt off \<longleftrightarrow> be16_at pkt off = 53 \<or> be16_at pkt (off + 2) = 53"

definition classify_tcp :: "u8 list \<Rightarrow> nat \<Rightarrow> verdict" where
  "classify_tcp pkt off =
     (if off + 4 \<le> length pkt \<and> dns_port pkt off then Bump CNT_DNS_TCP_SEEN else Pass)"

definition classify_udp :: "u8 list \<Rightarrow> nat \<Rightarrow> nat \<Rightarrow> verdict" where
  "classify_udp pkt af off =
     (if length pkt < off + 8 then Bump CNT_BAD_UDP
      else if \<not> dns_port pkt off then Pass
      else if be16_at pkt (off + 4) < 8 then Bump CNT_BAD_UDP
      else if be16_at pkt (off + 4) < 8 + DNS_MIN_LEN then Bump CNT_DNS_SHORT
      else Deliver af off (be16_at pkt (off + 4) - 8))"

definition classify_ipv4 :: "u8 list \<Rightarrow> verdict" where
  "classify_ipv4 pkt =
     (if length pkt < 20 \<or> low_nibble (pkt ! 0) < 5 then Bump CNT_BAD_IPV4
      else if be16_at pkt 6 mod 2 ^ 14 \<noteq> 0 then Bump CNT_IPV4_FRAGMENT
      else if unat (pkt ! 9) = IPPROTO_TCP then classify_tcp pkt (4 * low_nibble (pkt ! 0))
      else if unat (pkt ! 9) = IPPROTO_UDP
        then classify_udp pkt AF_INET (4 * low_nibble (pkt ! 0))
      else Pass)"

definition classify_ipv6 :: "u8 list \<Rightarrow> verdict" where
  "classify_ipv6 pkt =
     (if length pkt < 40 then Bump CNT_IPV6_EXT
      else if unat (pkt ! 6) = IPPROTO_TCP then classify_tcp pkt 40
      else if unat (pkt ! 6) = IPPROTO_UDP then classify_udp pkt AF_INET6 40
      else Bump CNT_IPV6_EXT)"

definition classify :: "u8 list \<Rightarrow> verdict" where
  "classify pkt =
     (if pkt = [] then Bump CNT_BAD_L3
      else if high_nibble (pkt ! 0) = 4 then classify_ipv4 pkt
      else if high_nibble (pkt ! 0) = 6 then classify_ipv6 pkt
      else Bump CNT_BAD_L3)"

text \<open>The record of a delivered DNS message; \<open>m\<close> is the memory of the reserved slot.\<close>

definition dns_record ::
  "bpf_env \<Rightarrow> u32 \<Rightarrow> u8 \<Rightarrow> u8 list \<Rightarrow> nat \<Rightarrow> nat \<Rightarrow> nat \<Rightarrow> u8 list \<Rightarrow> dns_packet_event" where
  "dns_record env ifindex direction m af off n pkt =
     (let cap = min n DNS_CAPTURE_MAX in \<lparr>
        dp_kind = event_kind_num EVENT_DNS_PACKET,
        dp_ifindex = ifindex,
        dp_timestamp_ns = env_ktime_ns env,
        dp_direction = direction,
        dp_family = of_nat af,
        dp_protocol = of_nat IPPROTO_UDP,
        dp_pad = m ! 19,
        dp_message_len = of_nat n,
        dp_captured_len = of_nat cap,
        dp_payload = subrange (off + 8) cap pkt @ drop (24 + cap) m\<rparr>)"

fun obey :: "bpf_env \<Rightarrow> u32 \<Rightarrow> u8 \<Rightarrow> u8 list \<Rightarrow> verdict \<Rightarrow> kstate \<Rightarrow> kstate" where
  "obey env ifindex direction pkt Pass s = s"
| "obey env ifindex direction pkt (Bump c) s = count env c s"
| "obey env ifindex direction pkt (Deliver af off n) s =
     (let s = (if n > DNS_CAPTURE_MAX then count env CNT_DNS_TRUNCATED s else s) in
      case env_reserve env 1256 of
        None \<Rightarrow> count env CNT_RINGBUF_FAIL s
      | Some m \<Rightarrow>
          if length pkt < off + 8 + min n DNS_CAPTURE_MAX then count env CNT_BAD_UDP s
          else ringbuf_submit
            (dns_packet_image (dns_record env ifindex direction m af off n pkt)) s)"

section \<open>Reading the machine words\<close>

lemma loads_from_packet_loader: "loads_from pkt (packet_loader pkt)"
  by (simp add: loads_from_def packet_loader_def)

lemma loadsD:
  "loads_from pkt load \<Longrightarrow> load off n =
     (if unat off + unat n \<le> length pkt then Some (subrange (unat off) (unat n) pkt) else None)"
  by (simp add: loads_from_def)

lemma subrange_two:
  "Suc i < length xs \<Longrightarrow> subrange i 2 xs = [xs ! i, xs ! Suc i]"
  by (rule nth_equalityI) (auto simp: less_2_cases_iff subrange_def)

lemma bpf_ntohs_le: "bpf_ntohs (word_le [a, b]) = word_be [a, b]"
  by (simp add: bpf_ntohs_def bytes_le_word_le word_be_def)

lemma be16_word:
  "Suc off < length pkt \<Longrightarrow> unat (bpf_ntohs (word_le (subrange off 2 pkt))) = be16_at pkt off"
  by (simp add: subrange_two bpf_ntohs_le unat_word_be16 be16_at_def)

lemma be16_at_less: "be16_at pkt off < 65536"
  using unat_u8_less [of "pkt ! off"] unat_u8_less [of "pkt ! Suc off"]
  unfolding be16_at_def by linarith

lemma u16_eq_iff: "(w :: u16) = 53 \<longleftrightarrow> unat w = 53"
  by (simp add: word_unat_eq_iff)

lemma high_nibble_iff:
  "drop_bit 4 (b :: u8) = 4 \<longleftrightarrow> high_nibble b = 4"
  "drop_bit 4 (b :: u8) = 6 \<longleftrightarrow> high_nibble b = 6"
  by (simp_all add: word_unat_eq_iff high_nibble_def drop_bit_eq_div unat_div_distrib)

lemma fragment_iff: "(w :: u16) AND 0x3fff \<noteq> 0 \<longleftrightarrow> unat w mod 2 ^ 14 \<noteq> 0"
proof -
  have "w AND 0x3fff = take_bit 14 w"
    by (simp add: take_bit_eq_mask mask_eq_exp_minus_1)
  moreover have "unat (take_bit 14 w) = unat w mod 2 ^ 14"
    by (simp add: take_bit_eq_mod unat_mod_distrib)
  ultimately show ?thesis by (simp add: word_unat_eq_iff)
qed

lemma ihl_unat: "unat (ucast (b AND 15 :: u8) * 4 :: u32) = 4 * low_nibble b"
proof -
  have "b AND 15 = take_bit 4 b"
    by (simp add: take_bit_eq_mask mask_eq_exp_minus_1)
  then have n: "unat (b AND 15) = low_nibble b"
    by (simp add: take_bit_eq_mod unat_mod_distrib low_nibble_def)
  have "low_nibble b < 16" by (simp add: low_nibble_def)
  moreover have "unat (ucast (b AND 15) :: u32) = low_nibble b"
    using n \<open>low_nibble b < 16\<close> by (simp add: unsigned_ucast_eq take_bit_nat_eq_self)
  ultimately show ?thesis by (simp add: unat_word_ariths)
qed

lemma low_nibble_less: "low_nibble b < 16"
  by (simp add: low_nibble_def)

section \<open>The packet program refines the reference\<close>

lemma subrange_nth: "off + n \<le> length xs \<Longrightarrow> i < n \<Longrightarrow> subrange off n xs ! i = xs ! (off + i)"
  by simp

lemma ports_word:
  assumes "off + 4 \<le> length pkt" and "4 \<le> n" and "off + n \<le> length pkt"
  shows "bpf_ntohs (word_le (subrange 0 2 (subrange off n pkt))) = 53 \<longleftrightarrow> be16_at pkt off = 53"
    and "bpf_ntohs (word_le (subrange 2 2 (subrange off n pkt))) = 53 \<longleftrightarrow> be16_at pkt (off + 2) = 53"
  using assms by (simp_all add: subrange_subrange be16_word u16_eq_iff)

lemma detect_dns_tcp_refines:
  assumes "loads_from pkt load"
  shows "detect_dns_tcp load env off s = obey env ifindex direction pkt (classify_tcp pkt (unat off)) s"
  using loadsD [OF assms, of off 4]
  by (simp add: detect_dns_tcp_def classify_tcp_def ports_word dns_port_def Let_def)

lemma of_nat_AF: "unat (of_nat AF_INET :: u8) = AF_INET" "unat (of_nat AF_INET6 :: u8) = AF_INET6"
  by (simp_all add: AF_INET_def AF_INET6_def)

definition l3_matches :: "bpf_env \<Rightarrow> u32 \<Rightarrow> u8 \<Rightarrow> u8 list \<Rightarrow> kstate \<Rightarrow> kstate + u32 \<times> u8 \<Rightarrow> verdict \<Rightarrow> bool"
where
  "l3_matches env ifindex direction pkt s r v = (case r of
     Inl s' \<Rightarrow> s' = obey env ifindex direction pkt v s
   | Inr (off, af) \<Rightarrow> v = classify_udp pkt (unat af) (unat off) \<and> unat off \<le> 60)"

lemma l3_ipv4:
  assumes ld: "loads_from pkt load" and v: "pkt \<noteq> []" "high_nibble (pkt ! 0) = 4"
  shows "l3_matches env ifindex direction pkt s (dns_packet_l3 load env s) (classify_ipv4 pkt)"
proof -
  have first: "load 0 1 = Some (subrange 0 1 pkt)" "subrange 0 1 pkt ! 0 = pkt ! 0"
    using v loadsD [OF ld, of 0 1] by (simp_all add: Suc_leI)
  show ?thesis
  proof (cases "20 \<le> length pkt")
    case False
    then have "load 0 20 = None" using loadsD [OF ld, of 0 20] by simp
    with first v False show ?thesis
      by (simp add: dns_packet_l3_def high_nibble_iff classify_ipv4_def l3_matches_def)
  next
    case True
    let ?h = "subrange 0 20 pkt"
    let ?ihl = "ucast (pkt ! 0 AND 15) * 4 :: u32"
    have hdr: "load 0 20 = Some ?h" using True loadsD [OF ld, of 0 20] by simp
    have nth: "?h ! 0 = pkt ! 0" "?h ! 9 = pkt ! 9" using True by simp_all
    have fr: "unat (bpf_ntohs (word_le (subrange 6 2 ?h))) = be16_at pkt 6"
      using True by (simp add: subrange_subrange be16_word)
    have ihl: "unat ?ihl = 4 * low_nibble (pkt ! 0)" by (rule ihl_unat)
    have lo: "?ihl < 20 \<longleftrightarrow> low_nibble (pkt ! 0) < 5" and hi: "\<not> ?ihl > 60"
      using low_nibble_less [of "pkt ! 0"] by (simp_all add: word_less_nat_alt ihl del: unat_mult_lem)
    show ?thesis
      using True v lo hi low_nibble_less [of "pkt ! 0"]
      by (simp add: dns_packet_l3_def first hdr nth high_nibble_iff fragment_iff fr classify_ipv4_def
          l3_matches_def ihl of_nat_AF detect_dns_tcp_refines [OF ld, of _ _ _ ifindex direction]
          Let_def del: unat_mult_lem)
  qed
qed

lemma l3_ipv6:
  assumes ld: "loads_from pkt load" and v: "pkt \<noteq> []" "high_nibble (pkt ! 0) = 6"
  shows "l3_matches env ifindex direction pkt s (dns_packet_l3 load env s) (classify_ipv6 pkt)"
proof -
  have first: "load 0 1 = Some (subrange 0 1 pkt)" "subrange 0 1 pkt ! 0 = pkt ! 0"
    using v loadsD [OF ld, of 0 1] by (simp_all add: Suc_leI)
  show ?thesis
  proof (cases "40 \<le> length pkt")
    case False
    then have "load 0 40 = None" using loadsD [OF ld, of 0 40] by simp
    with first v False show ?thesis
      by (simp add: dns_packet_l3_def high_nibble_iff classify_ipv6_def l3_matches_def)
  next
    case True
    let ?h = "subrange 0 40 pkt"
    have hdr: "load 0 40 = Some ?h" using True loadsD [OF ld, of 0 40] by simp
    have nth: "?h ! 0 = pkt ! 0" "?h ! 6 = pkt ! 6" using True by simp_all
    show ?thesis
      using True v
      by (simp add: dns_packet_l3_def first hdr nth high_nibble_iff classify_ipv6_def
          l3_matches_def of_nat_AF detect_dns_tcp_refines [OF ld, of _ _ _ ifindex direction] Let_def)
  qed
qed

lemma l3_refines:
  assumes ld: "loads_from pkt load"
  shows "l3_matches env ifindex direction pkt s (dns_packet_l3 load env s) (classify pkt)"
proof (cases "pkt = []")
  case True
  then have "load 0 1 = None" using loadsD [OF ld, of 0 1] by simp
  with True show ?thesis by (simp add: dns_packet_l3_def classify_def l3_matches_def)
next
  case False
  then have first: "load 0 1 = Some (subrange 0 1 pkt)" "subrange 0 1 pkt ! 0 = pkt ! 0"
    using loadsD [OF ld, of 0 1] by (simp_all add: Suc_leI)
  consider "high_nibble (pkt ! 0) = 4" | "high_nibble (pkt ! 0) = 6"
    | "high_nibble (pkt ! 0) \<noteq> 4" "high_nibble (pkt ! 0) \<noteq> 6" by blast
  then show ?thesis
  proof cases
    case 1
    then show ?thesis using l3_ipv4 [OF ld False 1] by (simp add: classify_def False)
  next
    case 2
    then show ?thesis using l3_ipv6 [OF ld False 2] by (simp add: classify_def False)
  next
    case 3
    with False first show ?thesis
      by (simp add: dns_packet_l3_def classify_def l3_matches_def high_nibble_iff)
  qed
qed

lemma word_le_single: "(word_le [b] :: u8) = b"
  by (simp add: word_le_Cons)

lemma subrange_one: "i < length xs \<Longrightarrow> subrange i (Suc 0) xs = [xs ! i]"
  by (rule nth_equalityI) (auto simp: subrange_def)

lemma unat_ucast_u16_u32: "unat (ucast (w :: u16) :: u32) = unat w"
proof -
  have "unat w < 2 ^ 16" by (rule order_less_le_trans [OF unsigned_less]) simp
  also have "\<dots> < 2 ^ 32" by simp
  finally show ?thesis by (simp add: unsigned_ucast_eq take_bit_nat_eq_self)
qed

lemma ucast_of_nat_u16: "unat (w :: u32) = n \<Longrightarrow> (ucast w :: u16) = of_nat n"
  by (metis of_nat_unat)

text \<open>The slot after the stores of the block, for a payload that could be loaded.\<close>

lemma dns_record_of_memory:
  assumes m: "length m = 1256" and cap: "unat cap = min n DNS_CAPTURE_MAX" and len: "unat dnslen = n"
    and fit: "off + 8 + min n DNS_CAPTURE_MAX \<le> length pkt"
  shows "(dns_packet_of_memory m)\<lparr>
            dp_kind := event_kind_num EVENT_DNS_PACKET, dp_ifindex := ifindex,
            dp_timestamp_ns := env_ktime_ns env, dp_direction := direction,
            dp_family := of_nat af, dp_protocol := of_nat IPPROTO_UDP,
            dp_message_len := ucast (dnslen :: u32), dp_captured_len := ucast (cap :: u32),
            dp_payload := subrange (off + 8) (unat cap) pkt @
               drop (length (subrange (off + 8) (unat cap) pkt))
                 (dp_payload (dns_packet_of_memory m))\<rparr>
         = dns_record env ifindex direction m af off n pkt"
proof -
  have "length (subrange (off + 8) (unat cap) pkt) = min n DNS_CAPTURE_MAX"
    using fit cap by simp
  moreover have "drop (min n DNS_CAPTURE_MAX) (subrange 24 DNS_CAPTURE_MAX m)
      = drop (24 + min n DNS_CAPTURE_MAX) m"
    using m by (simp add: subrange_def DNS_CAPTURE_MAX_def add.commute)
  ultimately show ?thesis
    using m cap len
    by (simp add: dns_packet_of_memory_def dns_record_def Let_def subrange_one word_le_single
        ucast_of_nat_u16)
qed

lemma dns_packet_emit_refines:
  assumes ld: "loads_from pkt load" and ok: "helpers_ok env"
    and off: "unat off \<le> 60" and len: "unat dnslen = n" and cap: "unat cap = min n DNS_CAPTURE_MAX"
  shows "dns_packet_emit load env ifindex direction off (of_nat af) dnslen cap s =
    (case env_reserve env 1256 of
        None \<Rightarrow> count env CNT_RINGBUF_FAIL s
      | Some m \<Rightarrow>
          if length pkt < unat off + 8 + min n DNS_CAPTURE_MAX then count env CNT_BAD_UDP s
          else ringbuf_submit
            (dns_packet_image (dns_record env ifindex direction m af (unat off) n pkt)) s)"
proof (cases "env_reserve env 1256")
  case None
  then show ?thesis by (simp add: dns_packet_emit_def dns_packet_event_size)
next
  case (Some m)
  then have m: "length m = 1256" using ok by (simp add: helpers_ok_def)
  have "unat (off + 8) = unat off + 8"
    using off by (simp add: unat_word_ariths)
  then have l: "load (off + 8) cap =
     (if unat off + 8 + min n DNS_CAPTURE_MAX \<le> length pkt
      then Some (subrange (unat off + 8) (unat cap) pkt) else None)"
    using loadsD [OF ld, of "off + 8" cap] cap by simp
  show ?thesis
  proof (cases "unat off + 8 + min n DNS_CAPTURE_MAX \<le> length pkt")
    case False
    with Some l show ?thesis
      by (simp add: dns_packet_emit_def dns_packet_event_size Let_def)
  next
    case True
    with Some l dns_record_of_memory
      [OF m cap len True, where ifindex = ifindex and env = env and direction = direction and af = af]
    show ?thesis
      by (simp add: dns_packet_emit_def dns_packet_event_size Let_def)
  qed
qed

lemma dns_packet_refines_classify:
  assumes ld: "loads_from pkt load" and ok: "helpers_ok env"
  shows "dns_packet load env ifindex direction s = obey env ifindex direction pkt (classify pkt) s"
proof (cases "dns_packet_l3 load env s")
  case (Inl s')
  with l3_refines [OF ld, of env ifindex direction s] show ?thesis
    by (simp add: dns_packet_def l3_matches_def)
next
  case (Inr r)
  obtain off af where r: "r = (off, af)" by (cases r)
  with Inr l3_refines [OF ld, of env ifindex direction s]
  have c: "classify pkt = classify_udp pkt (unat af) (unat off)" and off: "unat off \<le> 60"
    by (simp_all add: l3_matches_def)
  have l: "load off 8 = (if unat off + 8 \<le> length pkt then Some (subrange (unat off) 8 pkt) else None)"
    using loadsD [OF ld, of off 8] by simp
  show ?thesis
  proof (cases "unat off + 8 \<le> length pkt")
    case False
    with Inr r c l show ?thesis by (simp add: dns_packet_def classify_udp_def)
  next
    case True
    let ?udp = "subrange (unat off) 8 pkt"
    let ?ulen = "bpf_ntohs (word_le (subrange 4 2 ?udp))"
    let ?n = "be16_at pkt (unat off + 4)"
    have ulen: "unat ?ulen = ?n"
      using True by (simp add: subrange_subrange be16_word)
    show ?thesis
    proof (cases "dns_port pkt (unat off) \<and> 20 \<le> ?n")
      case False
      have "unat (ucast ?ulen - 8 :: u32) = ?n - 8" if "8 \<le> ?n"
        using that ulen by (simp add: unat_sub word_le_nat_alt unat_ucast_u16_u32)
      with False Inr r c l True ulen show ?thesis
        by (auto simp: dns_packet_def classify_udp_def Let_def ports_word dns_port_def
            word_less_nat_alt DNS_MIN_LEN_def)
    next
      case p: True
      let ?dl = "ucast ?ulen - 8 :: u32"
      have dl: "unat ?dl = ?n - 8"
        using p ulen by (simp add: unat_sub word_le_nat_alt unat_ucast_u16_u32)
      define cap where "cap = (if ?dl > of_nat DNS_CAPTURE_MAX then of_nat DNS_CAPTURE_MAX else ?dl)"
      have big: "?dl > of_nat DNS_CAPTURE_MAX \<longleftrightarrow> ?n - 8 > DNS_CAPTURE_MAX"
        by (simp add: word_less_nat_alt dl DNS_CAPTURE_MAX_def)
      have cap: "unat cap = min (?n - 8) DNS_CAPTURE_MAX"
        using big dl by (auto simp: cap_def DNS_CAPTURE_MAX_def)
      have guard: "\<not> (cap < of_nat DNS_MIN_LEN \<or> cap > of_nat DNS_CAPTURE_MAX)"
        using p cap by (auto simp: word_less_nat_alt DNS_MIN_LEN_def DNS_CAPTURE_MAX_def)
      have ports: "\<not> (bpf_ntohs (word_le (subrange 0 2 ?udp)) \<noteq> 53
          \<and> bpf_ntohs (word_le (subrange 2 2 ?udp)) \<noteq> 53)"
        using p True by (simp add: ports_word dns_port_def)
      have u8: "\<not> ?ulen < 8" and d12: "\<not> ?dl < of_nat DNS_MIN_LEN"
        using p ulen dl by (auto simp: word_less_nat_alt DNS_MIN_LEN_def)
      have "dns_packet load env ifindex direction s = dns_packet_emit load env ifindex direction
          off af ?dl cap (if ?dl > of_nat DNS_CAPTURE_MAX then count env CNT_DNS_TRUNCATED s else s)"
        by (simp only: dns_packet_def Inr r sum.case prod.case l True if_True option.case Let_def
            if_not_P [OF ports] if_not_P [OF u8] if_not_P [OF d12] cap_def [symmetric]
            if_not_P [OF guard])
      moreover have "classify pkt = Deliver (unat af) (unat off) (?n - 8)"
        using p c True by (simp add: classify_udp_def DNS_MIN_LEN_def)
      ultimately show ?thesis
        using dns_packet_emit_refines [OF ld ok off dl cap, of ifindex direction "unat af"] big
        by (simp add: Let_def)
    qed
  qed
qed

end
