(* ===== verification/NetmonBpfEvents.thy ===== *)
theory NetmonBpfEvents
  imports NetmonBpfSpec
begin

text \<open>
  The records the BPF programs leave in the ring buffer: what the socket-address programs write
  for each kind of call, what a captured packet becomes, the step relation of the six programs
  over any interleaving and CPU, and the invariant that every record is a well-formed event.
\<close>

section \<open>The socket-address programs, field by field\<close>

text \<open>
  \<open>user_port\<close> is a 32-bit context field whose low half holds the port in network order: the two
  bytes in memory order are the port, most significant byte first.
\<close>

lemma bytes_le_4: "bytes_le 4 w = [ucast w, ucast (drop_bit 8 w), ucast (drop_bit 16 w), ucast (drop_bit 24 w)]"
  by (simp add: bytes_le_def upt_rec)

lemma bytes_le_2: "bytes_le 2 w = [ucast w, ucast (drop_bit 8 w)]"
  by (simp add: bytes_le_def upt_rec)

lemma ntohl_port: "(ucast (drop_bit 16 (bpf_ntohl w)) :: u16) = word_be (bytes_le 2 w)"
proof (rule bit_word_eqI)
  fix k
  assume "k < LENGTH(16)"
  then have k: "k < 16" by simp
  have kd: "k div 8 < 2" using k by simp
  have "(k + 16) div 8 = Suc (Suc (k div 8))" and "(k + 16) mod 8 = k mod 8"
    by presburger+
  with k kd show "bit (ucast (drop_bit 16 (bpf_ntohl w)) :: u16) k = bit (word_be (bytes_le 2 w) :: u16) k"
    by (simp add: bpf_ntohl_def word_be_def bit_simps bit_word_le rev_nth add.commute)
qed

lemma store32_words:
  "store32 12 d (store32 8 c (store32 4 b (store32 0 a (replicate 16 0)))) =
     bytes_le 4 a @ bytes_le 4 b @ bytes_le 4 c @ bytes_le 4 d"
  by (simp add: store32_def)

lemma store32_one: "store32 0 a (replicate 16 0) = bytes_le 4 a @ replicate 12 0"
  by (simp add: store32_def)

text \<open>The address bytes in memory order, which is network order for both families.\<close>

definition destination_bytes :: "bpf_sock_addr \<Rightarrow> nat \<Rightarrow> u8 list" where
  "destination_bytes ctx af =
     (if af = AF_INET then bytes_le 4 (sa_user_ip4 ctx) @ replicate 12 0
      else bytes_le 4 (sa_user_ip6 ctx ! 0) @ bytes_le 4 (sa_user_ip6 ctx ! 1) @
           bytes_le 4 (sa_user_ip6 ctx ! 2) @ bytes_le 4 (sa_user_ip6 ctx ! 3))"

definition connect_record :: "bpf_env \<Rightarrow> bpf_sock_addr \<Rightarrow> u8 \<Rightarrow> nat \<Rightarrow> connection_event" where
  "connect_record env ctx proto af = \<lparr>
     ce_kind = event_kind_num EVENT_CONNECT, ce_pad = 0,
     ce_timestamp_ns = env_ktime_ns env, ce_cgroup_id = env_cgroup_id env,
     ce_pid = ucast (drop_bit 32 (env_pid_tgid env)), ce_tid = ucast (env_pid_tgid env),
     ce_uid = ucast (env_uid_gid env), ce_family = of_nat af, ce_protocol = proto, ce_pad2 = 0,
     ce_destination_port = word_be (bytes_le 2 (sa_user_port ctx)), ce_pad3 = 0,
     ce_destination = destination_bytes ctx af, ce_comm = env_comm env\<rparr>"

lemma wf_connect_record:
  "helpers_ok env \<Longrightarrow> wf_connection_event (connect_record env ctx proto af)"
  by (simp add: wf_connection_event_def connect_record_def destination_bytes_def helpers_ok_def)

lemma emit_connect_record:
  assumes "af \<in> {AF_INET, AF_INET6}"
  shows "emit_connect env ctx proto (of_nat af) s =
    (case env_reserve env 80 of
       None \<Rightarrow> (count env CNT_RINGBUF_FAIL s, 1)
     | Some m \<Rightarrow> (ringbuf_submit (connection_image (connect_record env ctx proto af)) s, 1))"
proof -
  consider "af = AF_INET" | "af = AF_INET6" using assms by auto
  then show ?thesis
  proof cases
    case 1
    then show ?thesis
      by (simp add: emit_connect_def connection_event_size zero_connection_event_def Let_def
          of_nat_AF ntohl_port store32_one connect_record_def destination_bytes_def
          split: option.split) (simp add: AF_INET_def)
  next
    case 2
    then show ?thesis
      by (simp add: emit_connect_def connection_event_size zero_connection_event_def Let_def
          of_nat_AF ntohl_port store32_words connect_record_def destination_bytes_def
          split: option.split) (simp add: AF_INET_def AF_INET6_def)
  qed
qed

lemma connect_unwatched:
  assumes "unat (sa_protocol ctx) \<notin> {IPPROTO_TCP, IPPROTO_UDP}"
  shows "connect4 env ctx s = (s, 1)" and "connect6 env ctx s = (s, 1)"
  using assms by (simp_all add: connect4_def connect6_def)

section \<open>Which packets are captured\<close>

text \<open>
  \<open>udp_at pkt af off\<close>: \<open>pkt\<close> is an IPv4 packet, not a fragment, or an IPv6 packet without
  extension headers, whose payload is UDP and starts at \<open>off\<close>.
\<close>

inductive udp_at :: "u8 list \<Rightarrow> nat \<Rightarrow> nat \<Rightarrow> bool" where
  udp4: "20 \<le> length pkt \<Longrightarrow> high_nibble (pkt ! 0) = 4 \<Longrightarrow> 5 \<le> low_nibble (pkt ! 0) \<Longrightarrow>
     be16_at pkt 6 mod 2 ^ 14 = 0 \<Longrightarrow> unat (pkt ! 9) = IPPROTO_UDP \<Longrightarrow>
     udp_at pkt AF_INET (4 * low_nibble (pkt ! 0))"
| udp6: "40 \<le> length pkt \<Longrightarrow> high_nibble (pkt ! 0) = 6 \<Longrightarrow> unat (pkt ! 6) = IPPROTO_UDP \<Longrightarrow>
     udp_at pkt AF_INET6 40"

inductive_cases udp_atE: "udp_at pkt af off"
inductive_simps udp_at_iff: "udp_at pkt af off"

text \<open>A UDP datagram from or to port 53 that announces a DNS message of \<open>n\<close> bytes.\<close>

definition dns_datagram :: "u8 list \<Rightarrow> nat \<Rightarrow> nat \<Rightarrow> bool" where
  "dns_datagram pkt off n \<longleftrightarrow> off + 8 \<le> length pkt \<and> dns_port pkt off \<and>
     be16_at pkt (off + 4) = n + 8 \<and> DNS_MIN_LEN \<le> n"

lemma classify_udp_Deliver:
  "classify_udp pkt af off = Deliver af' off' n \<longleftrightarrow> af' = af \<and> off' = off \<and> dns_datagram pkt off n"
  by (auto simp: classify_udp_def dns_datagram_def DNS_MIN_LEN_def)

lemma classify_tcp_not_Deliver [simp]: "classify_tcp pkt off \<noteq> Deliver af off' n"
  by (simp add: classify_tcp_def)

lemma classify_Deliver:
  "classify pkt = Deliver af off n \<longleftrightarrow> udp_at pkt af off \<and> dns_datagram pkt off n"
  by (auto simp: classify_def classify_ipv4_def classify_ipv6_def udp_at_iff
      classify_udp_Deliver IPPROTO_TCP_def IPPROTO_UDP_def)

lemma dns_datagram_len: "dns_datagram pkt off n \<Longrightarrow> n + 8 < 65536"
  using be16_at_less [of pkt "off + 4"] by (simp add: dns_datagram_def)

lemma udp_at_off: "udp_at pkt af off \<Longrightarrow> off \<le> 60"
  using low_nibble_less [of "pkt ! 0"] by (auto elim!: udp_atE)

section \<open>Frame lemmas\<close>

lemma count_events [simp]: "ks_events (count env c s) = ks_events s"
  by (simp add: count_def counters_lookup_def counters_store_def)

lemma count_counter:
  "ks_counters (count env c s) cpu key =
     (if c \<noteq> CNT_MAX \<and> cpu = env_cpu env \<and> key = counter_num c
      then ks_counters s cpu key + 1 else ks_counters s cpu key)"
  by (cases c) (auto simp: count_def counters_lookup_def counters_store_def)

lemma ringbuf_submit_simps [simp]:
  "ks_events (ringbuf_submit m s) = ks_events s @ [m]"
  "ks_counters (ringbuf_submit m s) = ks_counters s"
  by (simp_all add: ringbuf_submit_def)

text \<open>The record a packet leaves, if it leaves one.\<close>

definition captured_record ::
  "bpf_env \<Rightarrow> u32 \<Rightarrow> u8 \<Rightarrow> u8 list \<Rightarrow> dns_packet_event option" where
  "captured_record env ifindex direction pkt =
     (case classify pkt of
        Deliver af off n \<Rightarrow>
          (case env_reserve env 1256 of
             Some m \<Rightarrow> if off + 8 + min n DNS_CAPTURE_MAX \<le> length pkt
                       then Some (dns_record env ifindex direction m af off n pkt) else None
           | None \<Rightarrow> None)
      | _ \<Rightarrow> None)"

lemma dns_packet_events:
  assumes "loads_from pkt load" and "helpers_ok env"
  shows "ks_events (dns_packet load env ifindex direction s) = ks_events s @
    (case captured_record env ifindex direction pkt of None \<Rightarrow> [] | Some e \<Rightarrow> [dns_packet_image e])"
  unfolding dns_packet_refines_classify [OF assms]
  by (auto simp: captured_record_def Let_def not_less split: verdict.split option.split)

lemma captured_recordE:
  assumes "captured_record env ifindex direction pkt = Some e"
  obtains af off n m where "udp_at pkt af off" and "dns_datagram pkt off n"
    and "env_reserve env 1256 = Some m" and "off + 8 + min n DNS_CAPTURE_MAX \<le> length pkt"
    and "e = dns_record env ifindex direction m af off n pkt"
  using assms
  by (auto simp: captured_record_def classify_Deliver split: verdict.splits option.splits if_splits)

lemma unat_of_nat_u16: "n < 65536 \<Longrightarrow> unat (of_nat n :: u16) = n"
  by (simp add: unsigned_of_nat take_bit_nat_eq_self)

lemma dns_record_lengths:
  assumes "n + 8 < 65536"
  shows "unat (dp_message_len (dns_record env ifindex direction m af off n pkt)) = n"
    and "unat (dp_captured_len (dns_record env ifindex direction m af off n pkt)) = min n DNS_CAPTURE_MAX"
  using assms by (simp_all add: dns_record_def Let_def unat_of_nat_u16)

text \<open>
  What holds of every captured record: it is well formed, its lengths are consistent, and its
  first \<open>captured_len\<close> payload bytes are the packet's, none of them left over in the slot.
\<close>

definition faithful_capture :: "u8 list \<Rightarrow> dns_packet_event \<Rightarrow> bool" where
  "faithful_capture pkt e \<longleftrightarrow> (\<exists>af off n. udp_at pkt af off \<and> dns_datagram pkt off n \<and>
     unat (dp_family e) = af \<and> unat (dp_message_len e) = n \<and>
     unat (dp_captured_len e) = min n DNS_CAPTURE_MAX \<and>
     off + 8 + unat (dp_captured_len e) \<le> length pkt \<and>
     take (unat (dp_captured_len e)) (dp_payload e) = subrange (off + 8) (unat (dp_captured_len e)) pkt)"

lemma captured_record_ok:
  assumes ok: "helpers_ok env" and e: "captured_record env ifindex direction pkt = Some e"
  shows "wf_dns_packet_event e \<and> dp_kind e = event_kind_num EVENT_DNS_PACKET \<and>
    dp_ifindex e = ifindex \<and> dp_direction e = direction \<and> dp_timestamp_ns e = env_ktime_ns env \<and>
    dp_protocol e = 17 \<and> faithful_capture pkt e"
proof -
  from e obtain af off n m where udp: "udp_at pkt af off" and dg: "dns_datagram pkt off n"
    and m: "env_reserve env 1256 = Some m" and fit: "off + 8 + min n DNS_CAPTURE_MAX \<le> length pkt"
    and r: "e = dns_record env ifindex direction m af off n pkt"
    by (rule captured_recordE)
  from m ok have len: "length m = 1256" by (simp add: helpers_ok_def)
  have n: "n + 8 < 65536" using dg by (rule dns_datagram_len)
  have c: "min n DNS_CAPTURE_MAX \<le> 1232" by (simp add: DNS_CAPTURE_MAX_def)
  have pl: "dp_payload e = subrange (off + 8) (min n DNS_CAPTURE_MAX) pkt @ drop (24 + min n DNS_CAPTURE_MAX) m"
    by (simp add: r dns_record_def Let_def)
  have sl: "length (subrange (off + 8) (min n DNS_CAPTURE_MAX) pkt) = min n DNS_CAPTURE_MAX"
    using fit by simp
  have "wf_dns_packet_event e"
    using len c sl by (simp add: wf_dns_packet_event_def pl) (simp add: DNS_CAPTURE_MAX_def)
  moreover have af: "unat (dp_family e) = af"
    using udp by (auto simp: r dns_record_def Let_def of_nat_AF elim!: udp_atE)
  moreover have "faithful_capture pkt e"
    unfolding faithful_capture_def
    using udp dg fit af dns_record_lengths [OF n, of env ifindex direction m af off pkt] sl pl
    by (intro exI [of _ af] exI [of _ off] exI [of _ n]) (simp add: r)
  ultimately show ?thesis
    by (simp add: r dns_record_def Let_def IPPROTO_UDP_def)
qed

lemma captured_record_iff:
  assumes "env_reserve env 1256 = Some m"
  shows "captured_record env ifindex direction pkt \<noteq> None \<longleftrightarrow>
    (\<exists>af off n. udp_at pkt af off \<and> dns_datagram pkt off n \<and>
       off + 8 + min n DNS_CAPTURE_MAX \<le> length pkt)"
proof
  assume "captured_record env ifindex direction pkt \<noteq> None"
  then obtain e where "captured_record env ifindex direction pkt = Some e" by auto
  then show "\<exists>af off n. udp_at pkt af off \<and> dns_datagram pkt off n \<and>
       off + 8 + min n DNS_CAPTURE_MAX \<le> length pkt"
    by (rule captured_recordE) blast
next
  assume "\<exists>af off n. udp_at pkt af off \<and> dns_datagram pkt off n \<and>
       off + 8 + min n DNS_CAPTURE_MAX \<le> length pkt"
  then obtain af off n where "classify pkt = Deliver af off n"
    and "off + 8 + min n DNS_CAPTURE_MAX \<le> length pkt"
    by (auto simp: classify_Deliver)
  with assms show "captured_record env ifindex direction pkt \<noteq> None"
    by (simp add: captured_record_def)
qed

section \<open>Runs of the six programs\<close>

text \<open>
  One step is one run of one program on some CPU, with whatever the helpers return; the kernel
  may run them in any order. The index of a step is the program's return value, its verdict on
  the call or packet.
\<close>

inductive kstep :: "kstate \<Rightarrow> int \<Rightarrow> kstate \<Rightarrow> bool" where
  kstep_connect4: "helpers_ok env \<Longrightarrow> connect4 env ctx s = (s', r) \<Longrightarrow> kstep s r s'"
| kstep_connect6: "helpers_ok env \<Longrightarrow> connect6 env ctx s = (s', r) \<Longrightarrow> kstep s r s'"
| kstep_sendmsg4: "helpers_ok env \<Longrightarrow> sendmsg4 env ctx s = (s', r) \<Longrightarrow> kstep s r s'"
| kstep_sendmsg6: "helpers_ok env \<Longrightarrow> sendmsg6 env ctx s = (s', r) \<Longrightarrow> kstep s r s'"
| kstep_ingress: "helpers_ok env \<Longrightarrow> loads_from pkt load \<Longrightarrow>
     cgroup_ingress load env ifindex s = (s', r) \<Longrightarrow> kstep s r s'"
| kstep_egress: "helpers_ok env \<Longrightarrow> loads_from pkt load \<Longrightarrow>
     cgroup_egress load env ifindex s = (s', r) \<Longrightarrow> kstep s r s'"

text \<open>A record the userspace side can rely on.\<close>

definition connect_event_ok :: "connection_event \<Rightarrow> bool" where
  "connect_event_ok e \<longleftrightarrow> wf_connection_event e \<and> ce_kind e = event_kind_num EVENT_CONNECT \<and>
     (unat (ce_family e) = AF_INET \<and> drop 4 (ce_destination e) = replicate 12 0 \<or>
      unat (ce_family e) = AF_INET6)"

definition dns_event_ok :: "dns_packet_event \<Rightarrow> bool" where
  "dns_event_ok e \<longleftrightarrow> wf_dns_packet_event e \<and> dp_kind e = event_kind_num EVENT_DNS_PACKET \<and>
     DNS_MIN_LEN \<le> unat (dp_message_len e) \<and>
     unat (dp_captured_len e) = min (unat (dp_message_len e)) DNS_CAPTURE_MAX"

definition event_record_ok :: "u8 list \<Rightarrow> bool" where
  "event_record_ok m \<longleftrightarrow>
     (\<exists>e. connect_event_ok e \<and> m = connection_image e) \<or> (\<exists>e. dns_event_ok e \<and> m = dns_packet_image e)"

definition ring_ok :: "kstate \<Rightarrow> bool" where
  "ring_ok s \<longleftrightarrow> (\<forall>m \<in> set (ks_events s). event_record_ok m)"

lemma connect_record_ok:
  "helpers_ok env \<Longrightarrow> af \<in> {AF_INET, AF_INET6} \<Longrightarrow> connect_event_ok (connect_record env ctx proto af)"
proof -
  assume ok: "helpers_ok env" and af: "af \<in> {AF_INET, AF_INET6}"
  have "wf_connection_event (connect_record env ctx proto af)"
    using ok by (rule wf_connect_record)
  moreover have "unat (of_nat af :: u16) = af"
    using af by (auto simp: AF_INET_def AF_INET6_def)
  ultimately show ?thesis
    using af by (auto simp: connect_event_ok_def connect_record_def destination_bytes_def)
qed

lemma emit_connect_ring_ok [inv_intros]:
  assumes "helpers_ok env" and "af \<in> {AF_INET, AF_INET6}" and "ring_ok s"
  shows "ring_ok (fst (emit_connect env ctx proto (of_nat af) s))"
  using assms connect_record_ok [OF assms(1,2)]
  by (auto simp: emit_connect_record ring_ok_def event_record_ok_def split: option.split)

lemma captured_record_dns_ok:
  assumes "helpers_ok env" and "captured_record env ifindex direction pkt = Some e"
  shows "dns_event_ok e"
  using captured_record_ok [OF assms]
  by (auto simp: dns_event_ok_def faithful_capture_def dns_datagram_def)

lemma dns_packet_ring_ok [inv_intros]:
  assumes "loads_from pkt load" and "helpers_ok env" and "ring_ok s"
  shows "ring_ok (dns_packet load env ifindex direction s)"
proof (cases "captured_record env ifindex direction pkt")
  case None
  with assms(3) show ?thesis by (simp add: ring_ok_def dns_packet_events [OF assms(1,2)])
next
  case (Some e)
  then have "dns_event_ok e" by (rule captured_record_dns_ok [OF assms(2)])
  with assms(3) Some show ?thesis
    by (auto simp: ring_ok_def dns_packet_events [OF assms(1,2)] event_record_ok_def)
qed

lemma emit_connect_verdict: "snd (emit_connect env ctx proto af s) = 1"
  by (simp add: emit_connect_def Let_def split: option.split)

lemmas program_defs = connect4_def connect6_def sendmsg4_def sendmsg6_def
  cgroup_ingress_def cgroup_egress_def

lemma kstep_verdict: "kstep s r s' \<Longrightarrow> r = 1"
  by (induction rule: kstep.induct)
    (auto simp: program_defs split: if_splits dest!: arg_cong [of _ _ snd] simp: emit_connect_verdict)

lemma kstep_ring_ok: "kstep s r s' \<Longrightarrow> ring_ok s \<Longrightarrow> ring_ok s'"
proof (induction rule: kstep.induct)
  case (kstep_connect4 env ctx s s' r)
  then show ?case
    using emit_connect_ring_ok [of env AF_INET s ctx "ucast (sa_protocol ctx)"]
    by (auto simp: connect4_def split: if_splits)
next
  case (kstep_connect6 env ctx s s' r)
  then show ?case
    using emit_connect_ring_ok [of env AF_INET6 s ctx "ucast (sa_protocol ctx)"]
    by (auto simp: connect6_def split: if_splits)
next
  case (kstep_sendmsg4 env ctx s s' r)
  then show ?case
    using emit_connect_ring_ok [of env AF_INET s ctx "of_nat IPPROTO_UDP"]
    by (auto simp: sendmsg4_def)
next
  case (kstep_sendmsg6 env ctx s s' r)
  then show ?case
    using emit_connect_ring_ok [of env AF_INET6 s ctx "of_nat IPPROTO_UDP"]
    by (auto simp: sendmsg6_def)
next
  case (kstep_ingress env pkt load ifindex s s' r)
  then show ?case
    by (auto simp: cgroup_ingress_def intro: dns_packet_ring_ok)
next
  case (kstep_egress env pkt load ifindex s s' r)
  then show ?case
    by (auto simp: cgroup_egress_def intro: dns_packet_ring_ok)
qed

text \<open>Records are only ever appended, so their order is the order of the runs.\<close>

lemma emit_connect_appends:
  "\<exists>ms. ks_events (fst (emit_connect env ctx proto af s)) = ks_events s @ ms \<and> length ms \<le> 1"
  by (auto simp: emit_connect_def Let_def split: option.split)

lemma dns_packet_appends:
  assumes "loads_from pkt load" and "helpers_ok env"
  shows "\<exists>ms. ks_events (dns_packet load env ifindex direction s) = ks_events s @ ms \<and> length ms \<le> 1"
  by (auto simp: dns_packet_events [OF assms] split: option.split)

lemma kstep_appends: "kstep s r s' \<Longrightarrow> \<exists>ms. ks_events s' = ks_events s @ ms \<and> length ms \<le> 1"
proof (induction rule: kstep.induct)
  case (kstep_connect4 env ctx s s' r)
  then show ?case
    using emit_connect_appends [of env ctx "ucast (sa_protocol ctx)" "of_nat AF_INET" s]
    by (cases "s' = s") (auto simp: connect4_def split: if_splits)
next
  case (kstep_connect6 env ctx s s' r)
  then show ?case
    using emit_connect_appends [of env ctx "ucast (sa_protocol ctx)" "of_nat AF_INET6" s]
    by (cases "s' = s") (auto simp: connect6_def split: if_splits)
next
  case (kstep_sendmsg4 env ctx s s' r)
  then show ?case
    using emit_connect_appends [of env ctx "of_nat IPPROTO_UDP" "of_nat AF_INET" s]
    by (auto simp: sendmsg4_def)
next
  case (kstep_sendmsg6 env ctx s s' r)
  then show ?case
    using emit_connect_appends [of env ctx "of_nat IPPROTO_UDP" "of_nat AF_INET6" s]
    by (auto simp: sendmsg6_def)
next
  case (kstep_ingress env pkt load ifindex s s' r)
  then show ?case using dns_packet_appends by (auto simp: cgroup_ingress_def)
next
  case (kstep_egress env pkt load ifindex s s' r)
  then show ?case using dns_packet_appends by (auto simp: cgroup_egress_def)
qed

section \<open>Properties\<close>

text \<open>An environment and a packet on which the properties below are applied.\<close>

definition sample_env :: bpf_env where
  "sample_env = \<lparr>env_cpu = 1, env_pid_tgid = 0x0000000700000008, env_ktime_ns = 1000,
     env_cgroup_id = 9, env_uid_gid = 5, env_comm = replicate 16 65,
     env_reserve = (\<lambda>n. Some (replicate n 0))\<rparr>"

lemma sample_env_ok: "helpers_ok sample_env"
  by (simp add: helpers_ok_def sample_env_def TASK_COMM_LEN_def)

lemma sample_env_reserve: "env_reserve sample_env n = Some (replicate n 0)"
  by (simp add: sample_env_def)

text \<open>An IPv4 packet with a UDP datagram from port 53 that carries a 16-byte DNS response.\<close>

definition sample_packet :: "u8 list" where
  "sample_packet =
     [0x45, 0, 0, 44, 0, 1, 0x40, 0, 64, 17, 0, 0, 10, 0, 0, 1, 10, 0, 0, 2] @
     [0, 53, 0x30, 0x39, 0, 24, 0, 0] @
     [0, 7, 0x81, 0x80, 0, 1, 0, 1, 0, 0, 0, 0, 1, 97, 0, 0]"

lemma sample_length [simp]: "length sample_packet = 44"
  by (simp add: sample_packet_def)

lemma sample_classify: "classify sample_packet = Deliver AF_INET 20 16"
  by (simp add: classify_def classify_ipv4_def classify_udp_def sample_packet_def be16_at_def
      high_nibble_def low_nibble_def dns_port_def proto_defs)

lemma sample_events:
  "ks_events (dns_packet (packet_loader sample_packet) sample_env 3 1 s) = ks_events s @
     [dns_packet_image (dns_record sample_env 3 1 (replicate 1256 0) AF_INET 20 16 sample_packet)]"
  unfolding dns_packet_events [OF loads_from_packet_loader sample_env_ok]
  by (simp add: captured_record_def sample_classify sample_env_reserve DNS_CAPTURE_MAX_def)

definition sample_ctx :: bpf_sock_addr where
  "sample_ctx = \<lparr>sa_user_family = 2, sa_user_ip4 = 0x0101a8c0, sa_user_ip6 = [0, 0, 0, 0],
     sa_user_port = 0x5000, sa_family = 2, sa_type = 1, sa_protocol = 6, sa_msg_src_ip4 = 0,
     sa_msg_src_ip6 = [0, 0, 0, 0], sa_sk = 0\<rparr>"

definition sample_kstate :: kstate where
  "sample_kstate = \<lparr>ks_events = [], ks_counters = \<lambda>_ _. 0\<rparr>"

lemma sample_kstep: "kstep sample_kstate 1
    (fst (cgroup_ingress (packet_loader sample_packet) sample_env 3 sample_kstate))"
  by (rule kstep_ingress [OF sample_env_ok loads_from_packet_loader]) (simp add: cgroup_ingress_def)

text \<open>The counters charged for a packet.\<close>

definition charged :: "bpf_env \<Rightarrow> u8 list \<Rightarrow> counter_id list" where
  "charged env pkt = (case classify pkt of
     Pass \<Rightarrow> []
   | Bump c \<Rightarrow> [c]
   | Deliver af off n \<Rightarrow>
       (if n > DNS_CAPTURE_MAX then [CNT_DNS_TRUNCATED] else []) @
       (case env_reserve env 1256 of
          None \<Rightarrow> [CNT_RINGBUF_FAIL]
        | Some m \<Rightarrow> if length pkt < off + 8 + min n DNS_CAPTURE_MAX then [CNT_BAD_UDP] else []))"

lemma classify_Bump_real: "classify pkt = Bump c \<Longrightarrow> c \<noteq> CNT_MAX"
  by (auto simp: classify_def classify_ipv4_def classify_ipv6_def classify_udp_def classify_tcp_def
      split: if_splits)

lemma obey_counters:
  "ks_counters (obey env ifindex direction pkt (classify pkt) s) cpu key = ks_counters s cpu key +
     (if cpu = env_cpu env then of_nat (count_list (map counter_num (charged env pkt)) key) else 0)"
  by (cases "classify pkt")
    (auto simp: charged_def count_counter Let_def dest: classify_Bump_real split: option.split)

text \<open>
  The counters a packet changes: those of the reason it was not captured and of truncation, each
  by one, on the CPU that ran the program and nowhere else.
\<close>

theorem packet_counters:
  assumes "loads_from pkt load" and "helpers_ok env"
  shows "ks_counters (dns_packet load env ifindex direction s) cpu key =
    ks_counters s cpu key +
      (if cpu = env_cpu env then of_nat (count_list (map counter_num (charged env pkt)) key) else 0)"
  unfolding dns_packet_refines_classify [OF assms] by (rule obey_counters)

theorem packet_counters_witness:
  "ks_counters (dns_packet (packet_loader sample_packet) sample_env 3 1 sample_kstate) 1 6 = 0"
  using packet_counters [OF loads_from_packet_loader sample_env_ok, of sample_packet 3 1 sample_kstate 1 6]
  by (simp add: charged_def sample_classify sample_env_reserve DNS_CAPTURE_MAX_def sample_kstate_def)

text \<open>
  Over any sequence of program runs, every record in the ring stays a well-formed connection or
  DNS record with the right kind, family and consistent lengths.
\<close>

theorem ring_records_wellformed:
  assumes "(\<lambda>s s'. \<exists>r. kstep s r s')\<^sup>*\<^sup>* s s'" and "ring_ok s"
  shows "ring_ok s'"
  using assms(1)
  by (induction rule: rtranclp_induct) (use assms(2) kstep_ring_ok in blast)+

theorem ring_records_wellformed_witness:
  "ring_ok (fst (cgroup_ingress (packet_loader sample_packet) sample_env 3 sample_kstate))"
proof (rule ring_records_wellformed)
  show "(\<lambda>s s'. \<exists>r. kstep s r s')\<^sup>*\<^sup>* sample_kstate
      (fst (cgroup_ingress (packet_loader sample_packet) sample_env 3 sample_kstate))"
    using sample_kstep by blast
qed (simp add: ring_ok_def sample_kstate_def)

text \<open>
  C5. For every packet and every behaviour of the helpers, dns_packet does exactly what the one-
  page classification of the packet says: nothing, one counter, or one record built from the
  packet, with the truncation counter.
\<close>

theorem dns_packet_implements_classify:
  assumes "loads_from pkt load" and "helpers_ok env"
  shows "dns_packet load env ifindex direction s = obey env ifindex direction pkt (classify pkt) s"
  by (rule dns_packet_refines_classify [OF assms])

theorem dns_packet_implements_classify_witness:
  "dns_packet (packet_loader sample_packet) sample_env 3 1 sample_kstate =
     obey sample_env 3 1 sample_packet (Deliver AF_INET 20 16) sample_kstate"
  unfolding sample_classify [symmetric]
  by (rule dns_packet_implements_classify [OF loads_from_packet_loader sample_env_ok])

text \<open>
  C6. When the ring has room, a packet leaves a record exactly if it is unfragmented IPv4 or
  extension-free IPv6 carrying UDP from or to port 53 with a plausible DNS length whose captured
  part is wholly inside the packet.
\<close>

theorem packet_captured_iff:
  assumes "loads_from pkt load" and "helpers_ok env" and "env_reserve env 1256 = Some m"
  shows "ks_events (dns_packet load env ifindex direction s) \<noteq> ks_events s \<longleftrightarrow>
    (\<exists>af off n. udp_at pkt af off \<and> dns_datagram pkt off n \<and>
       off + 8 + min n DNS_CAPTURE_MAX \<le> length pkt)"
  using captured_record_iff [OF assms(3), of ifindex direction pkt]
  by (auto simp: dns_packet_events [OF assms(1,2)] split: option.split)

theorem packet_captured_iff_witness:
  "\<exists>af off n. udp_at sample_packet af off \<and> dns_datagram sample_packet off n \<and>
     off + 8 + min n DNS_CAPTURE_MAX \<le> length sample_packet"
  using packet_captured_iff [OF loads_from_packet_loader sample_env_ok sample_env_reserve,
      of sample_packet 3 1 sample_kstate]
  by (simp add: sample_events)

text \<open>
  C7. A record a packet leaves is well formed, carries the event kind, interface, direction, clock
  and protocol of the run, and its first captured_len payload bytes are the DNS message of that
  packet and nothing left over in the ring slot.
\<close>

theorem captured_bytes_faithful:
  assumes "loads_from pkt load" and "helpers_ok env"
    and "ks_events (dns_packet load env ifindex direction s) = ks_events s @ [r]"
  shows "\<exists>e. r = dns_packet_image e \<and> wf_dns_packet_event e \<and>
    dp_kind e = event_kind_num EVENT_DNS_PACKET \<and> dp_ifindex e = ifindex \<and>
    dp_direction e = direction \<and> dp_timestamp_ns e = env_ktime_ns env \<and> dp_protocol e = 17 \<and>
    faithful_capture pkt e"
proof -
  from assms(3) obtain e where "captured_record env ifindex direction pkt = Some e"
    and "r = dns_packet_image e"
    by (auto simp: dns_packet_events [OF assms(1,2)] split: option.splits)
  with captured_record_ok [OF assms(2)] show ?thesis by blast
qed

theorem captured_bytes_faithful_witness:
  "\<exists>e. dns_packet_image (dns_record sample_env 3 1 (replicate 1256 0) AF_INET 20 16 sample_packet) =
     dns_packet_image e \<and> wf_dns_packet_event e \<and>
     dp_kind e = event_kind_num EVENT_DNS_PACKET \<and> dp_ifindex e = 3 \<and> dp_direction e = 1 \<and>
     dp_timestamp_ns e = env_ktime_ns sample_env \<and> dp_protocol e = 17 \<and>
     faithful_capture sample_packet e"
  by (rule captured_bytes_faithful [OF loads_from_packet_loader sample_env_ok
        sample_events [of sample_kstate]])

text \<open>
  C8. Whatever happens in a run of any of the six programs, its return value is 1: the monitor
  never rejects a connect, a send or a packet.
\<close>

theorem programs_always_allow:
  assumes "kstep s r s'"
  shows "r = 1"
  using assms by (rule kstep_verdict)

theorem programs_always_allow_witness: "snd (cgroup_ingress (packet_loader sample_packet) sample_env 3 sample_kstate) = 1"
  using programs_always_allow [OF kstep_ingress [OF sample_env_ok loads_from_packet_loader prod.collapse [symmetric]]]
  by blast

text \<open>
  C9. A watched connect or a UDP send with room in the ring submits exactly one record with the
  caller's ids, clock, comm, protocol and family, the port in host order and the address bytes in
  network order, the unused ones zero.
\<close>

theorem connect_record_submitted:
  assumes "env_reserve env 80 = Some m" and "unat (sa_protocol ctx) \<in> {IPPROTO_TCP, IPPROTO_UDP}"
  shows "connect4 env ctx s = (ringbuf_submit (connection_image
      (connect_record env ctx (ucast (sa_protocol ctx)) AF_INET)) s, 1) \<and>
    connect6 env ctx s = (ringbuf_submit (connection_image
      (connect_record env ctx (ucast (sa_protocol ctx)) AF_INET6)) s, 1) \<and>
    sendmsg4 env ctx s = (ringbuf_submit (connection_image
      (connect_record env ctx 17 AF_INET)) s, 1) \<and>
    sendmsg6 env ctx s = (ringbuf_submit (connection_image
      (connect_record env ctx 17 AF_INET6)) s, 1)"
  using assms emit_connect_record [of AF_INET env ctx] emit_connect_record [of AF_INET6 env ctx]
  by (auto simp: program_defs IPPROTO_UDP_def)

theorem connect_record_submitted_witness:
  "fst (connect4 sample_env sample_ctx sample_kstate) = ringbuf_submit (connection_image
     (connect_record sample_env sample_ctx 6 AF_INET)) sample_kstate"
  using connect_record_submitted [OF sample_env_reserve, of sample_ctx sample_kstate]
  by (simp add: sample_ctx_def proto_defs)

text \<open>
  C10. When the ring is full, a connect or send leaves the ring as it was, adds one to
  ringbuf_fail on its own CPU, touches no other counter and still returns 1.
\<close>

theorem connect_failure_counted:
  assumes "env_reserve env 80 = None" and "af \<in> {AF_INET, AF_INET6}"
    and "emit_connect env ctx proto (of_nat af) s = (s', r)"
  shows "r = 1 \<and> ks_events s' = ks_events s \<and>
    ks_counters s' cpu key = ks_counters s cpu key +
      (if cpu = env_cpu env \<and> key = counter_num CNT_RINGBUF_FAIL then 1 else 0)"
  using assms by (auto simp: emit_connect_record [OF assms(2)] count_counter)

theorem connect_failure_counted_witness:
  "ks_counters (fst (emit_connect (sample_env\<lparr>env_reserve := \<lambda>n. None\<rparr>) sample_ctx 6 (of_nat AF_INET) sample_kstate)) 1 0 = 1"
  using connect_failure_counted [of "sample_env\<lparr>env_reserve := \<lambda>n. None\<rparr>" AF_INET sample_ctx 6 sample_kstate _ _ 1 0,
      OF _ _ prod.collapse [symmetric]]
  by (simp add: sample_kstate_def) (simp add: sample_env_def)

end
