(* ===== verification/NetmonPipeline.thy ===== *)
theory NetmonPipeline
  imports NetmonApp NetmonBpfEvents
begin

text \<open>
  The two halves together. The records the eBPF programs submit are decoded by main.go to the same
  values, whatever the padding of the C structs; every record a program can submit is handled;
  and the combined system, kernel programs appending to the ring while the poll loop consumes it,
  keeps the ring and the cache well formed and prints only hostnames that a captured DNS
  response has taught for the printed address.
\<close>

section \<open>Decoding what the kernel encodes\<close>

definition go_connection :: "connection_event \<Rightarrow> connectionEvent" where
  "go_connection e = \<lparr>
     Kind = ce_kind e, Pad = ce_pad e, TimestampNS = ce_timestamp_ns e, CgroupID = ce_cgroup_id e,
     PID = ce_pid e, TID = ce_tid e, UID = ce_uid e, Family = ce_family e,
     Protocol = ce_protocol e, Pad2 = ce_pad2 e, DestinationPort = ce_destination_port e,
     Pad3 = ce_pad3 e, Destination = ce_destination e, Comm = ce_comm e\<rparr>"

definition go_dns_packet :: "dns_packet_event \<Rightarrow> dnsPacketEvent" where
  "go_dns_packet e = \<lparr>
     DKind = dp_kind e, DIfindex = dp_ifindex e, DTimestampNS = dp_timestamp_ns e,
     DDirection = dp_direction e, DFamily = dp_family e, DProtocol = dp_protocol e,
     DPad = dp_pad e, DMessageLen = dp_message_len e, DCapturedLen = dp_captured_len e,
     DPayload = dp_payload e\<rparr>"

lemma read_connection_image:
  assumes "wf_connection_event e"
  shows "read_connection_event (connection_image e) = Some (go_connection e)"
  using assms
  by (simp add: read_connection_event_def go_connection_def)
    (simp add: connection_image_def connection_fields_def subrange_skip wire_simps
      wf_connection_event_def TASK_COMM_LEN_def)

lemma read_dns_packet_image:
  assumes "wf_dns_packet_event e"
  shows "read_dns_packet_event (dns_packet_image e) = Some (go_dns_packet e)"
  using assms
  by (simp add: read_dns_packet_event_def go_dns_packet_def)
    (simp add: dns_packet_image_def dns_packet_fields_def subrange_skip wire_simps
      wf_dns_packet_event_def DNS_CAPTURE_MAX_def)

lemma kind_of_connection_image [simp]: "word_le (take 4 (connection_image e)) = ce_kind e"
  by (simp add: connection_image_def connection_fields_def wire_simps)

lemma kind_of_dns_packet_image [simp]: "word_le (take 4 (dns_packet_image e)) = dp_kind e"
  by (simp add: dns_packet_image_def dns_packet_fields_def wire_simps)

lemma kinds [simp]: "event_kind_num EVENT_CONNECT = 1" "event_kind_num EVENT_DNS_PACKET = 2"
  by simp_all

section \<open>Handling a record of either kind\<close>

lemma handle_connection:
  assumes "connect_event_ok e"
  shows "handle_event unpack uf app (connection_image e) = print_connection app (go_connection e)"
  using assms by (simp add: handle_event_def connect_event_ok_def read_connection_image)

text \<open>
  A DNS record changes the cache only if it is complete and a response; the message is the first
  \<open>captured_len\<close> bytes of its payload.
\<close>

definition dns_message :: "dns_packet_event \<Rightarrow> u8 list" where
  "dns_message e = take (unat (dp_captured_len e)) (dp_payload e)"

definition learns :: "bool \<Rightarrow> dns_packet_event \<Rightarrow> bool" where
  "learns noDNS e \<longleftrightarrow> \<not> noDNS \<and> dp_captured_len e = dp_message_len e \<and>
     dns_response (dns_message e)"

lemma handle_dns_packet:
  assumes "dns_event_ok e"
  shows "handle_event unpack uf app (dns_packet_image e) =
    (if learns (app_noDNS app) e
     then (app\<lparr>app_cache := fst (parse_response unpack uf (app_cache app) (app_containerID app)
             (dns_message e) (dp_timestamp_ns e))\<rparr>, None)
     else (app, None))"
proof -
  have wf: "wf_dns_packet_event e" and k: "dp_kind e = 2"
    and len: "unat (dp_captured_len e) \<le> 1232"
    using assms by (auto simp: dns_event_ok_def DNS_CAPTURE_MAX_def)
  have "\<not> dp_captured_len e > (of_nat (length (dp_payload e)) :: u16)"
    using wf len by (simp add: wf_dns_packet_event_def DNS_CAPTURE_MAX_def word_less_nat_alt)
  with wf k show ?thesis
    by (simp add: handle_event_def read_dns_packet_image go_dns_packet_def learns_def dns_message_def
        Let_def)
qed

lemma print_connection_app [simp]:
  "app_containerID (fst (print_connection app ev)) = app_containerID app"
  "app_noDNS (fst (print_connection app ev)) = app_noDNS app"
  by (simp_all add: print_connection_def Let_def)

lemma handle_event_app [simp]:
  "app_containerID (fst (handle_event unpack uf app data)) = app_containerID app"
  "app_noDNS (fst (handle_event unpack uf app data)) = app_noDNS app"
  by (simp_all add: handle_event_def Let_def split: option.split)

lemma print_connection_inv [inv_intros]:
  "cache_inv uf (app_cache app) \<Longrightarrow> cache_inv uf (app_cache (fst (print_connection app ev)))"
  by (simp add: print_connection_def Let_def gc.inv_prune)

lemma handle_event_inv [inv_intros]:
  "cache_inv uf (app_cache app) \<Longrightarrow> cache_inv uf (app_cache (fst (handle_event unpack uf app data)))"
  by (simp add: handle_event_def Let_def print_connection_inv parse_response_inv split: option.split)

section \<open>Where names and lines come from\<close>

text \<open>
  \<open>learned_by unpack uf cid noDNS m k n\<close>: the record \<open>m\<close> is a complete capture of a DNS response
  that the parser accepts and whose answer teaches the name \<open>n\<close> for the key \<open>k\<close>.
\<close>

definition learned_by ::
  "unpacker \<Rightarrow> (string \<Rightarrow> string \<Rightarrow> bool) \<Rightarrow> u64 \<Rightarrow> bool \<Rightarrow> u8 list \<Rightarrow> cache_key \<Rightarrow> dns_name \<Rightarrow> bool"
where
  "learned_by unpack uf cid noDNS m k n \<longleftrightarrow>
     (\<exists>e answer. m = dns_packet_image e \<and> dns_event_ok e \<and> learns noDNS e \<and>
        accepted_answer unpack (dns_message e) = Some answer \<and>
        taught uf answer cid (dp_timestamp_ns e) k n)"

text \<open>The parts of the printed line that come from the connection record alone.\<close>

definition plain_line :: "connection_event \<Rightarrow> connect_line" where
  "plain_line e = \<lparr>
     cl_timestamp_ns = ce_timestamp_ns e, cl_pid = ce_pid e, cl_tid = ce_tid e, cl_uid = ce_uid e,
     cl_comm = comm_string (ce_comm e),
     cl_protocol = (if ce_protocol e = 6 then ''tcp'' else ''udp''),
     cl_destination = destination_ip (ce_family e) (ce_destination e),
     cl_port = ce_destination_port e, cl_hostnames = []\<rparr>"

definition destination_key :: "u64 \<Rightarrow> connection_event \<Rightarrow> cache_key" where
  "destination_key cid e = key_at cid (int (unat (ce_family e))) (ce_destination e)"

lemma connect_event_family: "connect_event_ok e \<Longrightarrow> ce_family e = 2 \<or> ce_family e = 10"
  by (auto simp: connect_event_ok_def proto_defs word_unat_eq_iff)

lemma destination_key_valid:
  "connect_event_ok e \<Longrightarrow> valid_key (int (unat (ce_family e))) (ce_destination e)"
proof -
  assume ok: "connect_event_ok e"
  then have "length (ce_destination e) = 16"
    by (simp add: connect_event_ok_def wf_connection_event_def)
  with connect_event_family [OF ok] show ?thesis by (auto simp: valid_key_def addr_size_def)
qed

text \<open>The two families of the programs are the two that \<open>destinationIP\<close> prints.\<close>

lemma join_nonempty: "ss \<noteq> [] \<Longrightarrow> (\<And>s. s \<in> set ss \<Longrightarrow> s \<noteq> []) \<Longrightarrow> join sep ss \<noteq> []"
  by (cases ss rule: remdups_adj.cases) auto

lemma show_nat_nonempty [simp]: "show_nat n \<noteq> []"
  by (subst show_nat.simps) simp

lemma show_hex_nonempty [simp]: "show_hex n \<noteq> []"
  by (subst show_hex.simps) simp

lemma show_ip_nonempty: "show_ip ip \<noteq> []"
proof (cases "to4 ip")
  case Nil
  have "join '':'' (map show_hex (map (ipv6_group ip) [0..<8])) \<noteq> []"
    by (rule join_nonempty) auto
  with Nil show ?thesis by (auto simp: show_ip_def show_ipv6_def Let_def split: prod.split)
next
  case (Cons b bs)
  have "join ''.'' (map (\<lambda>b. show_nat (unat b)) (b # bs)) \<noteq> []"
    by (rule join_nonempty) (auto dest: sym)
  with Cons show ?thesis by (simp add: show_ip_def)
qed

lemma destination_ip_nonempty:
  assumes "connect_event_ok e"
  shows "destination_ip (ce_family e) (ce_destination e) \<noteq> []"
  using connect_event_family [OF assms] by (auto simp: destination_ip_def show_ip_nonempty)

lemma found_names:
  "valid_key family address \<Longrightarrow>
     (case cache_find c cid family address of None \<Rightarrow> [] | Some en \<Rightarrow> map nm_value (en_names en)) =
     map nm_value (names_of c (key_at cid family address))"
  by (simp add: cache_find_abs names_of_def split: option.split)

lemma print_connection_line:
  assumes "connect_event_ok e" and "cache_inv uf (app_cache app)"
  shows "print_connection app (go_connection e) =
    (app\<lparr>app_cache := cache_prune (app_cache app) (ce_timestamp_ns e)\<rparr>,
     Some ((plain_line e)\<lparr>cl_hostnames := map nm_value
       (filter (\<lambda>n. ce_timestamp_ns e < nm_expires n)
         (names_of (app_cache app) (destination_key (app_containerID app) e)))\<rparr>))"
  using destination_ip_nonempty [OF assms(1)] destination_key_valid [OF assms(1)]
  by (simp add: print_connection_def go_connection_def Let_def plain_line_def found_names
      gc.names_prune [OF assms(2)] destination_key_def)

lemma handle_event_names:
  assumes m: "event_record_ok m" and inv: "cache_inv uf (app_cache app)"
    and n: "n \<in> set (names_of (app_cache (fst (handle_event unpack uf app m))) k)"
  shows "n \<in> set (names_of (app_cache app) k) \<or>
    learned_by unpack uf (app_containerID app) (app_noDNS app) m k n"
proof -
  from m consider e where "connect_event_ok e" and "m = connection_image e"
    | e where "dns_event_ok e" and "m = dns_packet_image e"
    unfolding event_record_ok_def by blast
  then show ?thesis
  proof cases
    case (1 e)
    with n show ?thesis
      by (simp add: handle_connection print_connection_line [OF 1(1) inv] gc.names_prune [OF inv])
  next
    case (2 e)
    with n show ?thesis
      using parse_response_names [OF inv, of n unpack "app_containerID app" "dns_message e" "dp_timestamp_ns e" k]
      by (fastforce simp: handle_dns_packet learned_by_def split: if_splits)
  qed
qed

text \<open>The line of a connection record: its own fields, and live names the cache holds.\<close>

definition line_for ::
  "dns_name list \<Rightarrow> connection_event \<Rightarrow> connect_line" where
  "line_for ns e = (plain_line e)\<lparr>cl_hostnames :=
     map nm_value (filter (\<lambda>n. ce_timestamp_ns e < nm_expires n) ns)\<rparr>"

lemma handle_event_output:
  assumes m: "event_record_ok m" and inv: "cache_inv uf (app_cache app)"
  shows "(\<exists>e. connect_event_ok e \<and> m = connection_image e \<and>
      snd (handle_event unpack uf app m) =
        Some (line_for (names_of (app_cache app) (destination_key (app_containerID app) e)) e)) \<or>
    (\<exists>e. dns_event_ok e \<and> m = dns_packet_image e \<and> snd (handle_event unpack uf app m) = None)"
proof -
  from m consider e where "connect_event_ok e" and "m = connection_image e"
    | e where "dns_event_ok e" and "m = dns_packet_image e"
    unfolding event_record_ok_def by blast
  then show ?thesis
  proof cases
    case (1 e)
    then have "snd (handle_event unpack uf app m) =
        Some (line_for (names_of (app_cache app) (destination_key (app_containerID app) e)) e)"
      by (simp add: handle_connection print_connection_line [OF 1(1) inv] line_for_def)
    with 1 show ?thesis by blast
  next
    case (2 e)
    then have "snd (handle_event unpack uf app m) = None" by (simp add: handle_dns_packet)
    with 2 show ?thesis by blast
  qed
qed

section \<open>The ring as a growing log\<close>

locale record_log =
  fixes step :: "'s \<Rightarrow> 's \<Rightarrow> bool"
    and log :: "'s \<Rightarrow> 'r list"
    and good :: "'r \<Rightarrow> bool"
  assumes log_grows: "step s s' \<Longrightarrow> \<exists>ms. log s' = log s @ ms"
    and log_good: "step s s' \<Longrightarrow> \<forall>m \<in> set (log s). good m \<Longrightarrow> \<forall>m \<in> set (log s'). good m"
begin

lemma log_length: "step s s' \<Longrightarrow> length (log s) \<le> length (log s')"
  using log_grows by fastforce

text \<open>What a reader has seen does not change under it.\<close>

lemma log_prefix: "step s s' \<Longrightarrow> i \<le> length (log s) \<Longrightarrow> take i (log s') = take i (log s)"
  using log_grows by fastforce

lemma log_steps_good: "step\<^sup>*\<^sup>* s s' \<Longrightarrow> \<forall>m \<in> set (log s). good m \<Longrightarrow> \<forall>m \<in> set (log s'). good m"
  by (induction rule: rtranclp_induct) (auto dest: log_good)

lemma log_steps_prefix:
  "step\<^sup>*\<^sup>* s s' \<Longrightarrow> i \<le> length (log s) \<Longrightarrow>
     i \<le> length (log s') \<and> take i (log s') = take i (log s)"
proof (induction rule: rtranclp_induct)
  case (step s' s'')
  then show ?case using log_prefix [OF step(2)] log_length [OF step(2)] by auto
qed simp

end

interpretation kernel_log: record_log "\<lambda>s s'. \<exists>r. kstep s r s'" ks_events event_record_ok
  by unfold_locales (use kstep_appends kstep_ring_ok in \<open>fastforce simp: ring_ok_def\<close>)+

section \<open>Properties\<close>

text \<open>
  Whatever bytes a ring-buffer record holds, handling it keeps the cache well formed and never
  changes the container or the no-DNS setting.
\<close>

theorem any_record_handled_safely:
  assumes "cache_inv uf (app_cache app)"
  shows "cache_inv uf (app_cache (fst (handle_event unpack uf app data))) \<and>
    app_containerID (fst (handle_event unpack uf app data)) = app_containerID app \<and>
    app_noDNS (fst (handle_event unpack uf app data)) = app_noDNS app"
  by (simp add: handle_event_inv [OF assms])

theorem any_record_handled_safely_witness:
  "cache_inv no_unicode (app_cache (fst (handle_event sample_unpack no_unicode
     \<lparr>app_cache = sample_full, app_containerID = 7, app_noDNS = False\<rparr> [2, 0, 0, 0, 9])))"
  using any_record_handled_safely [of no_unicode "\<lparr>app_cache = sample_full, app_containerID = 7, app_noDNS = False\<rparr>"]
  by (simp add: sample_full_inv)

lemma sample_captured: "captured_record sample_env 3 1 sample_packet =
    Some (dns_record sample_env 3 1 (replicate 1256 0) AF_INET 20 16 sample_packet)"
  by (simp add: captured_record_def sample_classify sample_env_reserve DNS_CAPTURE_MAX_def)

text \<open>
  A submitted DNS record prints nothing; it reaches the parser, with exactly its captured bytes
  and its timestamp, if DNS is on, the message was captured whole and has the response bit, and is
  otherwise dropped without any change.
\<close>

theorem dns_record_outcome:
  assumes "dns_event_ok e"
  shows "handle_event unpack uf app (dns_packet_image e) =
    (if \<not> app_noDNS app \<and> dp_captured_len e = dp_message_len e \<and> dns_message e ! 2 AND 0x80 \<noteq> 0
     then (app\<lparr>app_cache := fst (parse_response unpack uf (app_cache app) (app_containerID app)
             (dns_message e) (dp_timestamp_ns e))\<rparr>, None)
     else (app, None))"
proof -
  have "12 \<le> unat (dp_captured_len e)" and "unat (dp_captured_len e) \<le> length (dp_payload e)"
    using assms by (auto simp: dns_event_ok_def wf_dns_packet_event_def proto_defs DNS_CAPTURE_MAX_def)
  then have "3 \<le> length (dns_message e)" by (simp add: dns_message_def)
  then show ?thesis by (simp add: handle_dns_packet [OF assms] learns_def dns_response_def)
qed

theorem dns_record_outcome_witness:
  "handle_event sample_unpack no_unicode \<lparr>app_cache = sample_full, app_containerID = 7, app_noDNS = True\<rparr>
     (dns_packet_image (dns_record sample_env 3 1 (replicate 1256 0) AF_INET 20 16 sample_packet)) =
   (\<lparr>app_cache = sample_full, app_containerID = 7, app_noDNS = True\<rparr>, None)"
  by (subst dns_record_outcome [OF captured_record_dns_ok [OF sample_env_ok sample_captured]]) simp

text \<open>
  A submitted connection record always prints one line with its own fields and, as hostnames, the
  names the cache holds for its destination that have not expired at its timestamp; names due by
  then are removed from the cache.
\<close>

theorem connection_record_outcome:
  assumes "connect_event_ok e" and "cache_inv uf (app_cache app)"
  shows "handle_event unpack uf app (connection_image e) =
    (app\<lparr>app_cache := cache_prune (app_cache app) (ce_timestamp_ns e)\<rparr>,
     Some (line_for (names_of (app_cache app) (destination_key (app_containerID app) e)) e))"
  by (simp add: handle_connection [OF assms(1)] print_connection_line [OF assms] line_for_def)

theorem connection_record_outcome_witness:
  "snd (handle_event sample_unpack no_unicode \<lparr>app_cache = sample_empty, app_containerID = 7, app_noDNS = False\<rparr>
     (connection_image (connect_record sample_env sample_ctx 6 AF_INET))) =
   Some (plain_line (connect_record sample_env sample_ctx 6 AF_INET))"
proof -
  let ?e = "connect_record sample_env sample_ctx 6 AF_INET"
  have e: "connect_event_ok ?e" by (rule connect_record_ok [OF sample_env_ok]) simp
  have c: "cache_inv no_unicode (app_cache \<lparr>app_cache = sample_empty, app_containerID = 7, app_noDNS = False\<rparr>)"
    by (simp add: sample_empty_inv)
  have "names_of sample_empty k = []" for k
    by (simp add: names_of_def abs_cache_def abs_entries_def sample_empty_def)
  then show ?thesis
    by (simp add: connection_record_outcome [OF e c] line_for_def plain_line_def)
qed

lemma foldl_sum: "foldl (+) (a :: u64) xs = a + sum_list xs"
  by (induction xs arbitrary: a) (simp_all add: add.assoc)

lemma print_counters_nine:
  "print_counters lookup = map (\<lambda>key. (counter_names ! key, counter_total (lookup key))) [0, 1, 2, 3, 4, 5, 6, 7, 8]"
  by (simp add: print_counters_def counter_names_def numeral_eq_Suc)

lemma counter_total_sum: "counter_total (Some (map f [0..<n])) = (\<Sum>cpu<n. f cpu)"
  by (simp add: counter_total_def foldl_sum sum_list_sum_nth atLeast0LessThan)

text \<open>
  At shutdown one line per counter is reported, in the order of the kernel's counter numbers, each
  with the sum over all CPUs of that counter.
\<close>

theorem counters_report_all_cpus:
  "print_counters (\<lambda>key. Some (map (\<lambda>cpu. ks_counters s cpu key) [0..<cpus])) =
     map (\<lambda>c. (counter_names ! counter_num c, \<Sum>cpu<cpus. ks_counters s cpu (counter_num c)))
       [CNT_RINGBUF_FAIL, CNT_BAD_L3, CNT_BAD_IPV4, CNT_IPV4_FRAGMENT, CNT_IPV6_EXT, CNT_BAD_UDP,
        CNT_DNS_SHORT, CNT_DNS_TRUNCATED, CNT_DNS_TCP_SEEN] \<and>
   length (print_counters (\<lambda>key. None)) = counter_num CNT_MAX"
  by (simp add: print_counters_nine counter_total_sum)

text \<open>
  C21. Every record the programs can submit is decoded by main.go to the same field values, with
  the four bytes of C tail padding of a connection record left unread, and no two connection
  records have the same bytes.
\<close>

theorem record_round_trips:
  assumes "wf_connection_event e" and "wf_dns_packet_event d"
  shows "read_connection_event (connection_image e) = Some (go_connection e) \<and>
    read_dns_packet_event (dns_packet_image d) = Some (go_dns_packet d) \<and>
    (\<forall>e'. wf_connection_event e' \<longrightarrow> connection_image e' = connection_image e \<longrightarrow> e' = e)"
proof (intro conjI allI impI)
  show "read_connection_event (connection_image e) = Some (go_connection e)"
    by (rule read_connection_image [OF assms(1)])
  show "read_dns_packet_event (dns_packet_image d) = Some (go_dns_packet d)"
    by (rule read_dns_packet_image [OF assms(2)])
next
  fix e' assume "wf_connection_event e'" and "connection_image e' = connection_image e"
  with read_connection_image [OF assms(1)] read_connection_image [of e'] have "go_connection e' = go_connection e"
    by simp
  then show "e' = e" by (cases e; cases e') (simp add: go_connection_def)
qed

theorem record_round_trips_witness:
  "read_connection_event (connection_image (connect_record sample_env sample_ctx 6 AF_INET)) =
     Some (go_connection (connect_record sample_env sample_ctx 6 AF_INET)) \<and>
   read_dns_packet_event (dns_packet_image (dns_packet_of_memory (replicate 1256 0))) =
     Some (go_dns_packet (dns_packet_of_memory (replicate 1256 0)))"
proof -
  have "wf_dns_packet_event (dns_packet_of_memory (replicate 1256 0))"
    by (simp add: wf_dns_packet_event_def dns_packet_of_memory_def DNS_CAPTURE_MAX_def)
  from record_round_trips [OF wf_connect_record [OF sample_env_ok] this] show ?thesis by blast
qed

end
