(* ===== verification/NetmonSystem.thy ===== *)
theory NetmonSystem
  imports NetmonPipeline
begin

text \<open>
  The running program: six eBPF programs appending to the ring and counting, and the poll loop of
  main.go taking one record after the other. \<open>sys_step\<close> interleaves them in any order;
  \<open>reachable\<close> are the states that can occur after the cache has been made.
\<close>

section \<open>The step relation\<close>

record system =
  sy_kernel :: kstate
  sy_read :: nat
  sy_app :: app
  sy_last :: u64
  sy_printed :: "connect_line list"

definition emitted :: "connect_line option \<Rightarrow> connect_line list" where
  "emitted out = (case out of None \<Rightarrow> [] | Some l \<Rightarrow> [l])"

lemma emitted_simps [simp]: "emitted None = []" "emitted (Some l) = [l]"
  by (simp_all add: emitted_def)

inductive sys_step ::
  "unpacker \<Rightarrow> (string \<Rightarrow> string \<Rightarrow> bool) \<Rightarrow> system \<Rightarrow> system \<Rightarrow> bool"
  for unpack uf where
  sys_kernel: "kstep (sy_kernel x) r k \<Longrightarrow> sys_step unpack uf x (x\<lparr>sy_kernel := k\<rparr>)"
| sys_read: "sy_read x < length (ks_events (sy_kernel x)) \<Longrightarrow>
     poll_iteration unpack uf (sy_app x) (sy_last x) False
       (ReadOk (ks_events (sy_kernel x) ! sy_read x)) now verify = Inr (a, last', out) \<Longrightarrow>
     sys_step unpack uf x (x\<lparr>sy_read := Suc (sy_read x), sy_app := a, sy_last := last',
       sy_printed := sy_printed x @ emitted out\<rparr>)"
| sys_idle: "r \<in> {ReadDeadline, ReadClosed} \<Longrightarrow>
     poll_iteration unpack uf (sy_app x) (sy_last x) False r now verify = Inr (a, last', out) \<Longrightarrow>
     sys_step unpack uf x (x\<lparr>sy_app := a, sy_last := last', sy_printed := sy_printed x @ emitted out\<rparr>)"

definition initial :: "cache \<Rightarrow> u64 \<Rightarrow> bool \<Rightarrow> u64 \<Rightarrow> system" where
  "initial c cid noDNS now = \<lparr>
     sy_kernel = \<lparr>ks_events = [], ks_counters = \<lambda>_ _. 0\<rparr>, sy_read = 0,
     sy_app = \<lparr>app_cache = c, app_containerID = cid, app_noDNS = noDNS\<rparr>,
     sy_last = now, sy_printed = []\<rparr>"

inductive reachable ::
  "unpacker \<Rightarrow> (string \<Rightarrow> string \<Rightarrow> bool) \<Rightarrow> u64 \<Rightarrow> bool \<Rightarrow> system \<Rightarrow> bool"
  for unpack uf cid noDNS where
  reachable_init: "cache_new cap = Some c \<Longrightarrow> reachable unpack uf cid noDNS (initial c cid noDNS now)"
| reachable_step: "reachable unpack uf cid noDNS x \<Longrightarrow> sys_step unpack uf x y \<Longrightarrow>
     reachable unpack uf cid noDNS y"

section \<open>One iteration of the poll loop\<close>

text \<open>An iteration that goes on handles the record and then possibly expires old names.\<close>

definition maintained :: "u64 \<Rightarrow> u64 \<Rightarrow> app \<Rightarrow> app" where
  "maintained last' now a =
     (if now - last' < 30000000000 then a else a\<lparr>app_cache := cache_prune (app_cache a) now\<rparr>)"

lemma poll_read:
  assumes "poll_iteration unpack uf app last' False (ReadOk m) now verify = Inr (a, last'', out)"
  shows "a = maintained last' now (fst (handle_event unpack uf app m))"
    and "out = snd (handle_event unpack uf app m)"
  using assms by (auto simp: poll_iteration_def maintained_def Let_def split: if_splits prod.splits)

lemma poll_idle:
  assumes "poll_iteration unpack uf app last' False r now verify = Inr (a, last'', out)"
    and "r \<in> {ReadDeadline, ReadClosed}"
  shows "a = maintained last' now app" and "out = None"
  using assms by (auto simp: poll_iteration_def maintained_def Let_def split: if_splits)

lemma maintained_app [simp]:
  "app_containerID (maintained last' now a) = app_containerID a"
  "app_noDNS (maintained last' now a) = app_noDNS a"
  by (simp_all add: maintained_def)

lemma maintained_inv [inv_intros]:
  "cache_inv uf (app_cache a) \<Longrightarrow> cache_inv uf (app_cache (maintained last' now a))"
  by (simp add: maintained_def gc.inv_prune)

lemma maintained_names:
  "cache_inv uf (app_cache a) \<Longrightarrow>
     set (names_of (app_cache (maintained last' now a)) k) \<subseteq> set (names_of (app_cache a) k)"
  by (simp add: maintained_def gc.names_prune_subset)

section \<open>The invariant\<close>

definition consumed :: "system \<Rightarrow> u8 list list" where
  "consumed x = take (sy_read x) (ks_events (sy_kernel x))"

text \<open>Every name in the cache has been learned from a record already read.\<close>

definition names_learned ::
  "unpacker \<Rightarrow> (string \<Rightarrow> string \<Rightarrow> bool) \<Rightarrow> u64 \<Rightarrow> bool \<Rightarrow> u8 list list \<Rightarrow> cache \<Rightarrow> bool" where
  "names_learned unpack uf cid noDNS ms c \<longleftrightarrow>
     (\<forall>k n. n \<in> set (names_of c k) \<longrightarrow> (\<exists>m \<in> set ms. learned_by unpack uf cid noDNS m k n))"

text \<open>
  A printed line and the connection record it stands for: the same fields, and each hostname
  learned for the record's destination from an earlier record and not yet expired, at most eight.
\<close>

definition line_explained ::
  "unpacker \<Rightarrow> (string \<Rightarrow> string \<Rightarrow> bool) \<Rightarrow> u64 \<Rightarrow> bool \<Rightarrow> u8 list list \<Rightarrow> connect_line \<Rightarrow> bool" where
  "line_explained unpack uf cid noDNS ms l \<longleftrightarrow>
     (\<exists>e ns. connect_event_ok e \<and> connection_image e \<in> set ms \<and> l = line_for ns e \<and>
        length ns \<le> MaxNames \<and>
        (\<forall>n \<in> set ns. \<exists>m \<in> set ms. learned_by unpack uf cid noDNS m (destination_key cid e) n))"

definition connection_of_record :: "u8 list \<Rightarrow> connection_event option" where
  "connection_of_record m = (if word_le (take 4 m) = (1 :: u32) \<and> 80 \<le> length m
     then Some \<lparr>ce_kind = word_le (subrange 0 4 m), ce_pad = word_le (subrange 4 4 m),
       ce_timestamp_ns = word_le (subrange 8 8 m), ce_cgroup_id = word_le (subrange 16 8 m),
       ce_pid = word_le (subrange 24 4 m), ce_tid = word_le (subrange 28 4 m),
       ce_uid = word_le (subrange 32 4 m), ce_family = word_le (subrange 36 2 m),
       ce_protocol = word_le (subrange 38 1 m), ce_pad2 = word_le (subrange 39 1 m),
       ce_destination_port = word_le (subrange 40 2 m), ce_pad3 = word_le (subrange 42 2 m),
       ce_destination = subrange 44 16 m, ce_comm = subrange 60 16 m\<rparr>
     else None)"

lemma connection_of_connection:
  "connect_event_ok e \<Longrightarrow> connection_of_record (connection_image e) = Some e"
proof -
  assume ok: "connect_event_ok e"
  then have "wf_connection_event e" by (simp add: connect_event_ok_def)
  moreover from ok have "ce_kind e = 1" by (simp add: connect_event_ok_def)
  ultimately show ?thesis
    by (simp add: connection_of_record_def)
      (simp add: connection_image_def connection_fields_def subrange_skip wire_simps
        wf_connection_event_def TASK_COMM_LEN_def)
qed

lemma connection_of_dns: "dns_event_ok e \<Longrightarrow> connection_of_record (dns_packet_image e) = None"
  by (simp add: connection_of_record_def dns_event_ok_def)

definition without_names :: "connect_line \<Rightarrow> connect_line" where
  "without_names l = l\<lparr>cl_hostnames := []\<rparr>"

lemma without_names_line [simp]: "without_names (line_for ns e) = plain_line e"
  by (simp add: without_names_def line_for_def plain_line_def)

lemma names_learned_mono:
  "names_learned unpack uf cid noDNS ms c \<Longrightarrow> set ms \<subseteq> set ms' \<Longrightarrow>
   (\<And>k. set (names_of c' k) \<subseteq> set (names_of c k)) \<Longrightarrow> names_learned unpack uf cid noDNS ms' c'"
  unfolding names_learned_def by blast

lemma line_explained_mono:
  "line_explained unpack uf cid noDNS ms l \<Longrightarrow> set ms \<subseteq> set ms' \<Longrightarrow>
   line_explained unpack uf cid noDNS ms' l"
  unfolding line_explained_def by blast

definition sys_inv ::
  "unpacker \<Rightarrow> (string \<Rightarrow> string \<Rightarrow> bool) \<Rightarrow> u64 \<Rightarrow> bool \<Rightarrow> system \<Rightarrow> bool" where
  "sys_inv unpack uf cid noDNS x \<longleftrightarrow>
     ring_ok (sy_kernel x) \<and> sy_read x \<le> length (ks_events (sy_kernel x)) \<and>
     cache_inv uf (app_cache (sy_app x)) \<and>
     app_containerID (sy_app x) = cid \<and> app_noDNS (sy_app x) = noDNS \<and>
     names_learned unpack uf cid noDNS (consumed x) (app_cache (sy_app x)) \<and>
     (\<forall>l \<in> set (sy_printed x). line_explained unpack uf cid noDNS (consumed x) l) \<and>
     map without_names (sy_printed x) =
       map plain_line (List.map_filter connection_of_record (consumed x))"

lemma sys_inv_init:
  assumes "cache_new cap = Some c"
  shows "sys_inv unpack uf cid noDNS (initial c cid noDNS now)"
proof -
  have "names_of c k = []" for k
    using assms by (auto simp: cache_new_def names_of_def abs_cache_def abs_entries_def split: if_splits)
  then show ?thesis
    using cache_new_inv [OF assms, of uf]
    by (simp add: sys_inv_def initial_def ring_ok_def consumed_def names_learned_def map_filter_simps)
qed

lemma sys_inv_kernel:
  assumes inv: "sys_inv unpack uf cid noDNS x" and k: "kstep (sy_kernel x) r k"
  shows "sys_inv unpack uf cid noDNS (x\<lparr>sy_kernel := k\<rparr>)"
proof -
  have step: "\<exists>r. kstep (sy_kernel x) r k" using k by blast
  have read: "sy_read x \<le> length (ks_events (sy_kernel x))" using inv by (simp add: sys_inv_def)
  have "consumed (x\<lparr>sy_kernel := k\<rparr>) = consumed x"
    using kernel_log.log_prefix [OF step read] by (simp add: consumed_def)
  moreover have "sy_read x \<le> length (ks_events k)"
    using kernel_log.log_length [OF step] read by simp
  ultimately show ?thesis
    using inv kstep_ring_ok [OF k] by (simp add: sys_inv_def)
qed

lemma sys_inv_idle:
  assumes inv: "sys_inv unpack uf cid noDNS x"
  shows "sys_inv unpack uf cid noDNS (x\<lparr>sy_app := maintained l now (sy_app x), sy_last := l'\<rparr>)"
proof -
  let ?a = "maintained l now (sy_app x)"
  have c: "cache_inv uf (app_cache (sy_app x))" using inv by (simp add: sys_inv_def)
  have "names_learned unpack uf cid noDNS (consumed x) (app_cache ?a)"
    using inv by (intro names_learned_mono [OF _ subset_refl maintained_names [OF c]])
      (simp add: sys_inv_def)
  then show ?thesis using inv maintained_inv [OF c] by (simp add: sys_inv_def consumed_def)
qed

lemma names_learned_handle:
  assumes "names_learned unpack uf (app_containerID a) (app_noDNS a) ms (app_cache a)"
    and "event_record_ok m" and "cache_inv uf (app_cache a)"
  shows "names_learned unpack uf (app_containerID a) (app_noDNS a) (ms @ [m])
    (app_cache (fst (handle_event unpack uf a m)))"
  using assms(1) handle_event_names [OF assms(2,3)] unfolding names_learned_def by fastforce

lemma lines_explained_handle:
  assumes names: "names_learned unpack uf (app_containerID a) (app_noDNS a) ms (app_cache a)"
    and m: "event_record_ok m" and inv: "cache_inv uf (app_cache a)"
  shows "(\<forall>l \<in> set (emitted (snd (handle_event unpack uf a m))).
      line_explained unpack uf (app_containerID a) (app_noDNS a) (ms @ [m]) l) \<and>
    map without_names (emitted (snd (handle_event unpack uf a m))) =
      map plain_line (List.map_filter connection_of_record [m])"
  using handle_event_output [OF m inv, of unpack]
proof (elim disjE exE conjE)
  fix e
  let ?ns = "names_of (app_cache a) (destination_key (app_containerID a) e)"
  assume e: "connect_event_ok e" and me: "m = connection_image e"
    and out: "snd (handle_event unpack uf a m) = Some (line_for ?ns e)"
  have "line_explained unpack uf (app_containerID a) (app_noDNS a) (ms @ [m]) (line_for ?ns e)"
    using e me names gc.names_bound [OF inv] unfolding line_explained_def names_learned_def
    by (intro exI [of _ e] exI [of _ ?ns]) (auto simp del: split_paired_All)
  then show ?thesis
    by (simp add: out) (simp add: me connection_of_connection [OF e] map_filter_simps)
next
  fix e
  assume "dns_event_ok e" and "m = dns_packet_image e" and "snd (handle_event unpack uf a m) = None"
  then show ?thesis by (simp add: connection_of_dns map_filter_simps)
qed

lemma map_filter_append: "List.map_filter f (xs @ ys) = List.map_filter f xs @ List.map_filter f ys"
  by (simp add: List.map_filter_def)

lemma sys_inv_read:
  assumes inv: "sys_inv unpack uf cid noDNS x" and more: "sy_read x < length (ks_events (sy_kernel x))"
  defines "m \<equiv> ks_events (sy_kernel x) ! sy_read x"
  defines "h \<equiv> handle_event unpack uf (sy_app x) m"
  shows "sys_inv unpack uf cid noDNS (x\<lparr>sy_read := Suc (sy_read x), sy_app := fst h,
    sy_last := l, sy_printed := sy_printed x @ emitted (snd h)\<rparr>)" (is "sys_inv _ _ _ _ ?y")
proof -
  have con: "consumed ?y = consumed x @ [m]"
    using more by (simp add: consumed_def m_def take_Suc_conv_app_nth)
  have m: "event_record_ok m" using inv more by (simp add: sys_inv_def ring_ok_def m_def)
  have c: "cache_inv uf (app_cache (sy_app x))" and cid: "app_containerID (sy_app x) = cid"
    and dns: "app_noDNS (sy_app x) = noDNS"
    and names: "names_learned unpack uf cid noDNS (consumed x) (app_cache (sy_app x))"
    and lines: "\<forall>l \<in> set (sy_printed x). line_explained unpack uf cid noDNS (consumed x) l"
    using inv by (simp_all add: sys_inv_def)
  have names': "names_learned unpack uf cid noDNS (consumed ?y) (app_cache (fst h))"
    using names_learned_handle [OF _ m c, of unpack "consumed x"] names
    unfolding con unfolding h_def cid dns by blast
  have new: "(\<forall>l \<in> set (emitted (snd h)). line_explained unpack uf cid noDNS (consumed ?y) l) \<and>
      map without_names (emitted (snd h)) = map plain_line (List.map_filter connection_of_record [m])"
    using lines_explained_handle [OF _ m c, of unpack "consumed x"] names
    unfolding con unfolding h_def cid dns by blast
  have old: "\<forall>l \<in> set (sy_printed x). line_explained unpack uf cid noDNS (consumed ?y) l"
    using lines line_explained_mono [of unpack uf cid noDNS "consumed x" _ "consumed ?y"]
    unfolding con by auto
  have "map without_names (sy_printed ?y) = map plain_line (List.map_filter connection_of_record (consumed ?y))"
    using inv new unfolding con map_filter_append by (simp add: sys_inv_def)
  then show ?thesis
    using inv more names' new old handle_event_inv [OF c] cid dns
    unfolding sys_inv_def h_def by auto
qed

theorem sys_step_inv:
  assumes "sys_step unpack uf x y" and inv: "sys_inv unpack uf cid noDNS x"
  shows "sys_inv unpack uf cid noDNS y"
  using assms(1)
proof cases
  case (sys_kernel r k)
  then show ?thesis using sys_inv_kernel [OF inv] by simp
next
  case (sys_read now verify a last' out)
  note out = poll_read [OF sys_read(3)]
  have "sys_inv unpack uf cid noDNS (x\<lparr>sy_read := Suc (sy_read x),
      sy_app := fst (handle_event unpack uf (sy_app x) (ks_events (sy_kernel x) ! sy_read x)),
      sy_last := last', sy_printed := sy_printed x @ emitted out\<rparr>)"
    using sys_inv_read [OF inv sys_read(2)] by (simp add: out(2))
  from sys_inv_idle [OF this, where l = "sy_last x" and now = now and l' = last'] show ?thesis
    unfolding sys_read(1) out(1) by (cases x) simp
next
  case (sys_idle r now verify a last' out)
  then show ?thesis
    using sys_inv_idle [OF inv, where l = "sy_last x" and now = now and l' = last'] poll_idle [OF sys_idle(3,2)] by simp
qed

lemma reachable_inv: "reachable unpack uf cid noDNS x \<Longrightarrow> sys_inv unpack uf cid noDNS x"
  by (induction rule: reachable.induct) (blast intro: sys_inv_init sys_step_inv)+

lemma line_explained_bound:
  "line_explained unpack uf cid noDNS ms l \<Longrightarrow> length (cl_hostnames l) \<le> 8"
proof -
  assume "line_explained unpack uf cid noDNS ms l"
  then obtain ns e where "l = line_for ns e" and "length ns \<le> MaxNames"
    by (auto simp: line_explained_def)
  then show ?thesis
    by (auto simp: line_for_def MaxNames_def intro: order_trans [OF length_filter_le])
qed

lemma line_explained_noDNS: "line_explained unpack uf cid True ms l \<Longrightarrow> cl_hostnames l = []"
  by (auto simp: line_explained_def line_for_def learned_by_def learns_def)

lemma poll_stops:
  "(\<exists>z. poll_iteration unpack uf app last' signal r now verify = Inl z) \<longleftrightarrow>
     signal \<or> (\<exists>m. r = ReadFailed m) \<or> 30000000000 \<le> now - last' \<and> \<not> verify"
  by (cases r) (auto simp: poll_iteration_def Let_def not_less split: prod.split)

lemma poll_inr:
  "poll_iteration unpack uf app last' signal r now verify = Inr (a, l, out) \<Longrightarrow>
     a = maintained last' now (case r of ReadOk m \<Rightarrow> fst (handle_event unpack uf app m) | _ \<Rightarrow> app) \<and>
     l = (if now - last' < 30000000000 then last' else now)"
  by (cases r) (auto simp: poll_iteration_def maintained_def Let_def split: if_splits prod.splits)

lemma poll_continues:
  assumes inv: "cache_inv uf (app_cache app)"
    and p: "poll_iteration unpack uf app last' signal r now verify = Inr (a, l, out)"
  shows "cache_inv uf (app_cache a) \<and> (if now - last' < 30000000000 then l = last'
    else l = now \<and> (\<forall>k. \<forall>n \<in> set (names_of (app_cache a) k). now < nm_expires n))"
proof -
  let ?b = "case r of ReadOk m \<Rightarrow> fst (handle_event unpack uf app m) | _ \<Rightarrow> app"
  have b: "cache_inv uf (app_cache ?b)"
    using inv handle_event_inv [OF inv] by (simp split: read_result.split)
  show ?thesis
    using poll_inr [OF p] maintained_inv [OF b] gc.names_live [OF b]
    by (auto simp: maintained_def)
qed

section \<open>Progress\<close>

text \<open>As long as a record is unread, an iteration can take it; so all of them can be taken.\<close>

lemma read_enabled:
  assumes "sy_read x < length (ks_events (sy_kernel x))"
  shows "\<exists>y. sys_step unpack uf x y \<and> sy_kernel y = sy_kernel x \<and> sy_read y = Suc (sy_read x)"
proof -
  let ?m = "ks_events (sy_kernel x) ! sy_read x"
  have "poll_iteration unpack uf (sy_app x) (sy_last x) False (ReadOk ?m) (sy_last x) True =
      Inr (fst (handle_event unpack uf (sy_app x) ?m), sy_last x, snd (handle_event unpack uf (sy_app x) ?m))"
    by (simp add: poll_iteration_def word_less_nat_alt split: prod.split)
  from sys_read [OF assms this] show ?thesis by (intro exI conjI) (assumption, simp_all)
qed

lemma drain:
  assumes "sy_read x \<le> length (ks_events (sy_kernel x))"
  shows "\<exists>y. (sys_step unpack uf)\<^sup>*\<^sup>* x y \<and> sy_kernel y = sy_kernel x \<and>
    sy_read y = length (ks_events (sy_kernel x))"
  using assms
proof (induction "length (ks_events (sy_kernel x)) - sy_read x" arbitrary: x)
  case 0
  then show ?case by (intro exI [of _ x]) simp
next
  case (Suc d)
  then have "sy_read x < length (ks_events (sy_kernel x))" by simp
  then obtain y where y: "sys_step unpack uf x y" "sy_kernel y = sy_kernel x" "sy_read y = Suc (sy_read x)"
    using read_enabled by blast
  with Suc.hyps(2) Suc.prems have "d = length (ks_events (sy_kernel y)) - sy_read y"
    and "sy_read y \<le> length (ks_events (sy_kernel y))" by simp_all
  from Suc.hyps(1) [OF this] y show ?case by (metis converse_rtranclp_into_rtranclp)
qed

section \<open>A run\<close>

text \<open>
  One complete run on concrete data: a DNS response arrives and is read, then a process connects
  to the address it answered with and the connection record is read.
\<close>

definition run_cache :: cache where
  "run_cache = \<lparr>ca_entries = [], ca_capacity = 4\<rparr>"

definition run_dns :: dns_packet_event where
  "run_dns = dns_record sample_env 3 1 (replicate 1256 0) AF_INET 20 16 sample_packet"

definition run_ctx :: bpf_sock_addr where
  "run_ctx = sample_ctx\<lparr>sa_user_ip4 := 0x0100000a\<rparr>"

definition run_connection :: connection_event where
  "run_connection = connect_record sample_env run_ctx 6 AF_INET"

definition run_learned :: cache where
  "run_learned = \<lparr>ca_entries = [\<lparr>en_container = 7, en_family = 2,
     en_address = [10, 0, 0, 1] @ replicate 12 0,
     en_names = [\<lparr>nm_value = ''host.example'', nm_expires = 60000001000\<rparr>,
       \<lparr>nm_value = ''www.example'', nm_expires = 20000001000\<rparr>],
     en_touched = 1000\<rparr>], ca_capacity = 4\<rparr>"

definition run_app :: "cache \<Rightarrow> app" where
  "run_app c = \<lparr>app_cache = c, app_containerID = 7, app_noDNS = False\<rparr>"

lemma run_dns_ok: "dns_event_ok run_dns"
  unfolding run_dns_def by (rule captured_record_dns_ok [OF sample_env_ok sample_captured])

lemma run_dns_message:
  "dns_message run_dns = [0, 7, 0x81, 0x80, 0, 1, 0, 1, 0, 0, 0, 0, 1, 97, 0, 0]"
  by (simp add: dns_message_def run_dns_def dns_record_def Let_def DNS_CAPTURE_MAX_def
      sample_packet_def subrange_def)

lemma run_dns_learns: "learns False run_dns"
  unfolding learns_def run_dns_message
  by (simp add: run_dns_def dns_record_def DNS_CAPTURE_MAX_def dns_response_def)

lemma run_parse:
  "12 \<le> length message \<Longrightarrow>
     fst (parse_response sample_unpack no_unicode run_cache 7 message 1000) = run_learned"
  by (simp add: parse_response_def sample_unpack_def sample_answer_def run_cache_def run_learned_def
      insert_address_def cache_put_def clean_name_def addr_size_def MaxHostname_def
      cache_find_index_def entry_matches_def claim_slot_def zero_entry_def put_name_def expiry_def
      MaxNames_def Let_def to4_def equal_fold_clean_def lower_def fold_eq_ascii_def)

lemma run_dns_handled:
  "handle_event sample_unpack no_unicode (run_app run_cache) (dns_packet_image run_dns) =
     (run_app run_learned, None)"
proof -
  have t: "dp_timestamp_ns run_dns = 1000"
    by (simp add: run_dns_def dns_record_def Let_def sample_env_def)
  show ?thesis
    using run_dns_learns
    by (simp add: handle_dns_packet [OF run_dns_ok] run_app_def t run_parse run_dns_message)
qed

lemma run_learned_inv: "cache_inv no_unicode run_learned"
proof -
  have "cache_new 4 = Some run_cache" by (simp add: cache_new_def run_cache_def)
  from cache_new_inv [OF this] have "cache_inv no_unicode (fst (parse_response sample_unpack no_unicode
      run_cache 7 (replicate 12 0) 1000))" by (rule parse_response_inv)
  then show ?thesis by (simp add: run_parse)
qed

lemma run_connection_ok: "connect_event_ok run_connection"
  unfolding run_connection_def by (rule connect_record_ok [OF sample_env_ok]) simp

text \<open>The line the run prints.\<close>

definition run_line :: connect_line where
  "run_line = (plain_line run_connection)\<lparr>cl_hostnames := [''host.example'', ''www.example'']\<rparr>"

lemma run_connection_handled:
  "handle_event sample_unpack no_unicode (run_app run_learned) (connection_image run_connection) =
     (run_app run_learned, Some run_line)"
proof -
  have inv: "cache_inv no_unicode (app_cache (run_app run_learned))"
    by (simp add: run_app_def run_learned_inv)
  have key: "destination_key 7 run_connection = (7, 2, [10, 0, 0, 1])"
    by (simp add: destination_key_def key_at_def run_connection_def connect_record_def addr_size_def
        destination_bytes_def bytes_le_4 run_ctx_def AF_INET_def)
  have t: "ce_timestamp_ns run_connection = 1000"
    by (simp add: run_connection_def connect_record_def sample_env_def)
  have "cache_prune run_learned 1000 = run_learned"
    by (simp add: cache_prune_def compact_map_filter prune_entry_def prune_names_filter run_learned_def
        map_filter_simps)
  then show ?thesis
    by (simp add: handle_connection [OF run_connection_ok] print_connection_line [OF run_connection_ok inv])
      (simp add: run_app_def key t run_line_def names_of_def abs_cache_def abs_entries_def
        run_learned_def key_of_def addr_size_def)
qed

definition run_kernel1 :: kstate where
  "run_kernel1 = fst (cgroup_ingress (packet_loader sample_packet) sample_env 3 sample_kstate)"

definition run_kernel2 :: kstate where
  "run_kernel2 = fst (connect4 sample_env run_ctx run_kernel1)"

lemma run_kernel1_events: "ks_events run_kernel1 = [dns_packet_image run_dns]"
  by (simp add: run_kernel1_def cgroup_ingress_def sample_events sample_kstate_def run_dns_def)

lemma run_kernel2_events:
  "ks_events run_kernel2 = [dns_packet_image run_dns, connection_image run_connection]"
proof -
  have "connect4 sample_env run_ctx run_kernel1 = emit_connect sample_env run_ctx 6 (of_nat AF_INET) run_kernel1"
    by (simp add: connect4_def run_ctx_def sample_ctx_def proto_defs)
  then show ?thesis
    by (simp add: run_kernel2_def emit_connect_record sample_env_reserve run_kernel1_events
        run_connection_def)
qed

lemma run_ksteps: "kstep sample_kstate 1 run_kernel1" "kstep run_kernel1 1 run_kernel2"
proof -
  show "kstep sample_kstate 1 run_kernel1" unfolding run_kernel1_def by (rule sample_kstep)
  have "kstep run_kernel1 (snd (connect4 sample_env run_ctx run_kernel1)) run_kernel2"
    unfolding run_kernel2_def by (rule kstep_connect4 [OF sample_env_ok]) simp
  moreover from this have "snd (connect4 sample_env run_ctx run_kernel1) = 1" by (rule kstep_verdict)
  ultimately show "kstep run_kernel1 1 run_kernel2" by simp
qed

definition run_state :: "kstate \<Rightarrow> nat \<Rightarrow> cache \<Rightarrow> connect_line list \<Rightarrow> system" where
  "run_state k n c ls = \<lparr>sy_kernel = k, sy_read = n, sy_app = run_app c, sy_last = 0, sy_printed = ls\<rparr>"

lemma run_reachable:
  "reachable sample_unpack no_unicode 7 False (run_state run_kernel2 (Suc 1) run_learned [run_line])"
proof -
  have "cache_new 4 = Some run_cache" by (simp add: cache_new_def run_cache_def)
  from reachable_init [OF this, of sample_unpack no_unicode 7 False 0]
  have x0: "reachable sample_unpack no_unicode 7 False (run_state sample_kstate 0 run_cache [])"
    by (simp add: initial_def run_state_def sample_kstate_def run_app_def)
  from reachable_step [OF x0 sys_kernel] run_ksteps(1)
  have x1: "reachable sample_unpack no_unicode 7 False (run_state run_kernel1 0 run_cache [])"
    by (simp add: run_state_def)
  from reachable_step [OF x1 sys_read [where now = 0 and verify = True]]
  have x2: "reachable sample_unpack no_unicode 7 False (run_state run_kernel1 1 run_learned [])"
    by (simp add: run_state_def run_kernel1_events poll_iteration_def run_dns_handled)
  from reachable_step [OF x2 sys_kernel] run_ksteps(2)
  have x3: "reachable sample_unpack no_unicode 7 False (run_state run_kernel2 1 run_learned [])"
    by (simp add: run_state_def)
  from reachable_step [OF x3 sys_read [where now = 0 and verify = True]]
  show ?thesis
    by (simp add: run_state_def run_kernel2_events poll_iteration_def run_connection_handled)
qed

lemma run_consumed:
  "consumed (run_state run_kernel2 (Suc 1) run_learned [run_line]) =
     [dns_packet_image run_dns, connection_image run_connection]"
  by (simp add: consumed_def run_state_def run_kernel2_events)

end
