(* ===== verification/VmlinuxEnums.thy ===== *)
theory VmlinuxEnums
  imports CLayout
begin

text \<open>
  The enumerations of src/src/netmon-go/bpf/vmlinux.h that belong to the eBPF interface: map,
  program, attach, link and helper numbers, the bpf(2) commands, the verifier's and the BTF
  kinds. Each definition lists the enumerators of one enum in the order of the header; an enum
  of more than 150 lines is split into consecutive parts that are appended.
\<close>

section \<open>The numbers the programs and their loader depend on\<close>

definition enum_bpf_map_type :: enumeration where
  "enum_bpf_map_type =
     [(''BPF_MAP_TYPE_UNSPEC'', 0), (''BPF_MAP_TYPE_HASH'', 1), (''BPF_MAP_TYPE_ARRAY'', 2),
       (''BPF_MAP_TYPE_PROG_ARRAY'', 3), (''BPF_MAP_TYPE_PERF_EVENT_ARRAY'', 4),
       (''BPF_MAP_TYPE_PERCPU_HASH'', 5), (''BPF_MAP_TYPE_PERCPU_ARRAY'', 6),
       (''BPF_MAP_TYPE_STACK_TRACE'', 7), (''BPF_MAP_TYPE_CGROUP_ARRAY'', 8),
       (''BPF_MAP_TYPE_LRU_HASH'', 9), (''BPF_MAP_TYPE_LRU_PERCPU_HASH'', 10),
       (''BPF_MAP_TYPE_LPM_TRIE'', 11), (''BPF_MAP_TYPE_ARRAY_OF_MAPS'', 12),
       (''BPF_MAP_TYPE_HASH_OF_MAPS'', 13), (''BPF_MAP_TYPE_DEVMAP'', 14),
       (''BPF_MAP_TYPE_SOCKMAP'', 15), (''BPF_MAP_TYPE_CPUMAP'', 16), (''BPF_MAP_TYPE_XSKMAP'',
       17), (''BPF_MAP_TYPE_SOCKHASH'', 18), (''BPF_MAP_TYPE_CGROUP_STORAGE_DEPRECATED'', 19),
       (''BPF_MAP_TYPE_CGROUP_STORAGE'', 19), (''BPF_MAP_TYPE_REUSEPORT_SOCKARRAY'', 20),
       (''BPF_MAP_TYPE_PERCPU_CGROUP_STORAGE_DEPRECATED'', 21),
       (''BPF_MAP_TYPE_PERCPU_CGROUP_STORAGE'', 21), (''BPF_MAP_TYPE_QUEUE'', 22),
       (''BPF_MAP_TYPE_STACK'', 23), (''BPF_MAP_TYPE_SK_STORAGE'', 24),
       (''BPF_MAP_TYPE_DEVMAP_HASH'', 25), (''BPF_MAP_TYPE_STRUCT_OPS'', 26),
       (''BPF_MAP_TYPE_RINGBUF'', 27), (''BPF_MAP_TYPE_INODE_STORAGE'', 28),
       (''BPF_MAP_TYPE_TASK_STORAGE'', 29), (''BPF_MAP_TYPE_BLOOM_FILTER'', 30),
       (''BPF_MAP_TYPE_USER_RINGBUF'', 31), (''BPF_MAP_TYPE_CGRP_STORAGE'', 32),
       (''BPF_MAP_TYPE_ARENA'', 33), (''BPF_MAP_TYPE_INSN_ARRAY'', 34), (''BPF_MAP_TYPE_RHASH'',
       35), (''__MAX_BPF_MAP_TYPE'', 36)]"

definition enum_bpf_prog_type :: enumeration where
  "enum_bpf_prog_type =
     [(''BPF_PROG_TYPE_UNSPEC'', 0), (''BPF_PROG_TYPE_SOCKET_FILTER'', 1),
       (''BPF_PROG_TYPE_KPROBE'', 2), (''BPF_PROG_TYPE_SCHED_CLS'', 3),
       (''BPF_PROG_TYPE_SCHED_ACT'', 4), (''BPF_PROG_TYPE_TRACEPOINT'', 5),
       (''BPF_PROG_TYPE_XDP'', 6), (''BPF_PROG_TYPE_PERF_EVENT'', 7),
       (''BPF_PROG_TYPE_CGROUP_SKB'', 8), (''BPF_PROG_TYPE_CGROUP_SOCK'', 9),
       (''BPF_PROG_TYPE_LWT_IN'', 10), (''BPF_PROG_TYPE_LWT_OUT'', 11),
       (''BPF_PROG_TYPE_LWT_XMIT'', 12), (''BPF_PROG_TYPE_SOCK_OPS'', 13),
       (''BPF_PROG_TYPE_SK_SKB'', 14), (''BPF_PROG_TYPE_CGROUP_DEVICE'', 15),
       (''BPF_PROG_TYPE_SK_MSG'', 16), (''BPF_PROG_TYPE_RAW_TRACEPOINT'', 17),
       (''BPF_PROG_TYPE_CGROUP_SOCK_ADDR'', 18), (''BPF_PROG_TYPE_LWT_SEG6LOCAL'', 19),
       (''BPF_PROG_TYPE_LIRC_MODE2'', 20), (''BPF_PROG_TYPE_SK_REUSEPORT'', 21),
       (''BPF_PROG_TYPE_FLOW_DISSECTOR'', 22), (''BPF_PROG_TYPE_CGROUP_SYSCTL'', 23),
       (''BPF_PROG_TYPE_RAW_TRACEPOINT_WRITABLE'', 24), (''BPF_PROG_TYPE_CGROUP_SOCKOPT'', 25),
       (''BPF_PROG_TYPE_TRACING'', 26), (''BPF_PROG_TYPE_STRUCT_OPS'', 27),
       (''BPF_PROG_TYPE_EXT'', 28), (''BPF_PROG_TYPE_LSM'', 29), (''BPF_PROG_TYPE_SK_LOOKUP'',
       30), (''BPF_PROG_TYPE_SYSCALL'', 31), (''BPF_PROG_TYPE_NETFILTER'', 32),
       (''__MAX_BPF_PROG_TYPE'', 33)]"

definition enum_bpf_attach_type :: enumeration where
  "enum_bpf_attach_type =
     [(''BPF_CGROUP_INET_INGRESS'', 0), (''BPF_CGROUP_INET_EGRESS'', 1),
       (''BPF_CGROUP_INET_SOCK_CREATE'', 2), (''BPF_CGROUP_SOCK_OPS'', 3),
       (''BPF_SK_SKB_STREAM_PARSER'', 4), (''BPF_SK_SKB_STREAM_VERDICT'', 5),
       (''BPF_CGROUP_DEVICE'', 6), (''BPF_SK_MSG_VERDICT'', 7), (''BPF_CGROUP_INET4_BIND'', 8),
       (''BPF_CGROUP_INET6_BIND'', 9), (''BPF_CGROUP_INET4_CONNECT'', 10),
       (''BPF_CGROUP_INET6_CONNECT'', 11), (''BPF_CGROUP_INET4_POST_BIND'', 12),
       (''BPF_CGROUP_INET6_POST_BIND'', 13), (''BPF_CGROUP_UDP4_SENDMSG'', 14),
       (''BPF_CGROUP_UDP6_SENDMSG'', 15), (''BPF_LIRC_MODE2'', 16), (''BPF_FLOW_DISSECTOR'', 17),
       (''BPF_CGROUP_SYSCTL'', 18), (''BPF_CGROUP_UDP4_RECVMSG'', 19),
       (''BPF_CGROUP_UDP6_RECVMSG'', 20), (''BPF_CGROUP_GETSOCKOPT'', 21),
       (''BPF_CGROUP_SETSOCKOPT'', 22), (''BPF_TRACE_RAW_TP'', 23), (''BPF_TRACE_FENTRY'', 24),
       (''BPF_TRACE_FEXIT'', 25), (''BPF_MODIFY_RETURN'', 26), (''BPF_LSM_MAC'', 27),
       (''BPF_TRACE_ITER'', 28), (''BPF_CGROUP_INET4_GETPEERNAME'', 29),
       (''BPF_CGROUP_INET6_GETPEERNAME'', 30), (''BPF_CGROUP_INET4_GETSOCKNAME'', 31),
       (''BPF_CGROUP_INET6_GETSOCKNAME'', 32), (''BPF_XDP_DEVMAP'', 33),
       (''BPF_CGROUP_INET_SOCK_RELEASE'', 34), (''BPF_XDP_CPUMAP'', 35), (''BPF_SK_LOOKUP'', 36),
       (''BPF_XDP'', 37), (''BPF_SK_SKB_VERDICT'', 38), (''BPF_SK_REUSEPORT_SELECT'', 39),
       (''BPF_SK_REUSEPORT_SELECT_OR_MIGRATE'', 40), (''BPF_PERF_EVENT'', 41),
       (''BPF_TRACE_KPROBE_MULTI'', 42), (''BPF_LSM_CGROUP'', 43), (''BPF_STRUCT_OPS'', 44),
       (''BPF_NETFILTER'', 45), (''BPF_TCX_INGRESS'', 46), (''BPF_TCX_EGRESS'', 47),
       (''BPF_TRACE_UPROBE_MULTI'', 48), (''BPF_CGROUP_UNIX_CONNECT'', 49),
       (''BPF_CGROUP_UNIX_SENDMSG'', 50), (''BPF_CGROUP_UNIX_RECVMSG'', 51),
       (''BPF_CGROUP_UNIX_GETPEERNAME'', 52), (''BPF_CGROUP_UNIX_GETSOCKNAME'', 53),
       (''BPF_NETKIT_PRIMARY'', 54), (''BPF_NETKIT_PEER'', 55), (''BPF_TRACE_KPROBE_SESSION'',
       56), (''BPF_TRACE_UPROBE_SESSION'', 57), (''BPF_TRACE_FSESSION'', 58),
       (''BPF_TRACE_FENTRY_MULTI'', 59), (''BPF_TRACE_FEXIT_MULTI'', 60),
       (''BPF_TRACE_FSESSION_MULTI'', 61), (''__MAX_BPF_ATTACH_TYPE'', 62)]"

definition enum_cgroup_bpf_attach_type :: enumeration where
  "enum_cgroup_bpf_attach_type =
     [(''CGROUP_BPF_ATTACH_TYPE_INVALID'', - 1), (''CGROUP_INET_INGRESS'', 0),
       (''CGROUP_INET_EGRESS'', 1), (''CGROUP_INET_SOCK_CREATE'', 2), (''CGROUP_SOCK_OPS'', 3),
       (''CGROUP_DEVICE'', 4), (''CGROUP_INET4_BIND'', 5), (''CGROUP_INET6_BIND'', 6),
       (''CGROUP_INET4_CONNECT'', 7), (''CGROUP_INET6_CONNECT'', 8), (''CGROUP_UNIX_CONNECT'',
       9), (''CGROUP_INET4_POST_BIND'', 10), (''CGROUP_INET6_POST_BIND'', 11),
       (''CGROUP_UDP4_SENDMSG'', 12), (''CGROUP_UDP6_SENDMSG'', 13), (''CGROUP_UNIX_SENDMSG'',
       14), (''CGROUP_SYSCTL'', 15), (''CGROUP_UDP4_RECVMSG'', 16), (''CGROUP_UDP6_RECVMSG'',
       17), (''CGROUP_UNIX_RECVMSG'', 18), (''CGROUP_GETSOCKOPT'', 19), (''CGROUP_SETSOCKOPT'',
       20), (''CGROUP_INET4_GETPEERNAME'', 21), (''CGROUP_INET6_GETPEERNAME'', 22),
       (''CGROUP_UNIX_GETPEERNAME'', 23), (''CGROUP_INET4_GETSOCKNAME'', 24),
       (''CGROUP_INET6_GETSOCKNAME'', 25), (''CGROUP_UNIX_GETSOCKNAME'', 26),
       (''CGROUP_INET_SOCK_RELEASE'', 27), (''CGROUP_LSM_START'', 28), (''CGROUP_LSM_END'', 37),
       (''MAX_CGROUP_BPF_ATTACH_TYPE'', 38)]"

definition enum_bpf_func_id_1 :: enumeration where
  "enum_bpf_func_id_1 =
     [(''BPF_FUNC_unspec'', 0), (''BPF_FUNC_map_lookup_elem'', 1), (''BPF_FUNC_map_update_elem'',
       2), (''BPF_FUNC_map_delete_elem'', 3), (''BPF_FUNC_probe_read'', 4),
       (''BPF_FUNC_ktime_get_ns'', 5), (''BPF_FUNC_trace_printk'', 6),
       (''BPF_FUNC_get_prandom_u32'', 7), (''BPF_FUNC_get_smp_processor_id'', 8),
       (''BPF_FUNC_skb_store_bytes'', 9), (''BPF_FUNC_l3_csum_replace'', 10),
       (''BPF_FUNC_l4_csum_replace'', 11), (''BPF_FUNC_tail_call'', 12),
       (''BPF_FUNC_clone_redirect'', 13), (''BPF_FUNC_get_current_pid_tgid'', 14),
       (''BPF_FUNC_get_current_uid_gid'', 15), (''BPF_FUNC_get_current_comm'', 16),
       (''BPF_FUNC_get_cgroup_classid'', 17), (''BPF_FUNC_skb_vlan_push'', 18),
       (''BPF_FUNC_skb_vlan_pop'', 19), (''BPF_FUNC_skb_get_tunnel_key'', 20),
       (''BPF_FUNC_skb_set_tunnel_key'', 21), (''BPF_FUNC_perf_event_read'', 22),
       (''BPF_FUNC_redirect'', 23), (''BPF_FUNC_get_route_realm'', 24),
       (''BPF_FUNC_perf_event_output'', 25), (''BPF_FUNC_skb_load_bytes'', 26),
       (''BPF_FUNC_get_stackid'', 27), (''BPF_FUNC_csum_diff'', 28),
       (''BPF_FUNC_skb_get_tunnel_opt'', 29), (''BPF_FUNC_skb_set_tunnel_opt'', 30),
       (''BPF_FUNC_skb_change_proto'', 31), (''BPF_FUNC_skb_change_type'', 32),
       (''BPF_FUNC_skb_under_cgroup'', 33), (''BPF_FUNC_get_hash_recalc'', 34),
       (''BPF_FUNC_get_current_task'', 35), (''BPF_FUNC_probe_write_user'', 36),
       (''BPF_FUNC_current_task_under_cgroup'', 37), (''BPF_FUNC_skb_change_tail'', 38),
       (''BPF_FUNC_skb_pull_data'', 39), (''BPF_FUNC_csum_update'', 40),
       (''BPF_FUNC_set_hash_invalid'', 41), (''BPF_FUNC_get_numa_node_id'', 42),
       (''BPF_FUNC_skb_change_head'', 43), (''BPF_FUNC_xdp_adjust_head'', 44),
       (''BPF_FUNC_probe_read_str'', 45), (''BPF_FUNC_get_socket_cookie'', 46),
       (''BPF_FUNC_get_socket_uid'', 47), (''BPF_FUNC_set_hash'', 48), (''BPF_FUNC_setsockopt'',
       49), (''BPF_FUNC_skb_adjust_room'', 50), (''BPF_FUNC_redirect_map'', 51),
       (''BPF_FUNC_sk_redirect_map'', 52), (''BPF_FUNC_sock_map_update'', 53),
       (''BPF_FUNC_xdp_adjust_meta'', 54), (''BPF_FUNC_perf_event_read_value'', 55),
       (''BPF_FUNC_perf_prog_read_value'', 56), (''BPF_FUNC_getsockopt'', 57),
       (''BPF_FUNC_override_return'', 58), (''BPF_FUNC_sock_ops_cb_flags_set'', 59),
       (''BPF_FUNC_msg_redirect_map'', 60), (''BPF_FUNC_msg_apply_bytes'', 61),
       (''BPF_FUNC_msg_cork_bytes'', 62), (''BPF_FUNC_msg_pull_data'', 63), (''BPF_FUNC_bind'',
       64), (''BPF_FUNC_xdp_adjust_tail'', 65), (''BPF_FUNC_skb_get_xfrm_state'', 66),
       (''BPF_FUNC_get_stack'', 67), (''BPF_FUNC_skb_load_bytes_relative'', 68),
       (''BPF_FUNC_fib_lookup'', 69), (''BPF_FUNC_sock_hash_update'', 70),
       (''BPF_FUNC_msg_redirect_hash'', 71), (''BPF_FUNC_sk_redirect_hash'', 72),
       (''BPF_FUNC_lwt_push_encap'', 73), (''BPF_FUNC_lwt_seg6_store_bytes'', 74),
       (''BPF_FUNC_lwt_seg6_adjust_srh'', 75), (''BPF_FUNC_lwt_seg6_action'', 76),
       (''BPF_FUNC_rc_repeat'', 77), (''BPF_FUNC_rc_keydown'', 78), (''BPF_FUNC_skb_cgroup_id'',
       79), (''BPF_FUNC_get_current_cgroup_id'', 80), (''BPF_FUNC_get_local_storage'', 81),
       (''BPF_FUNC_sk_select_reuseport'', 82), (''BPF_FUNC_skb_ancestor_cgroup_id'', 83),
       (''BPF_FUNC_sk_lookup_tcp'', 84), (''BPF_FUNC_sk_lookup_udp'', 85),
       (''BPF_FUNC_sk_release'', 86), (''BPF_FUNC_map_push_elem'', 87),
       (''BPF_FUNC_map_pop_elem'', 88), (''BPF_FUNC_map_peek_elem'', 89),
       (''BPF_FUNC_msg_push_data'', 90), (''BPF_FUNC_msg_pop_data'', 91),
       (''BPF_FUNC_rc_pointer_rel'', 92), (''BPF_FUNC_spin_lock'', 93),
       (''BPF_FUNC_spin_unlock'', 94), (''BPF_FUNC_sk_fullsock'', 95), (''BPF_FUNC_tcp_sock'',
       96), (''BPF_FUNC_skb_ecn_set_ce'', 97), (''BPF_FUNC_get_listener_sock'', 98),
       (''BPF_FUNC_skc_lookup_tcp'', 99), (''BPF_FUNC_tcp_check_syncookie'', 100),
       (''BPF_FUNC_sysctl_get_name'', 101), (''BPF_FUNC_sysctl_get_current_value'', 102),
       (''BPF_FUNC_sysctl_get_new_value'', 103), (''BPF_FUNC_sysctl_set_new_value'', 104),
       (''BPF_FUNC_strtol'', 105), (''BPF_FUNC_strtoul'', 106)]"

definition enum_bpf_func_id_2 :: enumeration where
  "enum_bpf_func_id_2 =
     [(''BPF_FUNC_sk_storage_get'', 107), (''BPF_FUNC_sk_storage_delete'', 108),
       (''BPF_FUNC_send_signal'', 109), (''BPF_FUNC_tcp_gen_syncookie'', 110),
       (''BPF_FUNC_skb_output'', 111), (''BPF_FUNC_probe_read_user'', 112),
       (''BPF_FUNC_probe_read_kernel'', 113), (''BPF_FUNC_probe_read_user_str'', 114),
       (''BPF_FUNC_probe_read_kernel_str'', 115), (''BPF_FUNC_tcp_send_ack'', 116),
       (''BPF_FUNC_send_signal_thread'', 117), (''BPF_FUNC_jiffies64'', 118),
       (''BPF_FUNC_read_branch_records'', 119), (''BPF_FUNC_get_ns_current_pid_tgid'', 120),
       (''BPF_FUNC_xdp_output'', 121), (''BPF_FUNC_get_netns_cookie'', 122),
       (''BPF_FUNC_get_current_ancestor_cgroup_id'', 123), (''BPF_FUNC_sk_assign'', 124),
       (''BPF_FUNC_ktime_get_boot_ns'', 125), (''BPF_FUNC_seq_printf'', 126),
       (''BPF_FUNC_seq_write'', 127), (''BPF_FUNC_sk_cgroup_id'', 128),
       (''BPF_FUNC_sk_ancestor_cgroup_id'', 129), (''BPF_FUNC_ringbuf_output'', 130),
       (''BPF_FUNC_ringbuf_reserve'', 131), (''BPF_FUNC_ringbuf_submit'', 132),
       (''BPF_FUNC_ringbuf_discard'', 133), (''BPF_FUNC_ringbuf_query'', 134),
       (''BPF_FUNC_csum_level'', 135), (''BPF_FUNC_skc_to_tcp6_sock'', 136),
       (''BPF_FUNC_skc_to_tcp_sock'', 137), (''BPF_FUNC_skc_to_tcp_timewait_sock'', 138),
       (''BPF_FUNC_skc_to_tcp_request_sock'', 139), (''BPF_FUNC_skc_to_udp6_sock'', 140),
       (''BPF_FUNC_get_task_stack'', 141), (''BPF_FUNC_load_hdr_opt'', 142),
       (''BPF_FUNC_store_hdr_opt'', 143), (''BPF_FUNC_reserve_hdr_opt'', 144),
       (''BPF_FUNC_inode_storage_get'', 145), (''BPF_FUNC_inode_storage_delete'', 146),
       (''BPF_FUNC_d_path'', 147), (''BPF_FUNC_copy_from_user'', 148),
       (''BPF_FUNC_snprintf_btf'', 149), (''BPF_FUNC_seq_printf_btf'', 150),
       (''BPF_FUNC_skb_cgroup_classid'', 151), (''BPF_FUNC_redirect_neigh'', 152),
       (''BPF_FUNC_per_cpu_ptr'', 153), (''BPF_FUNC_this_cpu_ptr'', 154),
       (''BPF_FUNC_redirect_peer'', 155), (''BPF_FUNC_task_storage_get'', 156),
       (''BPF_FUNC_task_storage_delete'', 157), (''BPF_FUNC_get_current_task_btf'', 158),
       (''BPF_FUNC_bprm_opts_set'', 159), (''BPF_FUNC_ktime_get_coarse_ns'', 160),
       (''BPF_FUNC_ima_inode_hash'', 161), (''BPF_FUNC_sock_from_file'', 162),
       (''BPF_FUNC_check_mtu'', 163), (''BPF_FUNC_for_each_map_elem'', 164),
       (''BPF_FUNC_snprintf'', 165), (''BPF_FUNC_sys_bpf'', 166),
       (''BPF_FUNC_btf_find_by_name_kind'', 167), (''BPF_FUNC_sys_close'', 168),
       (''BPF_FUNC_timer_init'', 169), (''BPF_FUNC_timer_set_callback'', 170),
       (''BPF_FUNC_timer_start'', 171), (''BPF_FUNC_timer_cancel'', 172),
       (''BPF_FUNC_get_func_ip'', 173), (''BPF_FUNC_get_attach_cookie'', 174),
       (''BPF_FUNC_task_pt_regs'', 175), (''BPF_FUNC_get_branch_snapshot'', 176),
       (''BPF_FUNC_trace_vprintk'', 177), (''BPF_FUNC_skc_to_unix_sock'', 178),
       (''BPF_FUNC_kallsyms_lookup_name'', 179), (''BPF_FUNC_find_vma'', 180),
       (''BPF_FUNC_loop'', 181), (''BPF_FUNC_strncmp'', 182), (''BPF_FUNC_get_func_arg'', 183),
       (''BPF_FUNC_get_func_ret'', 184), (''BPF_FUNC_get_func_arg_cnt'', 185),
       (''BPF_FUNC_get_retval'', 186), (''BPF_FUNC_set_retval'', 187),
       (''BPF_FUNC_xdp_get_buff_len'', 188), (''BPF_FUNC_xdp_load_bytes'', 189),
       (''BPF_FUNC_xdp_store_bytes'', 190), (''BPF_FUNC_copy_from_user_task'', 191),
       (''BPF_FUNC_skb_set_tstamp'', 192), (''BPF_FUNC_ima_file_hash'', 193),
       (''BPF_FUNC_kptr_xchg'', 194), (''BPF_FUNC_map_lookup_percpu_elem'', 195),
       (''BPF_FUNC_skc_to_mptcp_sock'', 196), (''BPF_FUNC_dynptr_from_mem'', 197),
       (''BPF_FUNC_ringbuf_reserve_dynptr'', 198), (''BPF_FUNC_ringbuf_submit_dynptr'', 199),
       (''BPF_FUNC_ringbuf_discard_dynptr'', 200), (''BPF_FUNC_dynptr_read'', 201),
       (''BPF_FUNC_dynptr_write'', 202), (''BPF_FUNC_dynptr_data'', 203),
       (''BPF_FUNC_tcp_raw_gen_syncookie_ipv4'', 204), (''BPF_FUNC_tcp_raw_gen_syncookie_ipv6'',
       205), (''BPF_FUNC_tcp_raw_check_syncookie_ipv4'', 206),
       (''BPF_FUNC_tcp_raw_check_syncookie_ipv6'', 207), (''BPF_FUNC_ktime_get_tai_ns'', 208),
       (''BPF_FUNC_user_ringbuf_drain'', 209), (''BPF_FUNC_cgrp_storage_get'', 210),
       (''BPF_FUNC_cgrp_storage_delete'', 211), (''__BPF_FUNC_MAX_ID'', 212)]"

definition enum_bpf_func_id :: enumeration where
  "enum_bpf_func_id = enum_bpf_func_id_1 @ enum_bpf_func_id_2"

definition enum_bpf_cmd :: enumeration where
  "enum_bpf_cmd =
     [(''BPF_MAP_CREATE'', 0), (''BPF_MAP_LOOKUP_ELEM'', 1), (''BPF_MAP_UPDATE_ELEM'', 2),
       (''BPF_MAP_DELETE_ELEM'', 3), (''BPF_MAP_GET_NEXT_KEY'', 4), (''BPF_PROG_LOAD'', 5),
       (''BPF_OBJ_PIN'', 6), (''BPF_OBJ_GET'', 7), (''BPF_PROG_ATTACH'', 8),
       (''BPF_PROG_DETACH'', 9), (''BPF_PROG_TEST_RUN'', 10), (''BPF_PROG_RUN'', 10),
       (''BPF_PROG_GET_NEXT_ID'', 11), (''BPF_MAP_GET_NEXT_ID'', 12), (''BPF_PROG_GET_FD_BY_ID'',
       13), (''BPF_MAP_GET_FD_BY_ID'', 14), (''BPF_OBJ_GET_INFO_BY_FD'', 15),
       (''BPF_PROG_QUERY'', 16), (''BPF_RAW_TRACEPOINT_OPEN'', 17), (''BPF_BTF_LOAD'', 18),
       (''BPF_BTF_GET_FD_BY_ID'', 19), (''BPF_TASK_FD_QUERY'', 20),
       (''BPF_MAP_LOOKUP_AND_DELETE_ELEM'', 21), (''BPF_MAP_FREEZE'', 22),
       (''BPF_BTF_GET_NEXT_ID'', 23), (''BPF_MAP_LOOKUP_BATCH'', 24),
       (''BPF_MAP_LOOKUP_AND_DELETE_BATCH'', 25), (''BPF_MAP_UPDATE_BATCH'', 26),
       (''BPF_MAP_DELETE_BATCH'', 27), (''BPF_LINK_CREATE'', 28), (''BPF_LINK_UPDATE'', 29),
       (''BPF_LINK_GET_FD_BY_ID'', 30), (''BPF_LINK_GET_NEXT_ID'', 31), (''BPF_ENABLE_STATS'',
       32), (''BPF_ITER_CREATE'', 33), (''BPF_LINK_DETACH'', 34), (''BPF_PROG_BIND_MAP'', 35),
       (''BPF_TOKEN_CREATE'', 36), (''BPF_PROG_STREAM_READ_BY_FD'', 37),
       (''BPF_PROG_ASSOC_STRUCT_OPS'', 38), (''__MAX_BPF_CMD'', 39), (''BPF_COMMON_ATTRS'',
       65536)]"

definition enum_bpf_link_type :: enumeration where
  "enum_bpf_link_type =
     [(''BPF_LINK_TYPE_UNSPEC'', 0), (''BPF_LINK_TYPE_RAW_TRACEPOINT'', 1),
       (''BPF_LINK_TYPE_TRACING'', 2), (''BPF_LINK_TYPE_CGROUP'', 3), (''BPF_LINK_TYPE_ITER'',
       4), (''BPF_LINK_TYPE_NETNS'', 5), (''BPF_LINK_TYPE_XDP'', 6),
       (''BPF_LINK_TYPE_PERF_EVENT'', 7), (''BPF_LINK_TYPE_KPROBE_MULTI'', 8),
       (''BPF_LINK_TYPE_STRUCT_OPS'', 9), (''BPF_LINK_TYPE_NETFILTER'', 10),
       (''BPF_LINK_TYPE_TCX'', 11), (''BPF_LINK_TYPE_UPROBE_MULTI'', 12),
       (''BPF_LINK_TYPE_NETKIT'', 13), (''BPF_LINK_TYPE_SOCKMAP'', 14),
       (''BPF_LINK_TYPE_TRACING_MULTI'', 15), (''__MAX_BPF_LINK_TYPE'', 16)]"

definition enum_skb_drop_reason :: enumeration where
  "enum_skb_drop_reason =
     [(''SKB_NOT_DROPPED_YET'', 0), (''SKB_CONSUMED'', 1), (''SKB_DROP_REASON_NOT_SPECIFIED'',
       2), (''SKB_DROP_REASON_NO_SOCKET'', 3), (''SKB_DROP_REASON_SOCKET_CLOSE'', 4),
       (''SKB_DROP_REASON_SOCKET_FILTER'', 5), (''SKB_DROP_REASON_SOCKET_RCVBUFF'', 6),
       (''SKB_DROP_REASON_UNIX_DISCONNECT'', 7), (''SKB_DROP_REASON_UNIX_SKIP_OOB'', 8),
       (''SKB_DROP_REASON_PKT_TOO_SMALL'', 9), (''SKB_DROP_REASON_TCP_CSUM'', 10),
       (''SKB_DROP_REASON_UDP_CSUM'', 11), (''SKB_DROP_REASON_NETFILTER_DROP'', 12),
       (''SKB_DROP_REASON_OTHERHOST'', 13), (''SKB_DROP_REASON_IP_CSUM'', 14),
       (''SKB_DROP_REASON_IP_INHDR'', 15), (''SKB_DROP_REASON_IP_RPFILTER'', 16),
       (''SKB_DROP_REASON_UNICAST_IN_L2_MULTICAST'', 17), (''SKB_DROP_REASON_XFRM_POLICY'', 18),
       (''SKB_DROP_REASON_IP_NOPROTO'', 19), (''SKB_DROP_REASON_PROTO_MEM'', 20),
       (''SKB_DROP_REASON_TCP_AUTH_HDR'', 21), (''SKB_DROP_REASON_TCP_MD5NOTFOUND'', 22),
       (''SKB_DROP_REASON_TCP_MD5UNEXPECTED'', 23), (''SKB_DROP_REASON_TCP_MD5FAILURE'', 24),
       (''SKB_DROP_REASON_TCP_AONOTFOUND'', 25), (''SKB_DROP_REASON_TCP_AOUNEXPECTED'', 26),
       (''SKB_DROP_REASON_TCP_AOKEYNOTFOUND'', 27), (''SKB_DROP_REASON_TCP_AOFAILURE'', 28),
       (''SKB_DROP_REASON_SOCKET_BACKLOG'', 29), (''SKB_DROP_REASON_TCP_FLAGS'', 30),
       (''SKB_DROP_REASON_TCP_ABORT_ON_DATA'', 31), (''SKB_DROP_REASON_TCP_ZEROWINDOW'', 32),
       (''SKB_DROP_REASON_TCP_OLD_DATA'', 33), (''SKB_DROP_REASON_TCP_OVERWINDOW'', 34),
       (''SKB_DROP_REASON_TCP_OFOMERGE'', 35), (''SKB_DROP_REASON_TCP_RFC7323_PAWS'', 36),
       (''SKB_DROP_REASON_TCP_RFC7323_PAWS_ACK'', 37), (''SKB_DROP_REASON_TCP_RFC7323_TW_PAWS'',
       38), (''SKB_DROP_REASON_TCP_RFC7323_TSECR'', 39),
       (''SKB_DROP_REASON_TCP_LISTEN_OVERFLOW'', 40), (''SKB_DROP_REASON_TCP_OLD_SEQUENCE'', 41),
       (''SKB_DROP_REASON_TCP_INVALID_SEQUENCE'', 42),
       (''SKB_DROP_REASON_TCP_INVALID_END_SEQUENCE'', 43),
       (''SKB_DROP_REASON_TCP_INVALID_ACK_SEQUENCE'', 44), (''SKB_DROP_REASON_TCP_RESET'', 45),
       (''SKB_DROP_REASON_TCP_INVALID_SYN'', 46), (''SKB_DROP_REASON_TCP_CLOSE'', 47),
       (''SKB_DROP_REASON_TCP_FASTOPEN'', 48), (''SKB_DROP_REASON_TCP_OLD_ACK'', 49),
       (''SKB_DROP_REASON_TCP_TOO_OLD_ACK'', 50), (''SKB_DROP_REASON_TCP_ACK_UNSENT_DATA'', 51),
       (''SKB_DROP_REASON_TCP_OFO_QUEUE_PRUNE'', 52), (''SKB_DROP_REASON_TCP_OFO_DROP'', 53),
       (''SKB_DROP_REASON_IP_OUTNOROUTES'', 54), (''SKB_DROP_REASON_BPF_CGROUP_EGRESS'', 55),
       (''SKB_DROP_REASON_IPV6DISABLED'', 56), (''SKB_DROP_REASON_NEIGH_CREATEFAIL'', 57),
       (''SKB_DROP_REASON_NEIGH_FAILED'', 58), (''SKB_DROP_REASON_NEIGH_QUEUEFULL'', 59),
       (''SKB_DROP_REASON_NEIGH_DEAD'', 60), (''SKB_DROP_REASON_NEIGH_HH_FILLFAIL'', 61),
       (''SKB_DROP_REASON_TC_EGRESS'', 62), (''SKB_DROP_REASON_SECURITY_HOOK'', 63),
       (''SKB_DROP_REASON_QDISC_DROP'', 64), (''SKB_DROP_REASON_QDISC_BURST_DROP'', 65),
       (''SKB_DROP_REASON_CPU_BACKLOG'', 66), (''SKB_DROP_REASON_MACVLAN_BROADCAST_BACKLOG'',
       67), (''SKB_DROP_REASON_IPVLAN_MULTICAST_BACKLOG'', 68), (''SKB_DROP_REASON_XDP'', 69),
       (''SKB_DROP_REASON_TC_INGRESS'', 70), (''SKB_DROP_REASON_UNHANDLED_PROTO'', 71),
       (''SKB_DROP_REASON_SKB_CSUM'', 72), (''SKB_DROP_REASON_SKB_GSO_SEG'', 73),
       (''SKB_DROP_REASON_SKB_BAD_GSO'', 74), (''SKB_DROP_REASON_SKB_UCOPY_FAULT'', 75),
       (''SKB_DROP_REASON_DEV_HDR'', 76), (''SKB_DROP_REASON_DEV_READY'', 77),
       (''SKB_DROP_REASON_FULL_RING'', 78), (''SKB_DROP_REASON_NOMEM'', 79),
       (''SKB_DROP_REASON_HDR_TRUNC'', 80), (''SKB_DROP_REASON_TAP_FILTER'', 81),
       (''SKB_DROP_REASON_TAP_TXFILTER'', 82), (''SKB_DROP_REASON_ICMP_CSUM'', 83),
       (''SKB_DROP_REASON_INVALID_PROTO'', 84), (''SKB_DROP_REASON_IP_INADDRERRORS'', 85),
       (''SKB_DROP_REASON_IP_INNOROUTES'', 86), (''SKB_DROP_REASON_IP_LOCAL_SOURCE'', 87),
       (''SKB_DROP_REASON_IP_INVALID_SOURCE'', 88), (''SKB_DROP_REASON_IP_LOCALNET'', 89),
       (''SKB_DROP_REASON_IP_INVALID_DEST'', 90), (''SKB_DROP_REASON_PKT_TOO_BIG'', 91),
       (''SKB_DROP_REASON_DUP_FRAG'', 92), (''SKB_DROP_REASON_FRAG_REASM_TIMEOUT'', 93),
       (''SKB_DROP_REASON_FRAG_TOO_FAR'', 94), (''SKB_DROP_REASON_TCP_MINTTL'', 95),
       (''SKB_DROP_REASON_IPV6_BAD_EXTHDR'', 96), (''SKB_DROP_REASON_IPV6_TOO_MANY_EXTHDRS'',
       97), (''SKB_DROP_REASON_IPV6_NDISC_FRAG'', 98), (''SKB_DROP_REASON_IPV6_NDISC_HOP_LIMIT'',
       99), (''SKB_DROP_REASON_IPV6_NDISC_BAD_CODE'', 100),
       (''SKB_DROP_REASON_IPV6_NDISC_BAD_OPTIONS'', 101),
       (''SKB_DROP_REASON_IPV6_NDISC_NS_OTHERHOST'', 102), (''SKB_DROP_REASON_QUEUE_PURGE'',
       103), (''SKB_DROP_REASON_TC_COOKIE_ERROR'', 104), (''SKB_DROP_REASON_PACKET_SOCK_ERROR'',
       105), (''SKB_DROP_REASON_TC_CHAIN_NOTFOUND'', 106),
       (''SKB_DROP_REASON_TC_RECLASSIFY_LOOP'', 107), (''SKB_DROP_REASON_VXLAN_INVALID_HDR'',
       108), (''SKB_DROP_REASON_VXLAN_VNI_NOT_FOUND'', 109),
       (''SKB_DROP_REASON_MAC_INVALID_SOURCE'', 110), (''SKB_DROP_REASON_VXLAN_ENTRY_EXISTS'',
       111), (''SKB_DROP_REASON_NO_TX_TARGET'', 112), (''SKB_DROP_REASON_IP_TUNNEL_ECN'', 113),
       (''SKB_DROP_REASON_TUNNEL_TXINFO'', 114), (''SKB_DROP_REASON_LOCAL_MAC'', 115),
       (''SKB_DROP_REASON_ARP_PVLAN_DISABLE'', 116), (''SKB_DROP_REASON_MAC_IEEE_MAC_CONTROL'',
       117), (''SKB_DROP_REASON_BRIDGE_INGRESS_STP_STATE'', 118),
       (''SKB_DROP_REASON_CAN_RX_INVALID_FRAME'', 119),
       (''SKB_DROP_REASON_CANFD_RX_INVALID_FRAME'', 120),
       (''SKB_DROP_REASON_CANXL_RX_INVALID_FRAME'', 121), (''SKB_DROP_REASON_PFMEMALLOC'', 122),
       (''SKB_DROP_REASON_PSP_INPUT'', 123), (''SKB_DROP_REASON_PSP_OUTPUT'', 124),
       (''SKB_DROP_REASON_RECURSION_LIMIT'', 125), (''SKB_DROP_REASON_MAX'', 126),
       (''SKB_DROP_REASON_SUBSYS_MASK'', 4294901760)]"

definition enum_bpf_ret_code :: enumeration where
  "enum_bpf_ret_code =
     [(''BPF_OK'', 0), (''BPF_DROP'', 2), (''BPF_REDIRECT'', 7), (''BPF_LWT_REROUTE'', 128),
       (''BPF_FLOW_DISSECTOR_CONTINUE'', 129)]"

definition enum_sk_action :: enumeration where
  "enum_sk_action =
     [(''SK_DROP'', 0), (''SK_PASS'', 1)]"

section \<open>The other enumerations of the interface\<close>

definition enum_bpf_access_src :: enumeration where
  "enum_bpf_access_src =
     [(''ACCESS_DIRECT'', 1), (''ACCESS_HELPER'', 2)]"

definition enum_bpf_access_type :: enumeration where
  "enum_bpf_access_type =
     [(''BPF_READ'', 1), (''BPF_WRITE'', 2)]"

definition enum_bpf_addr_space_cast :: enumeration where
  "enum_bpf_addr_space_cast =
     [(''BPF_ADDR_SPACE_CAST'', 1)]"

definition enum_bpf_adj_room_mode :: enumeration where
  "enum_bpf_adj_room_mode =
     [(''BPF_ADJ_ROOM_NET'', 0), (''BPF_ADJ_ROOM_MAC'', 1)]"

definition enum_bpf_arg_type :: enumeration where
  "enum_bpf_arg_type =
     [(''ARG_DONTCARE'', 0), (''ARG_CONST_MAP_PTR'', 1), (''ARG_PTR_TO_MAP_KEY'', 2),
       (''ARG_PTR_TO_MAP_VALUE'', 3), (''ARG_PTR_TO_MEM'', 4), (''ARG_PTR_TO_ARENA'', 5),
       (''ARG_CONST_SIZE'', 6), (''ARG_CONST_SIZE_OR_ZERO'', 7), (''ARG_PTR_TO_CTX'', 8),
       (''ARG_ANYTHING'', 9), (''ARG_PTR_TO_SPIN_LOCK'', 10), (''ARG_PTR_TO_SOCK_COMMON'', 11),
       (''ARG_PTR_TO_SOCKET'', 12), (''ARG_PTR_TO_BTF_ID'', 13), (''ARG_PTR_TO_RINGBUF_MEM'',
       14), (''ARG_CONST_ALLOC_SIZE_OR_ZERO'', 15), (''ARG_PTR_TO_BTF_ID_SOCK_COMMON'', 16),
       (''ARG_PTR_TO_PERCPU_BTF_ID'', 17), (''ARG_PTR_TO_FUNC'', 18), (''ARG_PTR_TO_STACK'', 19),
       (''ARG_PTR_TO_CONST_STR'', 20), (''ARG_PTR_TO_TIMER'', 21), (''ARG_KPTR_XCHG_DEST'', 22),
       (''ARG_PTR_TO_DYNPTR'', 23), (''__BPF_ARG_TYPE_MAX'', 24),
       (''ARG_PTR_TO_MAP_VALUE_OR_NULL'', 259), (''ARG_PTR_TO_MEM_OR_NULL'', 260),
       (''ARG_PTR_TO_CTX_OR_NULL'', 264), (''ARG_PTR_TO_SOCKET_OR_NULL'', 268),
       (''ARG_PTR_TO_STACK_OR_NULL'', 275), (''ARG_PTR_TO_BTF_ID_OR_NULL'', 269),
       (''ARG_PTR_TO_UNINIT_MEM'', 67141636), (''ARG_PTR_TO_FIXED_SIZE_MEM'', 262148),
       (''__BPF_ARG_TYPE_LIMIT'', 536870911)]"

definition enum_bpf_async_op :: enumeration where
  "enum_bpf_async_op =
     [(''BPF_ASYNC_START'', 0), (''BPF_ASYNC_CANCEL'', 1)]"

definition enum_bpf_async_type :: enumeration where
  "enum_bpf_async_type =
     [(''BPF_ASYNC_TYPE_TIMER'', 0), (''BPF_ASYNC_TYPE_WQ'', 1)]"

definition enum_bpf_audit :: enumeration where
  "enum_bpf_audit =
     [(''BPF_AUDIT_LOAD'', 0), (''BPF_AUDIT_UNLOAD'', 1), (''BPF_AUDIT_MAX'', 2)]"

definition enum_bpf_cgroup_iter_order :: enumeration where
  "enum_bpf_cgroup_iter_order =
     [(''BPF_CGROUP_ITER_ORDER_UNSPEC'', 0), (''BPF_CGROUP_ITER_SELF_ONLY'', 1),
       (''BPF_CGROUP_ITER_DESCENDANTS_PRE'', 2), (''BPF_CGROUP_ITER_DESCENDANTS_POST'', 3),
       (''BPF_CGROUP_ITER_ANCESTORS_UP'', 4), (''BPF_CGROUP_ITER_CHILDREN'', 5)]"

definition enum_bpf_cgroup_storage_type :: enumeration where
  "enum_bpf_cgroup_storage_type =
     [(''BPF_CGROUP_STORAGE_SHARED'', 0), (''BPF_CGROUP_STORAGE_PERCPU'', 1),
       (''__BPF_CGROUP_STORAGE_MAX'', 2)]"

definition enum_bpf_check_mtu_flags :: enumeration where
  "enum_bpf_check_mtu_flags =
     [(''BPF_MTU_CHK_SEGS'', 1)]"

definition enum_bpf_check_mtu_ret :: enumeration where
  "enum_bpf_check_mtu_ret =
     [(''BPF_MTU_CHK_RET_SUCCESS'', 0), (''BPF_MTU_CHK_RET_FRAG_NEEDED'', 1),
       (''BPF_MTU_CHK_RET_SEGS_TOOBIG'', 2)]"

definition enum_bpf_cond_pseudo_jmp :: enumeration where
  "enum_bpf_cond_pseudo_jmp =
     [(''BPF_MAY_GOTO'', 0)]"

definition enum_bpf_core_relo_kind :: enumeration where
  "enum_bpf_core_relo_kind =
     [(''BPF_CORE_FIELD_BYTE_OFFSET'', 0), (''BPF_CORE_FIELD_BYTE_SIZE'', 1),
       (''BPF_CORE_FIELD_EXISTS'', 2), (''BPF_CORE_FIELD_SIGNED'', 3),
       (''BPF_CORE_FIELD_LSHIFT_U64'', 4), (''BPF_CORE_FIELD_RSHIFT_U64'', 5),
       (''BPF_CORE_TYPE_ID_LOCAL'', 6), (''BPF_CORE_TYPE_ID_TARGET'', 7),
       (''BPF_CORE_TYPE_EXISTS'', 8), (''BPF_CORE_TYPE_SIZE'', 9), (''BPF_CORE_ENUMVAL_EXISTS'',
       10), (''BPF_CORE_ENUMVAL_VALUE'', 11), (''BPF_CORE_TYPE_MATCHES'', 12)]"

definition enum_bpf_dynptr_type :: enumeration where
  "enum_bpf_dynptr_type =
     [(''BPF_DYNPTR_TYPE_INVALID'', 0), (''BPF_DYNPTR_TYPE_LOCAL'', 1),
       (''BPF_DYNPTR_TYPE_RINGBUF'', 2), (''BPF_DYNPTR_TYPE_SKB'', 3), (''BPF_DYNPTR_TYPE_XDP'',
       4), (''BPF_DYNPTR_TYPE_SKB_META'', 5), (''BPF_DYNPTR_TYPE_FILE'', 6)]"

definition enum_bpf_features :: enumeration where
  "enum_bpf_features =
     [(''BPF_FEAT_RDONLY_CAST_TO_VOID'', 0), (''BPF_FEAT_STREAMS'', 1), (''__MAX_BPF_FEAT'', 2)]"

definition enum_bpf_hdr_start_off :: enumeration where
  "enum_bpf_hdr_start_off =
     [(''BPF_HDR_START_MAC'', 0), (''BPF_HDR_START_NET'', 1)]"

definition enum_bpf_iter_feature :: enumeration where
  "enum_bpf_iter_feature =
     [(''BPF_ITER_RESCHED'', 1)]"

definition enum_bpf_iter_state :: enumeration where
  "enum_bpf_iter_state =
     [(''BPF_ITER_STATE_INVALID'', 0), (''BPF_ITER_STATE_ACTIVE'', 1),
       (''BPF_ITER_STATE_DRAINED'', 2)]"

definition enum_bpf_iter_task_type :: enumeration where
  "enum_bpf_iter_task_type =
     [(''BPF_TASK_ITER_ALL'', 0), (''BPF_TASK_ITER_TID'', 1), (''BPF_TASK_ITER_TGID'', 2)]"

definition enum_bpf_jit_poke_reason :: enumeration where
  "enum_bpf_jit_poke_reason =
     [(''BPF_POKE_REASON_TAIL_CALL'', 0)]"

definition enum_bpf_kfunc_flags :: enumeration where
  "enum_bpf_kfunc_flags =
     [(''BPF_F_PAD_ZEROS'', 1)]"

definition enum_bpf_lru_list_type :: enumeration where
  "enum_bpf_lru_list_type =
     [(''BPF_LRU_LIST_T_ACTIVE'', 0), (''BPF_LRU_LIST_T_INACTIVE'', 1), (''BPF_LRU_LIST_T_FREE'',
       2), (''BPF_LRU_LOCAL_LIST_T_FREE'', 3), (''BPF_LRU_LOCAL_LIST_T_PENDING'', 4)]"

definition enum_bpf_lwt_encap_mode :: enumeration where
  "enum_bpf_lwt_encap_mode =
     [(''BPF_LWT_ENCAP_SEG6'', 0), (''BPF_LWT_ENCAP_SEG6_INLINE'', 1), (''BPF_LWT_ENCAP_IP'',
       2)]"

definition enum_bpf_netdev_command :: enumeration where
  "enum_bpf_netdev_command =
     [(''XDP_SETUP_PROG'', 0), (''XDP_SETUP_PROG_HW'', 1), (''BPF_OFFLOAD_MAP_ALLOC'', 2),
       (''BPF_OFFLOAD_MAP_FREE'', 3), (''XDP_SETUP_XSK_POOL'', 4)]"

definition enum_bpf_perf_event_type :: enumeration where
  "enum_bpf_perf_event_type =
     [(''BPF_PERF_EVENT_UNSPEC'', 0), (''BPF_PERF_EVENT_UPROBE'', 1),
       (''BPF_PERF_EVENT_URETPROBE'', 2), (''BPF_PERF_EVENT_KPROBE'', 3),
       (''BPF_PERF_EVENT_KRETPROBE'', 4), (''BPF_PERF_EVENT_TRACEPOINT'', 5),
       (''BPF_PERF_EVENT_EVENT'', 6)]"

definition enum_bpf_reg_arg_type :: enumeration where
  "enum_bpf_reg_arg_type =
     [(''SRC_OP'', 0), (''DST_OP'', 1), (''DST_OP_NO_MARK'', 2)]"

definition enum_bpf_reg_type :: enumeration where
  "enum_bpf_reg_type =
     [(''NOT_INIT'', 0), (''SCALAR_VALUE'', 1), (''PTR_TO_CTX'', 2), (''CONST_PTR_TO_MAP'', 3),
       (''PTR_TO_MAP_VALUE'', 4), (''PTR_TO_MAP_KEY'', 5), (''PTR_TO_STACK'', 6),
       (''PTR_TO_PACKET_META'', 7), (''PTR_TO_PACKET'', 8), (''PTR_TO_PACKET_END'', 9),
       (''PTR_TO_FLOW_KEYS'', 10), (''PTR_TO_SOCKET'', 11), (''PTR_TO_SOCK_COMMON'', 12),
       (''PTR_TO_TCP_SOCK'', 13), (''PTR_TO_TP_BUFFER'', 14), (''PTR_TO_XDP_SOCK'', 15),
       (''PTR_TO_BTF_ID'', 16), (''PTR_TO_MEM'', 17), (''PTR_TO_ARENA'', 18), (''PTR_TO_BUF'',
       19), (''PTR_TO_FUNC'', 20), (''PTR_TO_INSN'', 21), (''CONST_PTR_TO_DYNPTR'', 22),
       (''__BPF_REG_TYPE_MAX'', 23), (''PTR_TO_MAP_VALUE_OR_NULL'', 260),
       (''PTR_TO_SOCKET_OR_NULL'', 267), (''PTR_TO_SOCK_COMMON_OR_NULL'', 268),
       (''PTR_TO_TCP_SOCK_OR_NULL'', 269), (''PTR_TO_BTF_ID_OR_NULL'', 272),
       (''__BPF_REG_TYPE_LIMIT'', 536870911)]"

definition enum_bpf_return_type :: enumeration where
  "enum_bpf_return_type =
     [(''RET_INTEGER'', 0), (''RET_VOID'', 1), (''RET_PTR_TO_MAP_VALUE'', 2),
       (''RET_PTR_TO_SOCKET'', 3), (''RET_PTR_TO_TCP_SOCK'', 4), (''RET_PTR_TO_SOCK_COMMON'', 5),
       (''RET_PTR_TO_MEM'', 6), (''RET_PTR_TO_MEM_OR_BTF_ID'', 7), (''RET_PTR_TO_BTF_ID'', 8),
       (''__BPF_RET_TYPE_MAX'', 9), (''RET_PTR_TO_MAP_VALUE_OR_NULL'', 258),
       (''RET_PTR_TO_SOCKET_OR_NULL'', 259), (''RET_PTR_TO_TCP_SOCK_OR_NULL'', 260),
       (''RET_PTR_TO_SOCK_COMMON_OR_NULL'', 261), (''RET_PTR_TO_RINGBUF_MEM_OR_NULL'', 1286),
       (''RET_PTR_TO_DYNPTR_MEM_OR_NULL'', 262), (''RET_PTR_TO_BTF_ID_OR_NULL'', 264),
       (''RET_PTR_TO_BTF_ID_TRUSTED'', 1048584), (''__BPF_RET_TYPE_LIMIT'', 536870911)]"

definition enum_bpf_sig_keyring :: enumeration where
  "enum_bpf_sig_keyring =
     [(''BPF_SIG_KEYRING_NONE'', 0), (''BPF_SIG_KEYRING_BUILTIN'', 1),
       (''BPF_SIG_KEYRING_SECONDARY'', 2), (''BPF_SIG_KEYRING_PLATFORM'', 3),
       (''BPF_SIG_KEYRING_USER'', 4)]"

definition enum_bpf_sig_verdict :: enumeration where
  "enum_bpf_sig_verdict =
     [(''BPF_SIG_UNSIGNED'', 0), (''BPF_SIG_VERIFIED'', 1)]"

definition enum_bpf_stack_build_id_status :: enumeration where
  "enum_bpf_stack_build_id_status =
     [(''BPF_STACK_BUILD_ID_EMPTY'', 0), (''BPF_STACK_BUILD_ID_VALID'', 1),
       (''BPF_STACK_BUILD_ID_IP'', 2)]"

definition enum_bpf_stack_slot_type :: enumeration where
  "enum_bpf_stack_slot_type =
     [(''STACK_INVALID'', 0), (''STACK_SPILL'', 1), (''STACK_MISC'', 2), (''STACK_ZERO'', 3),
       (''STACK_DYNPTR'', 4), (''STACK_ITER'', 5), (''STACK_IRQ_FLAG'', 6), (''STACK_POISON'',
       7)]"

definition enum_bpf_stats_type :: enumeration where
  "enum_bpf_stats_type =
     [(''BPF_STATS_RUN_TIME'', 0)]"

definition enum_bpf_stream_id :: enumeration where
  "enum_bpf_stream_id =
     [(''BPF_STDOUT'', 1), (''BPF_STDERR'', 2)]"

definition enum_bpf_struct_ops_state :: enumeration where
  "enum_bpf_struct_ops_state =
     [(''BPF_STRUCT_OPS_STATE_INIT'', 0), (''BPF_STRUCT_OPS_STATE_INUSE'', 1),
       (''BPF_STRUCT_OPS_STATE_TOBEFREE'', 2), (''BPF_STRUCT_OPS_STATE_READY'', 3)]"

definition enum_bpf_struct_walk_result :: enumeration where
  "enum_bpf_struct_walk_result =
     [(''WALK_SCALAR'', 0), (''WALK_PTR'', 1), (''WALK_PTR_UNTRUSTED'', 2), (''WALK_STRUCT'',
       3)]"

definition enum_bpf_task_fd_type :: enumeration where
  "enum_bpf_task_fd_type =
     [(''BPF_FD_TYPE_RAW_TRACEPOINT'', 0), (''BPF_FD_TYPE_TRACEPOINT'', 1),
       (''BPF_FD_TYPE_KPROBE'', 2), (''BPF_FD_TYPE_KRETPROBE'', 3), (''BPF_FD_TYPE_UPROBE'', 4),
       (''BPF_FD_TYPE_URETPROBE'', 5)]"

definition enum_bpf_task_vma_iter_find_op :: enumeration where
  "enum_bpf_task_vma_iter_find_op =
     [(''task_vma_iter_first_vma'', 0), (''task_vma_iter_next_vma'', 1),
       (''task_vma_iter_find_vma'', 2)]"

definition enum_bpf_task_work_state :: enumeration where
  "enum_bpf_task_work_state =
     [(''BPF_TW_STANDBY'', 0), (''BPF_TW_PENDING'', 1), (''BPF_TW_SCHEDULING'', 2),
       (''BPF_TW_SCHEDULED'', 3), (''BPF_TW_RUNNING'', 4), (''BPF_TW_FREED'', 5)]"

definition enum_bpf_text_poke_type :: enumeration where
  "enum_bpf_text_poke_type =
     [(''BPF_MOD_NOP'', 0), (''BPF_MOD_CALL'', 1), (''BPF_MOD_JUMP'', 2)]"

definition enum_bpf_tramp_prog_type :: enumeration where
  "enum_bpf_tramp_prog_type =
     [(''BPF_TRAMP_FENTRY'', 0), (''BPF_TRAMP_FEXIT'', 1), (''BPF_TRAMP_MODIFY_RETURN'', 2),
       (''BPF_TRAMP_MAX'', 3), (''BPF_TRAMP_REPLACE'', 4), (''BPF_TRAMP_FSESSION'', 5)]"

definition enum_bpf_type :: enumeration where
  "enum_bpf_type =
     [(''BPF_TYPE_UNSPEC'', 0), (''BPF_TYPE_PROG'', 1), (''BPF_TYPE_MAP'', 2),
       (''BPF_TYPE_LINK'', 3)]"

definition enum_bpf_type_flag :: enumeration where
  "enum_bpf_type_flag =
     [(''PTR_MAYBE_NULL'', 256), (''MEM_RDONLY'', 512), (''MEM_RINGBUF'', 1024), (''MEM_USER'',
       2048), (''MEM_PERCPU'', 4096), (''OBJ_RELEASE'', 8192), (''PTR_UNTRUSTED'', 16384),
       (''MEM_UNINIT'', 32768), (''DYNPTR_TYPE_LOCAL'', 65536), (''DYNPTR_TYPE_RINGBUF'',
       131072), (''MEM_FIXED_SIZE'', 262144), (''MEM_ALLOC'', 524288), (''PTR_TRUSTED'',
       1048576), (''MEM_RCU'', 2097152), (''NON_OWN_REF'', 4194304), (''DYNPTR_TYPE_SKB'',
       8388608), (''DYNPTR_TYPE_XDP'', 16777216), (''MEM_ALIGNED'', 33554432), (''MEM_WRITE'',
       67108864), (''DYNPTR_TYPE_SKB_META'', 134217728), (''DYNPTR_TYPE_FILE'', 268435456),
       (''__BPF_TYPE_FLAG_MAX'', 268435457), (''__BPF_TYPE_LAST_FLAG'', 268435456)]"

definition enum_bpf_xdp_mode :: enumeration where
  "enum_bpf_xdp_mode =
     [(''XDP_MODE_SKB'', 0), (''XDP_MODE_DRV'', 1), (''XDP_MODE_HW'', 2), (''__MAX_XDP_MODE'',
       3)]"

definition enum_btf_arg_tag :: enumeration where
  "enum_btf_arg_tag =
     [(''ARG_TAG_CTX'', 1), (''ARG_TAG_NONNULL'', 2), (''ARG_TAG_TRUSTED'', 4),
       (''ARG_TAG_UNTRUSTED'', 8), (''ARG_TAG_NULLABLE'', 16), (''ARG_TAG_ARENA'', 32)]"

definition enum_btf_field_iter_kind :: enumeration where
  "enum_btf_field_iter_kind =
     [(''BTF_FIELD_ITER_IDS'', 0), (''BTF_FIELD_ITER_STRS'', 1)]"

definition enum_btf_field_type :: enumeration where
  "enum_btf_field_type =
     [(''BPF_SPIN_LOCK'', 1), (''BPF_TIMER'', 2), (''BPF_KPTR_UNREF'', 4), (''BPF_KPTR_REF'', 8),
       (''BPF_KPTR_PERCPU'', 16), (''BPF_KPTR'', 28), (''BPF_LIST_HEAD'', 32),
       (''BPF_LIST_NODE'', 64), (''BPF_RB_ROOT'', 128), (''BPF_RB_NODE'', 256),
       (''BPF_GRAPH_NODE'', 320), (''BPF_GRAPH_ROOT'', 160), (''BPF_REFCOUNT'', 512),
       (''BPF_WORKQUEUE'', 1024), (''BPF_UPTR'', 2048), (''BPF_RES_SPIN_LOCK'', 4096),
       (''BPF_TASK_WORK'', 8192)]"

definition enum_btf_func_linkage :: enumeration where
  "enum_btf_func_linkage =
     [(''BTF_FUNC_STATIC'', 0), (''BTF_FUNC_GLOBAL'', 1), (''BTF_FUNC_EXTERN'', 2)]"

definition enum_btf_kfunc_hook :: enumeration where
  "enum_btf_kfunc_hook =
     [(''BTF_KFUNC_HOOK_COMMON'', 0), (''BTF_KFUNC_HOOK_XDP'', 1), (''BTF_KFUNC_HOOK_TC'', 2),
       (''BTF_KFUNC_HOOK_STRUCT_OPS'', 3), (''BTF_KFUNC_HOOK_TRACING'', 4),
       (''BTF_KFUNC_HOOK_SYSCALL'', 5), (''BTF_KFUNC_HOOK_FMODRET'', 6),
       (''BTF_KFUNC_HOOK_CGROUP'', 7), (''BTF_KFUNC_HOOK_SCHED_ACT'', 8),
       (''BTF_KFUNC_HOOK_SK_SKB'', 9), (''BTF_KFUNC_HOOK_SOCKET_FILTER'', 10),
       (''BTF_KFUNC_HOOK_LWT'', 11), (''BTF_KFUNC_HOOK_NETFILTER'', 12),
       (''BTF_KFUNC_HOOK_KPROBE'', 13), (''BTF_KFUNC_HOOK_MAX'', 14)]"

definition enum_btf_max :: enumeration where
  "enum_btf_max =
     [(''BTF_MAX_KIND'', 127), (''BTF_MAX_TYPE'', 1048575), (''BTF_MAX_NAME_OFFSET'', 16777215),
       (''BTF_MAX_VLEN'', 16777215)]"

definition enum_perf_bpf_event_type :: enumeration where
  "enum_perf_bpf_event_type =
     [(''PERF_BPF_EVENT_UNKNOWN'', 0), (''PERF_BPF_EVENT_PROG_LOAD'', 1),
       (''PERF_BPF_EVENT_PROG_UNLOAD'', 2), (''PERF_BPF_EVENT_MAX'', 3)]"

definition enum_priv_stack_mode :: enumeration where
  "enum_priv_stack_mode =
     [(''PRIV_STACK_UNKNOWN'', 0), (''NO_PRIV_STACK'', 1), (''PRIV_STACK_ADAPTIVE'', 2)]"

definition enum_xdp_action :: enumeration where
  "enum_xdp_action =
     [(''XDP_ABORTED'', 0), (''XDP_DROP'', 1), (''XDP_PASS'', 2), (''XDP_TX'', 3),
       (''XDP_REDIRECT'', 4)]"

section \<open>Numbering\<close>

text \<open>The enumerations in which every enumerator's value is its position.\<close>

definition positional_enums :: "enumeration list" where
  "positional_enums = [
     enum_bpf_adj_room_mode, enum_bpf_async_op, enum_bpf_async_type, enum_bpf_attach_type,
     enum_bpf_audit, enum_bpf_cgroup_iter_order, enum_bpf_cgroup_storage_type,
     enum_bpf_check_mtu_ret, enum_bpf_cond_pseudo_jmp, enum_bpf_core_relo_kind,
     enum_bpf_dynptr_type, enum_bpf_features, enum_bpf_func_id, enum_bpf_hdr_start_off,
     enum_bpf_iter_state, enum_bpf_iter_task_type, enum_bpf_jit_poke_reason, enum_bpf_link_type,
     enum_bpf_lru_list_type, enum_bpf_lwt_encap_mode, enum_bpf_netdev_command,
     enum_bpf_perf_event_type, enum_bpf_prog_type, enum_bpf_reg_arg_type, enum_bpf_sig_keyring,
     enum_bpf_sig_verdict, enum_bpf_stack_build_id_status, enum_bpf_stack_slot_type,
     enum_bpf_stats_type, enum_bpf_struct_ops_state, enum_bpf_struct_walk_result,
     enum_bpf_task_fd_type, enum_bpf_task_vma_iter_find_op, enum_bpf_task_work_state,
     enum_bpf_text_poke_type, enum_bpf_tramp_prog_type, enum_bpf_type, enum_bpf_xdp_mode,
     enum_btf_field_iter_kind, enum_btf_func_linkage, enum_btf_kfunc_hook,
     enum_perf_bpf_event_type, enum_priv_stack_mode, enum_sk_action, enum_xdp_action]"

lemma positional_enums_count_up: "e \<in> set positional_enums \<Longrightarrow> counts_up e"
proof -
  have "list_all counts_up positional_enums"
    by (simp add: positional_enums_def counts_up_def upt_rec
    enum_bpf_adj_room_mode_def enum_bpf_async_op_def enum_bpf_async_type_def
    enum_bpf_attach_type_def enum_bpf_audit_def enum_bpf_cgroup_iter_order_def
    enum_bpf_cgroup_storage_type_def enum_bpf_check_mtu_ret_def enum_bpf_cond_pseudo_jmp_def
    enum_bpf_core_relo_kind_def enum_bpf_dynptr_type_def enum_bpf_features_def
    enum_bpf_func_id_def enum_bpf_func_id_1_def enum_bpf_func_id_2_def
    enum_bpf_hdr_start_off_def enum_bpf_iter_state_def enum_bpf_iter_task_type_def
    enum_bpf_jit_poke_reason_def enum_bpf_link_type_def enum_bpf_lru_list_type_def
    enum_bpf_lwt_encap_mode_def enum_bpf_netdev_command_def enum_bpf_perf_event_type_def
    enum_bpf_prog_type_def enum_bpf_reg_arg_type_def enum_bpf_sig_keyring_def
    enum_bpf_sig_verdict_def enum_bpf_stack_build_id_status_def enum_bpf_stack_slot_type_def
    enum_bpf_stats_type_def enum_bpf_struct_ops_state_def enum_bpf_struct_walk_result_def
    enum_bpf_task_fd_type_def enum_bpf_task_vma_iter_find_op_def enum_bpf_task_work_state_def
    enum_bpf_text_poke_type_def enum_bpf_tramp_prog_type_def enum_bpf_type_def
    enum_bpf_xdp_mode_def enum_btf_field_iter_kind_def enum_btf_func_linkage_def
    enum_btf_kfunc_hook_def enum_perf_bpf_event_type_def enum_priv_stack_mode_def
    enum_sk_action_def enum_xdp_action_def)
  then show "e \<in> set positional_enums \<Longrightarrow> counts_up e" by (simp add: list_all_iff)
qed


end
