(* ===== verification/VmlinuxNet.thy ===== *)
theory VmlinuxNet
  imports CLayout
begin

text \<open>
  The packet headers and socket addresses of src/src/netmon-go/bpf/vmlinux.h, whose byte
  positions the packet programs rely on.
\<close>

definition struct_iphdr :: cty where
  "struct_iphdr =
     CStruct [Bits ''ihl'' 1 4, Bits ''version'' 1 4, Fld ''tos'' cU8, Fld ''tot_len'' cU16,
       Fld ''id'' cU16, Fld ''frag_off'' cU16, Fld ''ttl'' cU8, Fld ''protocol'' cU8,
       Fld ''check'' cU16, Fld '''' (CUnion [Fld '''' (CStruct [Fld ''saddr'' cU32,
       Fld ''daddr'' cU32]), Fld ''addrs'' (CStruct [Fld ''saddr'' cU32, Fld ''daddr'' cU32])])]"

lemma struct_iphdr_layout [simp]:
  "wf_cty struct_iphdr"
  "size_of struct_iphdr = 20"
  "align_of struct_iphdr = 4"
  by (simp_all add: struct_iphdr_def layout_simps)

definition struct_in6_addr :: cty where
  "struct_in6_addr =
     CStruct [Fld ''in6_u'' (CUnion [Fld ''u6_addr8'' (CArr 16 cU8),
       Fld ''u6_addr16'' (CArr 8 cU16), Fld ''u6_addr32'' (CArr 4 cU32)])]"

lemma struct_in6_addr_layout [simp]:
  "wf_cty struct_in6_addr"
  "size_of struct_in6_addr = 16"
  "align_of struct_in6_addr = 4"
  by (simp_all add: struct_in6_addr_def layout_simps)

definition struct_ipv6hdr :: cty where
  "struct_ipv6hdr =
     CStruct [Bits ''priority'' 1 4, Bits ''version'' 1 4, Fld ''flow_lbl'' (CArr 3 cU8),
       Fld ''payload_len'' cU16, Fld ''nexthdr'' cU8, Fld ''hop_limit'' cU8,
       Fld '''' (CUnion [Fld '''' (CStruct [Fld ''saddr'' struct_in6_addr,
       Fld ''daddr'' struct_in6_addr]), Fld ''addrs'' (CStruct [Fld ''saddr'' struct_in6_addr,
       Fld ''daddr'' struct_in6_addr])])]"

lemma struct_ipv6hdr_layout [simp]:
  "wf_cty struct_ipv6hdr"
  "size_of struct_ipv6hdr = 40"
  "align_of struct_ipv6hdr = 4"
  by (simp_all add: struct_ipv6hdr_def layout_simps)

definition struct_udphdr :: cty where
  "struct_udphdr =
     CStruct [Fld ''source'' cU16, Fld ''dest'' cU16, Fld ''len'' cU16, Fld ''check'' cU16]"

lemma struct_udphdr_layout [simp]:
  "wf_cty struct_udphdr"
  "size_of struct_udphdr = 8"
  "align_of struct_udphdr = 2"
  by (simp_all add: struct_udphdr_def layout_simps)

definition struct_tcphdr :: cty where
  "struct_tcphdr =
     CStruct [Fld ''source'' cU16, Fld ''dest'' cU16, Fld ''seq'' cU32, Fld ''ack_seq'' cU32,
       Bits ''ae'' 2 1, Bits ''res1'' 2 3, Bits ''doff'' 2 4, Bits ''fin'' 2 1, Bits ''syn'' 2 1,
       Bits ''rst'' 2 1, Bits ''psh'' 2 1, Bits ''ack'' 2 1, Bits ''urg'' 2 1, Bits ''ece'' 2 1,
       Bits ''cwr'' 2 1, Fld ''window'' cU16, Fld ''check'' cU16, Fld ''urg_ptr'' cU16]"

lemma struct_tcphdr_layout [simp]:
  "wf_cty struct_tcphdr"
  "size_of struct_tcphdr = 20"
  "align_of struct_tcphdr = 4"
  by (simp_all add: struct_tcphdr_def layout_simps)

definition struct_in_addr :: cty where
  "struct_in_addr =
     CStruct [Fld ''s_addr'' cU32]"

lemma struct_in_addr_layout [simp]:
  "wf_cty struct_in_addr"
  "size_of struct_in_addr = 4"
  "align_of struct_in_addr = 4"
  by (simp_all add: struct_in_addr_def layout_simps)

definition struct_ethhdr :: cty where
  "struct_ethhdr =
     CStruct [Fld ''h_dest'' (CArr 6 cU8), Fld ''h_source'' (CArr 6 cU8), Fld ''h_proto'' cU16]"

lemma struct_ethhdr_layout [simp]:
  "wf_cty struct_ethhdr"
  "size_of struct_ethhdr = 14"
  "align_of struct_ethhdr = 2"
  by (simp_all add: struct_ethhdr_def layout_simps)

definition struct_sockaddr :: cty where
  "struct_sockaddr =
     CStruct [Fld ''sa_family'' cU16, Fld ''sa_data'' (CArr 14 cU8)]"

lemma struct_sockaddr_layout [simp]:
  "wf_cty struct_sockaddr"
  "size_of struct_sockaddr = 16"
  "align_of struct_sockaddr = 2"
  by (simp_all add: struct_sockaddr_def layout_simps)

definition struct_sockaddr_in :: cty where
  "struct_sockaddr_in =
     CStruct [Fld ''sin_family'' cU16, Fld ''sin_port'' cU16, Fld ''sin_addr'' struct_in_addr,
       Fld ''__pad'' (CArr 8 cU8)]"

lemma struct_sockaddr_in_layout [simp]:
  "wf_cty struct_sockaddr_in"
  "size_of struct_sockaddr_in = 16"
  "align_of struct_sockaddr_in = 4"
  by (simp_all add: struct_sockaddr_in_def layout_simps)

definition struct_sockaddr_in6 :: cty where
  "struct_sockaddr_in6 =
     CStruct [Fld ''sin6_family'' cU16, Fld ''sin6_port'' cU16, Fld ''sin6_flowinfo'' cU32,
       Fld ''sin6_addr'' struct_in6_addr, Fld ''sin6_scope_id'' cU32]"

lemma struct_sockaddr_in6_layout [simp]:
  "wf_cty struct_sockaddr_in6"
  "size_of struct_sockaddr_in6 = 28"
  "align_of struct_sockaddr_in6 = 4"
  by (simp_all add: struct_sockaddr_in6_def layout_simps)

definition struct_icmphdr :: cty where
  "struct_icmphdr =
     CStruct [Fld ''type'' cU8, Fld ''code'' cU8, Fld ''checksum'' cU16,
       Fld ''un'' (CUnion [Fld ''echo'' (CStruct [Fld ''id'' cU16, Fld ''sequence'' cU16]),
       Fld ''gateway'' cU32, Fld ''frag'' (CStruct [Fld ''__unused'' cU16, Fld ''mtu'' cU16]),
       Fld ''reserved'' (CArr 4 cU8)])]"

lemma struct_icmphdr_layout [simp]:
  "wf_cty struct_icmphdr"
  "size_of struct_icmphdr = 8"
  "align_of struct_icmphdr = 4"
  by (simp_all add: struct_icmphdr_def layout_simps)

definition struct_icmpv6_echo :: cty where
  "struct_icmpv6_echo =
     CStruct [Fld ''identifier'' cU16, Fld ''sequence'' cU16]"

lemma struct_icmpv6_echo_layout [simp]:
  "wf_cty struct_icmpv6_echo"
  "size_of struct_icmpv6_echo = 4"
  "align_of struct_icmpv6_echo = 2"
  by (simp_all add: struct_icmpv6_echo_def layout_simps)

definition struct_icmpv6_nd_advt :: cty where
  "struct_icmpv6_nd_advt =
     CStruct [Bits ''reserved'' 4 5, Bits ''override'' 4 1, Bits ''solicited'' 4 1,
       Bits ''router'' 4 1, Bits ''reserved2'' 4 24]"

lemma struct_icmpv6_nd_advt_layout [simp]:
  "wf_cty struct_icmpv6_nd_advt"
  "size_of struct_icmpv6_nd_advt = 4"
  "align_of struct_icmpv6_nd_advt = 4"
  by (simp_all add: struct_icmpv6_nd_advt_def layout_simps)

definition struct_icmpv6_nd_ra :: cty where
  "struct_icmpv6_nd_ra =
     CStruct [Fld ''hop_limit'' cU8, Bits ''reserved'' 1 3, Bits ''router_pref'' 1 2,
       Bits ''home_agent'' 1 1, Bits ''other'' 1 1, Bits ''managed'' 1 1,
       Fld ''rt_lifetime'' cU16]"

lemma struct_icmpv6_nd_ra_layout [simp]:
  "wf_cty struct_icmpv6_nd_ra"
  "size_of struct_icmpv6_nd_ra = 4"
  "align_of struct_icmpv6_nd_ra = 2"
  by (simp_all add: struct_icmpv6_nd_ra_def layout_simps)

definition struct_icmp6hdr :: cty where
  "struct_icmp6hdr =
     CStruct [Fld ''icmp6_type'' cU8, Fld ''icmp6_code'' cU8, Fld ''icmp6_cksum'' cU16,
       Fld ''icmp6_dataun'' (CUnion [Fld ''un_data32'' (CArr 1 cU32),
       Fld ''un_data16'' (CArr 2 cU16), Fld ''un_data8'' (CArr 4 cU8),
       Fld ''u_echo'' struct_icmpv6_echo, Fld ''u_nd_advt'' struct_icmpv6_nd_advt,
       Fld ''u_nd_ra'' struct_icmpv6_nd_ra])]"

lemma struct_icmp6hdr_layout [simp]:
  "wf_cty struct_icmp6hdr"
  "size_of struct_icmp6hdr = 8"
  "align_of struct_icmp6hdr = 4"
  by (simp_all add: struct_icmp6hdr_def layout_simps)

definition struct_ipv6_opt_hdr :: cty where
  "struct_ipv6_opt_hdr =
     CStruct [Fld ''nexthdr'' cU8, Fld ''hdrlen'' cU8]"

lemma struct_ipv6_opt_hdr_layout [simp]:
  "wf_cty struct_ipv6_opt_hdr"
  "size_of struct_ipv6_opt_hdr = 2"
  "align_of struct_ipv6_opt_hdr = 1"
  by (simp_all add: struct_ipv6_opt_hdr_def layout_simps)

definition struct_frag_hdr :: cty where
  "struct_frag_hdr =
     CStruct [Fld ''nexthdr'' cU8, Fld ''reserved'' cU8, Fld ''frag_off'' cU16,
       Fld ''identification'' cU32]"

lemma struct_frag_hdr_layout [simp]:
  "wf_cty struct_frag_hdr"
  "size_of struct_frag_hdr = 8"
  "align_of struct_frag_hdr = 4"
  by (simp_all add: struct_frag_hdr_def layout_simps)

definition struct_vlan_hdr :: cty where
  "struct_vlan_hdr =
     CStruct [Fld ''h_vlan_TCI'' cU16, Fld ''h_vlan_encapsulated_proto'' cU16]"

lemma struct_vlan_hdr_layout [simp]:
  "wf_cty struct_vlan_hdr"
  "size_of struct_vlan_hdr = 4"
  "align_of struct_vlan_hdr = 2"
  by (simp_all add: struct_vlan_hdr_def layout_simps)

end
