(* ===== verification/VmlinuxUapi.thy ===== *)
theory VmlinuxUapi
  imports CLayout
begin

text \<open>
  The user-visible eBPF structures of src/src/netmon-go/bpf/vmlinux.h: the contexts the
  programs receive (\<open>struct_bpf_sock_addr\<close>, \<open>struct___sk_buff\<close>), the information the loader
  reads back, the argument of bpf(2) and the BTF records. Each declaration has a fact that
  evaluates its size and alignment.
\<close>

definition struct_bpf_sock_addr :: cty where
  "struct_bpf_sock_addr =
     CStruct [Fld ''user_family'' cU32, Fld ''user_ip4'' cU32, Fld ''user_ip6'' (CArr 4 cU32),
       Fld ''user_port'' cU32, Fld ''family'' cU32, Fld ''type'' cU32, Fld ''protocol'' cU32,
       Fld ''msg_src_ip4'' cU32, Fld ''msg_src_ip6'' (CArr 4 cU32),
       Fld '''' (CUnion [Fld ''sk'' cPtr])]"

lemma struct_bpf_sock_addr_layout [simp]:
  "wf_cty struct_bpf_sock_addr"
  "size_of struct_bpf_sock_addr = 72"
  "align_of struct_bpf_sock_addr = 8"
  by (simp_all add: struct_bpf_sock_addr_def layout_simps)

definition struct___sk_buff :: cty where
  "struct___sk_buff =
     CStruct [Fld ''len'' cU32, Fld ''pkt_type'' cU32, Fld ''mark'' cU32,
       Fld ''queue_mapping'' cU32, Fld ''protocol'' cU32, Fld ''vlan_present'' cU32,
       Fld ''vlan_tci'' cU32, Fld ''vlan_proto'' cU32, Fld ''priority'' cU32,
       Fld ''ingress_ifindex'' cU32, Fld ''ifindex'' cU32, Fld ''tc_index'' cU32,
       Fld ''cb'' (CArr 5 cU32), Fld ''hash'' cU32, Fld ''tc_classid'' cU32, Fld ''data'' cU32,
       Fld ''data_end'' cU32, Fld ''napi_id'' cU32, Fld ''family'' cU32, Fld ''remote_ip4'' cU32,
       Fld ''local_ip4'' cU32, Fld ''remote_ip6'' (CArr 4 cU32), Fld ''local_ip6'' (CArr 4 cU32),
       Fld ''remote_port'' cU32, Fld ''local_port'' cU32, Fld ''data_meta'' cU32,
       Fld '''' (CUnion [Fld ''flow_keys'' cPtr]), Fld ''tstamp'' cU64, Fld ''wire_len'' cU32,
       Fld ''gso_segs'' cU32, Fld '''' (CUnion [Fld ''sk'' cPtr]), Fld ''gso_size'' cU32,
       Fld ''tstamp_type'' cU8, Fld ''hwtstamp'' cU64]"

lemma struct___sk_buff_layout [simp]:
  "wf_cty struct___sk_buff"
  "size_of struct___sk_buff = 192"
  "align_of struct___sk_buff = 8"
  by (simp_all add: struct___sk_buff_def layout_simps)

definition struct_bpf_sock :: cty where
  "struct_bpf_sock =
     CStruct [Fld ''bound_dev_if'' cU32, Fld ''family'' cU32, Fld ''type'' cU32,
       Fld ''protocol'' cU32, Fld ''mark'' cU32, Fld ''priority'' cU32, Fld ''src_ip4'' cU32,
       Fld ''src_ip6'' (CArr 4 cU32), Fld ''src_port'' cU32, Fld ''dst_port'' cU16,
       Fld ''dst_ip4'' cU32, Fld ''dst_ip6'' (CArr 4 cU32), Fld ''state'' cU32,
       Fld ''rx_queue_mapping'' cU32]"

lemma struct_bpf_sock_layout [simp]:
  "wf_cty struct_bpf_sock"
  "size_of struct_bpf_sock = 80"
  "align_of struct_bpf_sock = 4"
  by (simp_all add: struct_bpf_sock_def layout_simps)

definition struct_bpf_tcp_sock :: cty where
  "struct_bpf_tcp_sock =
     CStruct [Fld ''snd_cwnd'' cU32, Fld ''srtt_us'' cU32, Fld ''rtt_min'' cU32,
       Fld ''snd_ssthresh'' cU32, Fld ''rcv_nxt'' cU32, Fld ''snd_nxt'' cU32,
       Fld ''snd_una'' cU32, Fld ''mss_cache'' cU32, Fld ''ecn_flags'' cU32,
       Fld ''rate_delivered'' cU32, Fld ''rate_interval_us'' cU32, Fld ''packets_out'' cU32,
       Fld ''retrans_out'' cU32, Fld ''total_retrans'' cU32, Fld ''segs_in'' cU32,
       Fld ''data_segs_in'' cU32, Fld ''segs_out'' cU32, Fld ''data_segs_out'' cU32,
       Fld ''lost_out'' cU32, Fld ''sacked_out'' cU32, Fld ''bytes_received'' cU64,
       Fld ''bytes_acked'' cU64, Fld ''dsack_dups'' cU32, Fld ''delivered'' cU32,
       Fld ''delivered_ce'' cU32, Fld ''icsk_retransmits'' cU32]"

lemma struct_bpf_tcp_sock_layout [simp]:
  "wf_cty struct_bpf_tcp_sock"
  "size_of struct_bpf_tcp_sock = 112"
  "align_of struct_bpf_tcp_sock = 8"
  by (simp_all add: struct_bpf_tcp_sock_def layout_simps)

definition struct_bpf_sock_tuple :: cty where
  "struct_bpf_sock_tuple =
     CStruct [Fld '''' (CUnion [Fld ''ipv4'' (CStruct [Fld ''saddr'' cU32, Fld ''daddr'' cU32,
       Fld ''sport'' cU16, Fld ''dport'' cU16]),
       Fld ''ipv6'' (CStruct [Fld ''saddr'' (CArr 4 cU32), Fld ''daddr'' (CArr 4 cU32),
       Fld ''sport'' cU16, Fld ''dport'' cU16])])]"

lemma struct_bpf_sock_tuple_layout [simp]:
  "wf_cty struct_bpf_sock_tuple"
  "size_of struct_bpf_sock_tuple = 36"
  "align_of struct_bpf_sock_tuple = 4"
  by (simp_all add: struct_bpf_sock_tuple_def layout_simps)

definition struct_bpf_sock_ops :: cty where
  "struct_bpf_sock_ops =
     CStruct [Fld ''op'' cU32, Fld '''' (CUnion [Fld ''args'' (CArr 4 cU32), Fld ''reply'' cU32,
       Fld ''replylong'' (CArr 4 cU32)]), Fld ''family'' cU32, Fld ''remote_ip4'' cU32,
       Fld ''local_ip4'' cU32, Fld ''remote_ip6'' (CArr 4 cU32), Fld ''local_ip6'' (CArr 4 cU32),
       Fld ''remote_port'' cU32, Fld ''local_port'' cU32, Fld ''is_fullsock'' cU32,
       Fld ''snd_cwnd'' cU32, Fld ''srtt_us'' cU32, Fld ''bpf_sock_ops_cb_flags'' cU32,
       Fld ''state'' cU32, Fld ''rtt_min'' cU32, Fld ''snd_ssthresh'' cU32, Fld ''rcv_nxt'' cU32,
       Fld ''snd_nxt'' cU32, Fld ''snd_una'' cU32, Fld ''mss_cache'' cU32,
       Fld ''ecn_flags'' cU32, Fld ''rate_delivered'' cU32, Fld ''rate_interval_us'' cU32,
       Fld ''packets_out'' cU32, Fld ''retrans_out'' cU32, Fld ''total_retrans'' cU32,
       Fld ''segs_in'' cU32, Fld ''data_segs_in'' cU32, Fld ''segs_out'' cU32,
       Fld ''data_segs_out'' cU32, Fld ''lost_out'' cU32, Fld ''sacked_out'' cU32,
       Fld ''sk_txhash'' cU32, Fld ''bytes_received'' cU64, Fld ''bytes_acked'' cU64,
       Fld '''' (CUnion [Fld ''sk'' cPtr]), Fld '''' (CUnion [Fld ''skb_data'' cPtr]),
       Fld '''' (CUnion [Fld ''skb_data_end'' cPtr]), Fld ''skb_len'' cU32,
       Fld ''skb_tcp_flags'' cU32, Fld ''skb_hwtstamp'' cU64]"

lemma struct_bpf_sock_ops_layout [simp]:
  "wf_cty struct_bpf_sock_ops"
  "size_of struct_bpf_sock_ops = 224"
  "align_of struct_bpf_sock_ops = 8"
  by (simp_all add: struct_bpf_sock_ops_def layout_simps)

definition struct_bpf_sockopt :: cty where
  "struct_bpf_sockopt =
     CStruct [Fld '''' (CUnion [Fld ''sk'' cPtr]), Fld '''' (CUnion [Fld ''optval'' cPtr]),
       Fld '''' (CUnion [Fld ''optval_end'' cPtr]), Fld ''level'' cU32, Fld ''optname'' cU32,
       Fld ''optlen'' cU32, Fld ''retval'' cU32]"

lemma struct_bpf_sockopt_layout [simp]:
  "wf_cty struct_bpf_sockopt"
  "size_of struct_bpf_sockopt = 40"
  "align_of struct_bpf_sockopt = 8"
  by (simp_all add: struct_bpf_sockopt_def layout_simps)

definition struct_bpf_sk_lookup :: cty where
  "struct_bpf_sk_lookup =
     CStruct [Fld '''' (CUnion [Fld '''' (CUnion [Fld ''sk'' cPtr]), Fld ''cookie'' cU64]),
       Fld ''family'' cU32, Fld ''protocol'' cU32, Fld ''remote_ip4'' cU32,
       Fld ''remote_ip6'' (CArr 4 cU32), Fld ''remote_port'' cU16, Fld ''local_ip4'' cU32,
       Fld ''local_ip6'' (CArr 4 cU32), Fld ''local_port'' cU32, Fld ''ingress_ifindex'' cU32]"

lemma struct_bpf_sk_lookup_layout [simp]:
  "wf_cty struct_bpf_sk_lookup"
  "size_of struct_bpf_sk_lookup = 72"
  "align_of struct_bpf_sk_lookup = 8"
  by (simp_all add: struct_bpf_sk_lookup_def layout_simps)

definition struct_bpf_flow_keys :: cty where
  "struct_bpf_flow_keys =
     CStruct [Fld ''nhoff'' cU16, Fld ''thoff'' cU16, Fld ''addr_proto'' cU16,
       Fld ''is_frag'' cU8, Fld ''is_first_frag'' cU8, Fld ''is_encap'' cU8,
       Fld ''ip_proto'' cU8, Fld ''n_proto'' cU16, Fld ''sport'' cU16, Fld ''dport'' cU16,
       Fld '''' (CUnion [Fld '''' (CStruct [Fld ''ipv4_src'' cU32, Fld ''ipv4_dst'' cU32]),
       Fld '''' (CStruct [Fld ''ipv6_src'' (CArr 4 cU32), Fld ''ipv6_dst'' (CArr 4 cU32)])]),
       Fld ''flags'' cU32, Fld ''flow_label'' cU32]"

lemma struct_bpf_flow_keys_layout [simp]:
  "wf_cty struct_bpf_flow_keys"
  "size_of struct_bpf_flow_keys = 56"
  "align_of struct_bpf_flow_keys = 4"
  by (simp_all add: struct_bpf_flow_keys_def layout_simps)

definition struct_bpf_fib_lookup :: cty where
  "struct_bpf_fib_lookup =
     CStruct [Fld ''family'' cU8, Fld ''l4_protocol'' cU8, Fld ''sport'' cU16,
       Fld ''dport'' cU16, Fld '''' (CUnion [Fld ''tot_len'' cU16, Fld ''mtu_result'' cU16]),
       Fld ''ifindex'' cU32, Fld '''' (CUnion [Fld ''tos'' cU8, Fld ''flowinfo'' cU32,
       Fld ''rt_metric'' cU32]), Fld '''' (CUnion [Fld ''ipv4_src'' cU32,
       Fld ''ipv6_src'' (CArr 4 cU32)]), Fld '''' (CUnion [Fld ''ipv4_dst'' cU32,
       Fld ''ipv6_dst'' (CArr 4 cU32)]),
       Fld '''' (CUnion [Fld '''' (CStruct [Fld ''h_vlan_proto'' cU16, Fld ''h_vlan_TCI'' cU16]),
       Fld ''tbid'' cU32]), Fld '''' (CUnion [Fld '''' (CStruct [Fld ''mark'' cU32]),
       Fld '''' (CStruct [Fld ''smac'' (CArr 6 cU8), Fld ''dmac'' (CArr 6 cU8)])])]"

lemma struct_bpf_fib_lookup_layout [simp]:
  "wf_cty struct_bpf_fib_lookup"
  "size_of struct_bpf_fib_lookup = 64"
  "align_of struct_bpf_fib_lookup = 4"
  by (simp_all add: struct_bpf_fib_lookup_def layout_simps)

definition struct_bpf_tunnel_key :: cty where
  "struct_bpf_tunnel_key =
     CStruct [Fld ''tunnel_id'' cU32, Fld '''' (CUnion [Fld ''remote_ipv4'' cU32,
       Fld ''remote_ipv6'' (CArr 4 cU32)]), Fld ''tunnel_tos'' cU8, Fld ''tunnel_ttl'' cU8,
       Fld '''' (CUnion [Fld ''tunnel_ext'' cU16, Fld ''tunnel_flags'' cU16]),
       Fld ''tunnel_label'' cU32, Fld '''' (CUnion [Fld ''local_ipv4'' cU32,
       Fld ''local_ipv6'' (CArr 4 cU32)])]"

lemma struct_bpf_tunnel_key_layout [simp]:
  "wf_cty struct_bpf_tunnel_key"
  "size_of struct_bpf_tunnel_key = 44"
  "align_of struct_bpf_tunnel_key = 4"
  by (simp_all add: struct_bpf_tunnel_key_def layout_simps)

definition struct_bpf_map_info :: cty where
  "struct_bpf_map_info =
     CStruct [Fld ''type'' cU32, Fld ''id'' cU32, Fld ''key_size'' cU32, Fld ''value_size'' cU32,
       Fld ''max_entries'' cU32, Fld ''map_flags'' cU32, Fld ''name'' (CArr 16 cU8),
       Fld ''ifindex'' cU32, Fld ''btf_vmlinux_value_type_id'' cU32, Fld ''netns_dev'' cU64,
       Fld ''netns_ino'' cU64, Fld ''btf_id'' cU32, Fld ''btf_key_type_id'' cU32,
       Fld ''btf_value_type_id'' cU32, Fld ''btf_vmlinux_id'' cU32, Fld ''map_extra'' cU64,
       Fld ''hash'' cU64, Fld ''hash_size'' cU32]"

lemma struct_bpf_map_info_layout [simp]:
  "wf_cty struct_bpf_map_info"
  "size_of struct_bpf_map_info = 104"
  "align_of struct_bpf_map_info = 8"
  by (simp_all add: struct_bpf_map_info_def layout_simps)

definition struct_bpf_prog_info :: cty where
  "struct_bpf_prog_info =
     CStruct [Fld ''type'' cU32, Fld ''id'' cU32, Fld ''tag'' (CArr 8 cU8),
       Fld ''jited_prog_len'' cU32, Fld ''xlated_prog_len'' cU32, Fld ''jited_prog_insns'' cU64,
       Fld ''xlated_prog_insns'' cU64, Fld ''load_time'' cU64, Fld ''created_by_uid'' cU32,
       Fld ''nr_map_ids'' cU32, Fld ''map_ids'' cU64, Fld ''name'' (CArr 16 cU8),
       Fld ''ifindex'' cU32, Bits ''gpl_compatible'' 4 1, Fld ''netns_dev'' cU64,
       Fld ''netns_ino'' cU64, Fld ''nr_jited_ksyms'' cU32, Fld ''nr_jited_func_lens'' cU32,
       Fld ''jited_ksyms'' cU64, Fld ''jited_func_lens'' cU64, Fld ''btf_id'' cU32,
       Fld ''func_info_rec_size'' cU32, Fld ''func_info'' cU64, Fld ''nr_func_info'' cU32,
       Fld ''nr_line_info'' cU32, Fld ''line_info'' cU64, Fld ''jited_line_info'' cU64,
       Fld ''nr_jited_line_info'' cU32, Fld ''line_info_rec_size'' cU32,
       Fld ''jited_line_info_rec_size'' cU32, Fld ''nr_prog_tags'' cU32, Fld ''prog_tags'' cU64,
       Fld ''run_time_ns'' cU64, Fld ''run_cnt'' cU64, Fld ''recursion_misses'' cU64,
       Fld ''verified_insns'' cU32, Fld ''attach_btf_obj_id'' cU32, Fld ''attach_btf_id'' cU32]"

lemma struct_bpf_prog_info_layout [simp]:
  "wf_cty struct_bpf_prog_info"
  "size_of struct_bpf_prog_info = 232"
  "align_of struct_bpf_prog_info = 8"
  by (simp_all add: struct_bpf_prog_info_def layout_simps)

definition struct_bpf_btf_info :: cty where
  "struct_bpf_btf_info =
     CStruct [Fld ''btf'' cU64, Fld ''btf_size'' cU32, Fld ''id'' cU32, Fld ''name'' cU64,
       Fld ''name_len'' cU32, Fld ''kernel_btf'' cU32]"

lemma struct_bpf_btf_info_layout [simp]:
  "wf_cty struct_bpf_btf_info"
  "size_of struct_bpf_btf_info = 32"
  "align_of struct_bpf_btf_info = 8"
  by (simp_all add: struct_bpf_btf_info_def layout_simps)

definition struct_bpf_link_info :: cty where
  "struct_bpf_link_info =
     CStruct [Fld ''type'' cU32, Fld ''id'' cU32, Fld ''prog_id'' cU32,
       Fld '''' (CUnion [Fld ''raw_tracepoint'' (CStruct [Fld ''tp_name'' cU64,
       Fld ''tp_name_len'' cU32, Fld ''cookie'' cU64]),
       Fld ''tracing'' (CStruct [Fld ''attach_type'' cU32, Fld ''target_obj_id'' cU32,
       Fld ''target_btf_id'' cU32, Fld ''cookie'' cU64]),
       Fld ''cgroup'' (CStruct [Fld ''cgroup_id'' cU64, Fld ''attach_type'' cU32]),
       Fld ''iter'' (CStruct [Fld ''target_name'' cU64, Fld ''target_name_len'' cU32,
       Fld '''' (CUnion [Fld ''map'' (CStruct [Fld ''map_id'' cU32])]),
       Fld '''' (CUnion [Fld ''cgroup'' (CStruct [Fld ''cgroup_id'' cU64, Fld ''order'' cU32]),
       Fld ''task'' (CStruct [Fld ''tid'' cU32, Fld ''pid'' cU32])])]),
       Fld ''netns'' (CStruct [Fld ''netns_ino'' cU32, Fld ''attach_type'' cU32]),
       Fld ''xdp'' (CStruct [Fld ''ifindex'' cU32]),
       Fld ''struct_ops'' (CStruct [Fld ''map_id'' cU32]),
       Fld ''netfilter'' (CStruct [Fld ''pf'' cU32, Fld ''hooknum'' cU32, Fld ''priority'' cU32,
       Fld ''flags'' cU32]), Fld ''kprobe_multi'' (CStruct [Fld ''addrs'' cU64,
       Fld ''count'' cU32, Fld ''flags'' cU32, Fld ''missed'' cU64, Fld ''cookies'' cU64]),
       Fld ''uprobe_multi'' (CStruct [Fld ''path'' cU64, Fld ''offsets'' cU64,
       Fld ''ref_ctr_offsets'' cU64, Fld ''cookies'' cU64, Fld ''path_size'' cU32,
       Fld ''count'' cU32, Fld ''flags'' cU32, Fld ''pid'' cU32]),
       Fld ''perf_event'' (CStruct [Fld ''type'' cU32,
       Fld '''' (CUnion [Fld ''uprobe'' (CStruct [Fld ''file_name'' cU64, Fld ''name_len'' cU32,
       Fld ''offset'' cU32, Fld ''cookie'' cU64, Fld ''ref_ctr_offset'' cU64]),
       Fld ''kprobe'' (CStruct [Fld ''func_name'' cU64, Fld ''name_len'' cU32,
       Fld ''offset'' cU32, Fld ''addr'' cU64, Fld ''missed'' cU64, Fld ''cookie'' cU64]),
       Fld ''tracepoint'' (CStruct [Fld ''tp_name'' cU64, Fld ''name_len'' cU32,
       Fld ''cookie'' cU64]), Fld ''event'' (CStruct [Fld ''config'' cU64, Fld ''type'' cU32,
       Fld ''cookie'' cU64])])]), Fld ''tcx'' (CStruct [Fld ''ifindex'' cU32,
       Fld ''attach_type'' cU32]), Fld ''netkit'' (CStruct [Fld ''ifindex'' cU32,
       Fld ''attach_type'' cU32]), Fld ''sockmap'' (CStruct [Fld ''map_id'' cU32,
       Fld ''attach_type'' cU32])])]"

lemma struct_bpf_link_info_layout [simp]:
  "wf_cty struct_bpf_link_info"
  "size_of struct_bpf_link_info = 64"
  "align_of struct_bpf_link_info = 8"
  by (simp_all add: struct_bpf_link_info_def layout_simps)

definition struct_bpf_insn :: cty where
  "struct_bpf_insn =
     CStruct [Fld ''code'' cU8, Bits ''dst_reg'' 1 4, Bits ''src_reg'' 1 4, Fld ''off'' cU16,
       Fld ''imm'' cU32]"

lemma struct_bpf_insn_layout [simp]:
  "wf_cty struct_bpf_insn"
  "size_of struct_bpf_insn = 8"
  "align_of struct_bpf_insn = 4"
  by (simp_all add: struct_bpf_insn_def layout_simps)

definition struct_bpf_cgroup_storage_key :: cty where
  "struct_bpf_cgroup_storage_key =
     CStruct [Fld ''cgroup_inode_id'' cU64, Fld ''attach_type'' cU32]"

lemma struct_bpf_cgroup_storage_key_layout [simp]:
  "wf_cty struct_bpf_cgroup_storage_key"
  "size_of struct_bpf_cgroup_storage_key = 16"
  "align_of struct_bpf_cgroup_storage_key = 8"
  by (simp_all add: struct_bpf_cgroup_storage_key_def layout_simps)

definition struct_fred_cs :: cty where
  "struct_fred_cs =
     CStruct [Bits ''cs'' 8 16, Bits ''sl'' 8 2, Bits ''wfe'' 8 1]"

lemma struct_fred_cs_layout [simp]:
  "wf_cty struct_fred_cs"
  "size_of struct_fred_cs = 8"
  "align_of struct_fred_cs = 8"
  by (simp_all add: struct_fred_cs_def layout_simps)

definition struct_fred_ss :: cty where
  "struct_fred_ss =
     CStruct [Bits ''ss'' 8 16, Bits ''sti'' 8 1, Bits ''swevent'' 8 1, Bits ''nmi'' 8 1,
       Bits '''' 4 13, Bits ''vector'' 8 8, Bits '''' 2 8, Bits ''type'' 8 4, Bits '''' 1 4,
       Bits ''enclave'' 8 1, Bits ''l'' 8 1, Bits ''nested'' 8 1, Bits '''' 1 1,
       Bits ''insnlen'' 8 4]"

lemma struct_fred_ss_layout [simp]:
  "wf_cty struct_fred_ss"
  "size_of struct_fred_ss = 8"
  "align_of struct_fred_ss = 8"
  by (simp_all add: struct_fred_ss_def layout_simps)

definition struct_pt_regs :: cty where
  "struct_pt_regs =
     CStruct [Fld ''r15'' cU64, Fld ''r14'' cU64, Fld ''r13'' cU64, Fld ''r12'' cU64,
       Fld ''bp'' cU64, Fld ''bx'' cU64, Fld ''r11'' cU64, Fld ''r10'' cU64, Fld ''r9'' cU64,
       Fld ''r8'' cU64, Fld ''ax'' cU64, Fld ''cx'' cU64, Fld ''dx'' cU64, Fld ''si'' cU64,
       Fld ''di'' cU64, Fld ''orig_ax'' cU64, Fld ''ip'' cU64, Fld '''' (CUnion [Fld ''cs'' cU16,
       Fld ''csx'' cU64, Fld ''fred_cs'' struct_fred_cs]), Fld ''flags'' cU64, Fld ''sp'' cU64,
       Fld '''' (CUnion [Fld ''ss'' cU16, Fld ''ssx'' cU64, Fld ''fred_ss'' struct_fred_ss])]"

lemma struct_pt_regs_layout [simp]:
  "wf_cty struct_pt_regs"
  "size_of struct_pt_regs = 168"
  "align_of struct_pt_regs = 8"
  by (simp_all add: struct_pt_regs_def layout_simps)

definition struct_bpf_perf_event_data :: cty where
  "struct_bpf_perf_event_data =
     CStruct [Fld ''regs'' struct_pt_regs, Fld ''sample_period'' cU64, Fld ''addr'' cU64]"

lemma struct_bpf_perf_event_data_layout [simp]:
  "wf_cty struct_bpf_perf_event_data"
  "size_of struct_bpf_perf_event_data = 184"
  "align_of struct_bpf_perf_event_data = 8"
  by (simp_all add: struct_bpf_perf_event_data_def layout_simps)

definition struct_bpf_pidns_info :: cty where
  "struct_bpf_pidns_info =
     CStruct [Fld ''pid'' cU32, Fld ''tgid'' cU32]"

lemma struct_bpf_pidns_info_layout [simp]:
  "wf_cty struct_bpf_pidns_info"
  "size_of struct_bpf_pidns_info = 8"
  "align_of struct_bpf_pidns_info = 4"
  by (simp_all add: struct_bpf_pidns_info_def layout_simps)

definition struct_bpf_redir_neigh :: cty where
  "struct_bpf_redir_neigh =
     CStruct [Fld ''nh_family'' cU32, Fld '''' (CUnion [Fld ''ipv4_nh'' cU32,
       Fld ''ipv6_nh'' (CArr 4 cU32)])]"

lemma struct_bpf_redir_neigh_layout [simp]:
  "wf_cty struct_bpf_redir_neigh"
  "size_of struct_bpf_redir_neigh = 20"
  "align_of struct_bpf_redir_neigh = 4"
  by (simp_all add: struct_bpf_redir_neigh_def layout_simps)

definition struct_bpf_spin_lock :: cty where
  "struct_bpf_spin_lock =
     CStruct [Fld ''val'' cU32]"

lemma struct_bpf_spin_lock_layout [simp]:
  "wf_cty struct_bpf_spin_lock"
  "size_of struct_bpf_spin_lock = 4"
  "align_of struct_bpf_spin_lock = 4"
  by (simp_all add: struct_bpf_spin_lock_def layout_simps)

definition struct_bpf_timer :: cty where
  "struct_bpf_timer =
     CStruct [Fld ''__opaque'' (CArr 2 cU64)]"

lemma struct_bpf_timer_layout [simp]:
  "wf_cty struct_bpf_timer"
  "size_of struct_bpf_timer = 16"
  "align_of struct_bpf_timer = 8"
  by (simp_all add: struct_bpf_timer_def layout_simps)

definition struct_bpf_dynptr :: cty where
  "struct_bpf_dynptr =
     CStruct [Fld ''__opaque'' (CArr 2 cU64)]"

lemma struct_bpf_dynptr_layout [simp]:
  "wf_cty struct_bpf_dynptr"
  "size_of struct_bpf_dynptr = 16"
  "align_of struct_bpf_dynptr = 8"
  by (simp_all add: struct_bpf_dynptr_def layout_simps)

definition struct_bpf_list_head :: cty where
  "struct_bpf_list_head =
     CStruct [Fld ''__opaque'' (CArr 2 cU64)]"

lemma struct_bpf_list_head_layout [simp]:
  "wf_cty struct_bpf_list_head"
  "size_of struct_bpf_list_head = 16"
  "align_of struct_bpf_list_head = 8"
  by (simp_all add: struct_bpf_list_head_def layout_simps)

definition struct_bpf_list_node :: cty where
  "struct_bpf_list_node =
     CStruct [Fld ''__opaque'' (CArr 3 cU64)]"

lemma struct_bpf_list_node_layout [simp]:
  "wf_cty struct_bpf_list_node"
  "size_of struct_bpf_list_node = 24"
  "align_of struct_bpf_list_node = 8"
  by (simp_all add: struct_bpf_list_node_def layout_simps)

definition struct_bpf_rb_root :: cty where
  "struct_bpf_rb_root =
     CStruct [Fld ''__opaque'' (CArr 2 cU64)]"

lemma struct_bpf_rb_root_layout [simp]:
  "wf_cty struct_bpf_rb_root"
  "size_of struct_bpf_rb_root = 16"
  "align_of struct_bpf_rb_root = 8"
  by (simp_all add: struct_bpf_rb_root_def layout_simps)

definition struct_bpf_rb_node :: cty where
  "struct_bpf_rb_node =
     CStruct [Fld ''__opaque'' (CArr 4 cU64)]"

lemma struct_bpf_rb_node_layout [simp]:
  "wf_cty struct_bpf_rb_node"
  "size_of struct_bpf_rb_node = 32"
  "align_of struct_bpf_rb_node = 8"
  by (simp_all add: struct_bpf_rb_node_def layout_simps)

definition struct_bpf_refcount :: cty where
  "struct_bpf_refcount =
     CStruct [Fld ''__opaque'' (CArr 1 cU32)]"

lemma struct_bpf_refcount_layout [simp]:
  "wf_cty struct_bpf_refcount"
  "size_of struct_bpf_refcount = 4"
  "align_of struct_bpf_refcount = 4"
  by (simp_all add: struct_bpf_refcount_def layout_simps)

definition struct_bpf_sysctl :: cty where
  "struct_bpf_sysctl =
     CStruct [Fld ''write'' cU32, Fld ''file_pos'' cU32]"

lemma struct_bpf_sysctl_layout [simp]:
  "wf_cty struct_bpf_sysctl"
  "size_of struct_bpf_sysctl = 8"
  "align_of struct_bpf_sysctl = 4"
  by (simp_all add: struct_bpf_sysctl_def layout_simps)

definition struct_bpf_func_info :: cty where
  "struct_bpf_func_info =
     CStruct [Fld ''insn_off'' cU32, Fld ''type_id'' cU32]"

lemma struct_bpf_func_info_layout [simp]:
  "wf_cty struct_bpf_func_info"
  "size_of struct_bpf_func_info = 8"
  "align_of struct_bpf_func_info = 4"
  by (simp_all add: struct_bpf_func_info_def layout_simps)

definition struct_bpf_line_info :: cty where
  "struct_bpf_line_info =
     CStruct [Fld ''insn_off'' cU32, Fld ''file_name_off'' cU32, Fld ''line_off'' cU32,
       Fld ''line_col'' cU32]"

lemma struct_bpf_line_info_layout [simp]:
  "wf_cty struct_bpf_line_info"
  "size_of struct_bpf_line_info = 16"
  "align_of struct_bpf_line_info = 4"
  by (simp_all add: struct_bpf_line_info_def layout_simps)

definition struct_bpf_core_relo :: cty where
  "struct_bpf_core_relo =
     CStruct [Fld ''insn_off'' cU32, Fld ''type_id'' cU32, Fld ''access_str_off'' cU32,
       Fld ''kind'' cU32]"

lemma struct_bpf_core_relo_layout [simp]:
  "wf_cty struct_bpf_core_relo"
  "size_of struct_bpf_core_relo = 16"
  "align_of struct_bpf_core_relo = 4"
  by (simp_all add: struct_bpf_core_relo_def layout_simps)

definition struct_bpf_devmap_val :: cty where
  "struct_bpf_devmap_val =
     CStruct [Fld ''ifindex'' cU32, Fld ''bpf_prog'' (CUnion [Fld ''fd'' cU32,
       Fld ''id'' cU32])]"

lemma struct_bpf_devmap_val_layout [simp]:
  "wf_cty struct_bpf_devmap_val"
  "size_of struct_bpf_devmap_val = 8"
  "align_of struct_bpf_devmap_val = 4"
  by (simp_all add: struct_bpf_devmap_val_def layout_simps)

definition struct_bpf_cpumap_val :: cty where
  "struct_bpf_cpumap_val =
     CStruct [Fld ''qsize'' cU32, Fld ''bpf_prog'' (CUnion [Fld ''fd'' cU32, Fld ''id'' cU32])]"

lemma struct_bpf_cpumap_val_layout [simp]:
  "wf_cty struct_bpf_cpumap_val"
  "size_of struct_bpf_cpumap_val = 8"
  "align_of struct_bpf_cpumap_val = 4"
  by (simp_all add: struct_bpf_cpumap_val_def layout_simps)

definition struct_bpf_raw_tracepoint_args :: cty where
  "struct_bpf_raw_tracepoint_args =
     CStruct [Fld ''args'' (CArr 0 cU64)]"

lemma struct_bpf_raw_tracepoint_args_layout [simp]:
  "wf_cty struct_bpf_raw_tracepoint_args"
  "size_of struct_bpf_raw_tracepoint_args = 0"
  "align_of struct_bpf_raw_tracepoint_args = 8"
  by (simp_all add: struct_bpf_raw_tracepoint_args_def layout_simps)

definition struct_bpf_xdp_sock :: cty where
  "struct_bpf_xdp_sock =
     CStruct [Fld ''queue_id'' cU32]"

lemma struct_bpf_xdp_sock_layout [simp]:
  "wf_cty struct_bpf_xdp_sock"
  "size_of struct_bpf_xdp_sock = 4"
  "align_of struct_bpf_xdp_sock = 4"
  by (simp_all add: struct_bpf_xdp_sock_def layout_simps)

definition struct_xdp_md :: cty where
  "struct_xdp_md =
     CStruct [Fld ''data'' cU32, Fld ''data_end'' cU32, Fld ''data_meta'' cU32,
       Fld ''ingress_ifindex'' cU32, Fld ''rx_queue_index'' cU32, Fld ''egress_ifindex'' cU32]"

lemma struct_xdp_md_layout [simp]:
  "wf_cty struct_xdp_md"
  "size_of struct_xdp_md = 24"
  "align_of struct_xdp_md = 4"
  by (simp_all add: struct_xdp_md_def layout_simps)

definition struct_sk_msg_md :: cty where
  "struct_sk_msg_md =
     CStruct [Fld '''' (CUnion [Fld ''data'' cPtr]), Fld '''' (CUnion [Fld ''data_end'' cPtr]),
       Fld ''family'' cU32, Fld ''remote_ip4'' cU32, Fld ''local_ip4'' cU32,
       Fld ''remote_ip6'' (CArr 4 cU32), Fld ''local_ip6'' (CArr 4 cU32),
       Fld ''remote_port'' cU32, Fld ''local_port'' cU32, Fld ''size'' cU32,
       Fld '''' (CUnion [Fld ''sk'' cPtr])]"

lemma struct_sk_msg_md_layout [simp]:
  "wf_cty struct_sk_msg_md"
  "size_of struct_sk_msg_md = 80"
  "align_of struct_sk_msg_md = 8"
  by (simp_all add: struct_sk_msg_md_def layout_simps)

definition struct_sk_reuseport_md :: cty where
  "struct_sk_reuseport_md =
     CStruct [Fld '''' (CUnion [Fld ''data'' cPtr]), Fld '''' (CUnion [Fld ''data_end'' cPtr]),
       Fld ''len'' cU32, Fld ''eth_protocol'' cU32, Fld ''ip_protocol'' cU32,
       Fld ''bind_inany'' cU32, Fld ''hash'' cU32, Fld '''' (CUnion [Fld ''sk'' cPtr]),
       Fld '''' (CUnion [Fld ''migrating_sk'' cPtr])]"

lemma struct_sk_reuseport_md_layout [simp]:
  "wf_cty struct_sk_reuseport_md"
  "size_of struct_sk_reuseport_md = 56"
  "align_of struct_sk_reuseport_md = 8"
  by (simp_all add: struct_sk_reuseport_md_def layout_simps)

definition struct_bpf_lpm_trie_key_hdr :: cty where
  "struct_bpf_lpm_trie_key_hdr =
     CStruct [Fld ''prefixlen'' cU32]"

lemma struct_bpf_lpm_trie_key_hdr_layout [simp]:
  "wf_cty struct_bpf_lpm_trie_key_hdr"
  "size_of struct_bpf_lpm_trie_key_hdr = 4"
  "align_of struct_bpf_lpm_trie_key_hdr = 4"
  by (simp_all add: struct_bpf_lpm_trie_key_hdr_def layout_simps)

definition struct_bpf_lpm_trie_key_u8 :: cty where
  "struct_bpf_lpm_trie_key_u8 =
     CStruct [Fld '''' (CUnion [Fld ''hdr'' struct_bpf_lpm_trie_key_hdr,
       Fld ''prefixlen'' cU32]), Fld ''data'' (CArr 0 cU8)]"

lemma struct_bpf_lpm_trie_key_u8_layout [simp]:
  "wf_cty struct_bpf_lpm_trie_key_u8"
  "size_of struct_bpf_lpm_trie_key_u8 = 4"
  "align_of struct_bpf_lpm_trie_key_u8 = 4"
  by (simp_all add: struct_bpf_lpm_trie_key_u8_def layout_simps)

definition struct_btf_header :: cty where
  "struct_btf_header =
     CStruct [Fld ''magic'' cU16, Fld ''version'' cU8, Fld ''flags'' cU8, Fld ''hdr_len'' cU32,
       Fld ''type_off'' cU32, Fld ''type_len'' cU32, Fld ''str_off'' cU32, Fld ''str_len'' cU32,
       Fld ''layout_off'' cU32, Fld ''layout_len'' cU32]"

lemma struct_btf_header_layout [simp]:
  "wf_cty struct_btf_header"
  "size_of struct_btf_header = 32"
  "align_of struct_btf_header = 4"
  by (simp_all add: struct_btf_header_def layout_simps)

definition struct_btf_type :: cty where
  "struct_btf_type =
     CStruct [Fld ''name_off'' cU32, Fld ''info'' cU32, Fld '''' (CUnion [Fld ''size'' cU32,
       Fld ''type'' cU32])]"

lemma struct_btf_type_layout [simp]:
  "wf_cty struct_btf_type"
  "size_of struct_btf_type = 12"
  "align_of struct_btf_type = 4"
  by (simp_all add: struct_btf_type_def layout_simps)

definition struct_btf_ptr :: cty where
  "struct_btf_ptr =
     CStruct [Fld ''ptr'' cPtr, Fld ''type_id'' cU32, Fld ''flags'' cU32]"

lemma struct_btf_ptr_layout [simp]:
  "wf_cty struct_btf_ptr"
  "size_of struct_btf_ptr = 16"
  "align_of struct_btf_ptr = 8"
  by (simp_all add: struct_btf_ptr_def layout_simps)

definition struct_btf_enum :: cty where
  "struct_btf_enum =
     CStruct [Fld ''name_off'' cU32, Fld ''val'' cU32]"

lemma struct_btf_enum_layout [simp]:
  "wf_cty struct_btf_enum"
  "size_of struct_btf_enum = 8"
  "align_of struct_btf_enum = 4"
  by (simp_all add: struct_btf_enum_def layout_simps)

definition struct_btf_enum64 :: cty where
  "struct_btf_enum64 =
     CStruct [Fld ''name_off'' cU32, Fld ''val_lo32'' cU32, Fld ''val_hi32'' cU32]"

lemma struct_btf_enum64_layout [simp]:
  "wf_cty struct_btf_enum64"
  "size_of struct_btf_enum64 = 12"
  "align_of struct_btf_enum64 = 4"
  by (simp_all add: struct_btf_enum64_def layout_simps)

definition struct_btf_array :: cty where
  "struct_btf_array =
     CStruct [Fld ''type'' cU32, Fld ''index_type'' cU32, Fld ''nelems'' cU32]"

lemma struct_btf_array_layout [simp]:
  "wf_cty struct_btf_array"
  "size_of struct_btf_array = 12"
  "align_of struct_btf_array = 4"
  by (simp_all add: struct_btf_array_def layout_simps)

definition struct_btf_member :: cty where
  "struct_btf_member =
     CStruct [Fld ''name_off'' cU32, Fld ''type'' cU32, Fld ''offset'' cU32]"

lemma struct_btf_member_layout [simp]:
  "wf_cty struct_btf_member"
  "size_of struct_btf_member = 12"
  "align_of struct_btf_member = 4"
  by (simp_all add: struct_btf_member_def layout_simps)

definition struct_btf_param :: cty where
  "struct_btf_param =
     CStruct [Fld ''name_off'' cU32, Fld ''type'' cU32]"

lemma struct_btf_param_layout [simp]:
  "wf_cty struct_btf_param"
  "size_of struct_btf_param = 8"
  "align_of struct_btf_param = 4"
  by (simp_all add: struct_btf_param_def layout_simps)

definition struct_btf_var :: cty where
  "struct_btf_var =
     CStruct [Fld ''linkage'' cU32]"

lemma struct_btf_var_layout [simp]:
  "wf_cty struct_btf_var"
  "size_of struct_btf_var = 4"
  "align_of struct_btf_var = 4"
  by (simp_all add: struct_btf_var_def layout_simps)

definition struct_btf_var_secinfo :: cty where
  "struct_btf_var_secinfo =
     CStruct [Fld ''type'' cU32, Fld ''offset'' cU32, Fld ''size'' cU32]"

lemma struct_btf_var_secinfo_layout [simp]:
  "wf_cty struct_btf_var_secinfo"
  "size_of struct_btf_var_secinfo = 12"
  "align_of struct_btf_var_secinfo = 4"
  by (simp_all add: struct_btf_var_secinfo_def layout_simps)

definition struct_btf_decl_tag :: cty where
  "struct_btf_decl_tag =
     CStruct [Fld ''component_idx'' cU32]"

lemma struct_btf_decl_tag_layout [simp]:
  "wf_cty struct_btf_decl_tag"
  "size_of struct_btf_decl_tag = 4"
  "align_of struct_btf_decl_tag = 4"
  by (simp_all add: struct_btf_decl_tag_def layout_simps)

definition union_bpf_attr :: cty where
  "union_bpf_attr =
     CUnion [Fld '''' (CStruct [Fld ''map_type'' cU32, Fld ''key_size'' cU32,
       Fld ''value_size'' cU32, Fld ''max_entries'' cU32, Fld ''map_flags'' cU32,
       Fld ''inner_map_fd'' cU32, Fld ''numa_node'' cU32, Fld ''map_name'' (CArr 16 cU8),
       Fld ''map_ifindex'' cU32, Fld ''btf_fd'' cU32, Fld ''btf_key_type_id'' cU32,
       Fld ''btf_value_type_id'' cU32, Fld ''btf_vmlinux_value_type_id'' cU32,
       Fld ''map_extra'' cU64, Fld ''value_type_btf_obj_fd'' cU32, Fld ''map_token_fd'' cU32,
       Fld ''excl_prog_hash'' cU64, Fld ''excl_prog_hash_size'' cU32]),
       Fld '''' (CStruct [Fld ''map_fd'' cU32, Fld ''key'' cU64,
       Fld '''' (CUnion [Fld ''value'' cU64, Fld ''next_key'' cU64]), Fld ''flags'' cU64]),
       Fld ''batch'' (CStruct [Fld ''in_batch'' cU64, Fld ''out_batch'' cU64, Fld ''keys'' cU64,
       Fld ''values'' cU64, Fld ''count'' cU32, Fld ''map_fd'' cU32, Fld ''elem_flags'' cU64,
       Fld ''flags'' cU64]), Fld '''' (CStruct [Fld ''prog_type'' cU32, Fld ''insn_cnt'' cU32,
       Fld ''insns'' cU64, Fld ''license'' cU64, Fld ''log_level'' cU32, Fld ''log_size'' cU32,
       Fld ''log_buf'' cU64, Fld ''kern_version'' cU32, Fld ''prog_flags'' cU32,
       Fld ''prog_name'' (CArr 16 cU8), Fld ''prog_ifindex'' cU32,
       Fld ''expected_attach_type'' cU32, Fld ''prog_btf_fd'' cU32,
       Fld ''func_info_rec_size'' cU32, Fld ''func_info'' cU64, Fld ''func_info_cnt'' cU32,
       Fld ''line_info_rec_size'' cU32, Fld ''line_info'' cU64, Fld ''line_info_cnt'' cU32,
       Fld ''attach_btf_id'' cU32, Fld '''' (CUnion [Fld ''attach_prog_fd'' cU32,
       Fld ''attach_btf_obj_fd'' cU32]), Fld ''core_relo_cnt'' cU32, Fld ''fd_array'' cU64,
       Fld ''core_relos'' cU64, Fld ''core_relo_rec_size'' cU32, Fld ''log_true_size'' cU32,
       Fld ''prog_token_fd'' cU32, Fld ''fd_array_cnt'' cU32, Fld ''signature'' cU64,
       Fld ''signature_size'' cU32, Fld ''keyring_id'' cU32]),
       Fld '''' (CStruct [Fld ''pathname'' cU64, Fld ''bpf_fd'' cU32, Fld ''file_flags'' cU32,
       Fld ''path_fd'' cU32]), Fld '''' (CStruct [Fld '''' (CUnion [Fld ''target_fd'' cU32,
       Fld ''target_ifindex'' cU32]), Fld ''attach_bpf_fd'' cU32, Fld ''attach_type'' cU32,
       Fld ''attach_flags'' cU32, Fld ''replace_bpf_fd'' cU32,
       Fld '''' (CUnion [Fld ''relative_fd'' cU32, Fld ''relative_id'' cU32]),
       Fld ''expected_revision'' cU64]), Fld ''test'' (CStruct [Fld ''prog_fd'' cU32,
       Fld ''retval'' cU32, Fld ''data_size_in'' cU32, Fld ''data_size_out'' cU32,
       Fld ''data_in'' cU64, Fld ''data_out'' cU64, Fld ''repeat'' cU32, Fld ''duration'' cU32,
       Fld ''ctx_size_in'' cU32, Fld ''ctx_size_out'' cU32, Fld ''ctx_in'' cU64,
       Fld ''ctx_out'' cU64, Fld ''flags'' cU32, Fld ''cpu'' cU32, Fld ''batch_size'' cU32]),
       Fld '''' (CStruct [Fld '''' (CUnion [Fld ''start_id'' cU32, Fld ''prog_id'' cU32,
       Fld ''map_id'' cU32, Fld ''btf_id'' cU32, Fld ''link_id'' cU32]), Fld ''next_id'' cU32,
       Fld ''open_flags'' cU32, Fld ''fd_by_id_token_fd'' cU32]),
       Fld ''info'' (CStruct [Fld ''bpf_fd'' cU32, Fld ''info_len'' cU32, Fld ''info'' cU64]),
       Fld ''query'' (CStruct [Fld '''' (CUnion [Fld ''target_fd'' cU32,
       Fld ''target_ifindex'' cU32]), Fld ''attach_type'' cU32, Fld ''query_flags'' cU32,
       Fld ''attach_flags'' cU32, Fld ''prog_ids'' cU64, Fld '''' (CUnion [Fld ''prog_cnt'' cU32,
       Fld ''count'' cU32]), Fld ''prog_attach_flags'' cU64, Fld ''link_ids'' cU64,
       Fld ''link_attach_flags'' cU64, Fld ''revision'' cU64]),
       Fld ''raw_tracepoint'' (CStruct [Fld ''name'' cU64, Fld ''prog_fd'' cU32,
       Fld ''cookie'' cU64]), Fld '''' (CStruct [Fld ''btf'' cU64, Fld ''btf_log_buf'' cU64,
       Fld ''btf_size'' cU32, Fld ''btf_log_size'' cU32, Fld ''btf_log_level'' cU32,
       Fld ''btf_log_true_size'' cU32, Fld ''btf_flags'' cU32, Fld ''btf_token_fd'' cU32]),
       Fld ''task_fd_query'' (CStruct [Fld ''pid'' cU32, Fld ''fd'' cU32, Fld ''flags'' cU32,
       Fld ''buf_len'' cU32, Fld ''buf'' cU64, Fld ''prog_id'' cU32, Fld ''fd_type'' cU32,
       Fld ''probe_offset'' cU64, Fld ''probe_addr'' cU64]),
       Fld ''link_create'' (CStruct [Fld '''' (CUnion [Fld ''prog_fd'' cU32,
       Fld ''map_fd'' cU32]), Fld '''' (CUnion [Fld ''target_fd'' cU32,
       Fld ''target_ifindex'' cU32]), Fld ''attach_type'' cU32, Fld ''flags'' cU32,
       Fld '''' (CUnion [Fld ''target_btf_id'' cU32, Fld '''' (CStruct [Fld ''iter_info'' cU64,
       Fld ''iter_info_len'' cU32]), Fld ''perf_event'' (CStruct [Fld ''bpf_cookie'' cU64]),
       Fld ''kprobe_multi'' (CStruct [Fld ''flags'' cU32, Fld ''cnt'' cU32, Fld ''syms'' cU64,
       Fld ''addrs'' cU64, Fld ''cookies'' cU64]),
       Fld ''tracing'' (CStruct [Fld ''target_btf_id'' cU32, Fld ''cookie'' cU64]),
       Fld ''netfilter'' (CStruct [Fld ''pf'' cU32, Fld ''hooknum'' cU32, Fld ''priority'' cU32,
       Fld ''flags'' cU32]), Fld ''tcx'' (CStruct [Fld '''' (CUnion [Fld ''relative_fd'' cU32,
       Fld ''relative_id'' cU32]), Fld ''expected_revision'' cU64]),
       Fld ''uprobe_multi'' (CStruct [Fld ''path'' cU64, Fld ''offsets'' cU64,
       Fld ''ref_ctr_offsets'' cU64, Fld ''cookies'' cU64, Fld ''cnt'' cU32, Fld ''flags'' cU32,
       Fld ''pid'' cU32, Fld ''path_fd'' cU32]),
       Fld ''netkit'' (CStruct [Fld '''' (CUnion [Fld ''relative_fd'' cU32,
       Fld ''relative_id'' cU32]), Fld ''expected_revision'' cU64]),
       Fld ''cgroup'' (CStruct [Fld '''' (CUnion [Fld ''relative_fd'' cU32,
       Fld ''relative_id'' cU32]), Fld ''expected_revision'' cU64]),
       Fld ''tracing_multi'' (CStruct [Fld ''ids'' cU64, Fld ''cookies'' cU64,
       Fld ''cnt'' cU32])])]), Fld ''link_update'' (CStruct [Fld ''link_fd'' cU32,
       Fld '''' (CUnion [Fld ''new_prog_fd'' cU32, Fld ''new_map_fd'' cU32]), Fld ''flags'' cU32,
       Fld '''' (CUnion [Fld ''old_prog_fd'' cU32, Fld ''old_map_fd'' cU32])]),
       Fld ''link_detach'' (CStruct [Fld ''link_fd'' cU32]),
       Fld ''enable_stats'' (CStruct [Fld ''type'' cU32]),
       Fld ''iter_create'' (CStruct [Fld ''link_fd'' cU32, Fld ''flags'' cU32]),
       Fld ''prog_bind_map'' (CStruct [Fld ''prog_fd'' cU32, Fld ''map_fd'' cU32,
       Fld ''flags'' cU32]), Fld ''token_create'' (CStruct [Fld ''flags'' cU32,
       Fld ''bpffs_fd'' cU32]), Fld ''prog_stream_read'' (CStruct [Fld ''stream_buf'' cU64,
       Fld ''stream_buf_len'' cU32, Fld ''stream_id'' cU32, Fld ''prog_fd'' cU32]),
       Fld ''prog_assoc_struct_ops'' (CStruct [Fld ''map_fd'' cU32, Fld ''prog_fd'' cU32,
       Fld ''flags'' cU32])]"

lemma union_bpf_attr_layout [simp]:
  "wf_cty union_bpf_attr"
  "size_of union_bpf_attr = 168"
  "align_of union_bpf_attr = 8"
  by (simp_all add: union_bpf_attr_def layout_simps)

end
