(* ===== verification/VmlinuxMaps.thy ===== *)
theory VmlinuxMaps
  imports VmlinuxUapi
begin

text \<open>
  The kernel's side of the two maps of netmon.bpf.c as src/src/netmon-go/bpf/vmlinux.h declares
  it: \<open>struct_bpf_map\<close>, the array map behind \<open>counters\<close> and the ring buffer behind \<open>events\<close>.
  The 1,535 lines of \<open>struct bpf_ringbuf\<close> are the three lists \<open>ringbuf_head\<close>,
  \<open>ringbuf_consumer_page\<close> and \<open>ringbuf_producer_page\<close>, appended.
\<close>

definition type_atomic64_t :: cty where
  "type_atomic64_t =
     CStruct [Fld ''counter'' cU64]"

lemma type_atomic64_t_layout [simp]:
  "wf_cty type_atomic64_t"
  "size_of type_atomic64_t = 8"
  "align_of type_atomic64_t = 8"
  by (simp_all add: type_atomic64_t_def layout_simps)

definition type_atomic_t :: cty where
  "type_atomic_t =
     CStruct [Fld ''counter'' cU32]"

lemma type_atomic_t_layout [simp]:
  "wf_cty type_atomic_t"
  "size_of type_atomic_t = 4"
  "align_of type_atomic_t = 4"
  by (simp_all add: type_atomic_t_def layout_simps)

definition struct_qspinlock :: cty where
  "struct_qspinlock =
     CStruct [Fld '''' (CUnion [Fld ''val'' type_atomic_t, Fld '''' (CStruct [Fld ''locked'' cU8,
       Fld ''pending'' cU8]), Fld '''' (CStruct [Fld ''locked_pending'' cU16,
       Fld ''tail'' cU16])])]"

lemma struct_qspinlock_layout [simp]:
  "wf_cty struct_qspinlock"
  "size_of struct_qspinlock = 4"
  "align_of struct_qspinlock = 4"
  by (simp_all add: struct_qspinlock_def layout_simps)

definition struct_raw_spinlock :: cty where
  "struct_raw_spinlock =
     CStruct [Fld ''raw_lock'' struct_qspinlock]"

lemma struct_raw_spinlock_layout [simp]:
  "wf_cty struct_raw_spinlock"
  "size_of struct_raw_spinlock = 4"
  "align_of struct_raw_spinlock = 4"
  by (simp_all add: struct_raw_spinlock_def layout_simps)

definition struct_optimistic_spin_queue :: cty where
  "struct_optimistic_spin_queue =
     CStruct [Fld ''tail'' type_atomic_t]"

lemma struct_optimistic_spin_queue_layout [simp]:
  "wf_cty struct_optimistic_spin_queue"
  "size_of struct_optimistic_spin_queue = 4"
  "align_of struct_optimistic_spin_queue = 4"
  by (simp_all add: struct_optimistic_spin_queue_def layout_simps)

definition struct_mutex :: cty where
  "struct_mutex =
     CStruct [Fld ''owner'' type_atomic64_t, Fld ''wait_lock'' struct_raw_spinlock,
       Fld ''osq'' struct_optimistic_spin_queue, Fld ''first_waiter'' cPtr]"

lemma struct_mutex_layout [simp]:
  "wf_cty struct_mutex"
  "size_of struct_mutex = 24"
  "align_of struct_mutex = 8"
  by (simp_all add: struct_mutex_def layout_simps)

definition struct_list_head :: cty where
  "struct_list_head =
     CStruct [Fld ''next'' cPtr, Fld ''prev'' cPtr]"

lemma struct_list_head_layout [simp]:
  "wf_cty struct_list_head"
  "size_of struct_list_head = 16"
  "align_of struct_list_head = 8"
  by (simp_all add: struct_list_head_def layout_simps)

definition struct_work_struct :: cty where
  "struct_work_struct =
     CStruct [Fld ''data'' type_atomic64_t, Fld ''entry'' struct_list_head, Fld ''func'' cPtr]"

lemma struct_work_struct_layout [simp]:
  "wf_cty struct_work_struct"
  "size_of struct_work_struct = 32"
  "align_of struct_work_struct = 8"
  by (simp_all add: struct_work_struct_def layout_simps)

definition struct_callback_head :: cty where
  "struct_callback_head =
     CStruct [Fld ''next'' cPtr, Fld ''func'' cPtr]"

lemma struct_callback_head_layout [simp]:
  "wf_cty struct_callback_head"
  "size_of struct_callback_head = 16"
  "align_of struct_callback_head = 8"
  by (simp_all add: struct_callback_head_def layout_simps)

definition struct_spinlock :: cty where
  "struct_spinlock =
     CStruct [Fld '''' (CUnion [Fld ''rlock'' struct_raw_spinlock])]"

lemma struct_spinlock_layout [simp]:
  "wf_cty struct_spinlock"
  "size_of struct_spinlock = 4"
  "align_of struct_spinlock = 4"
  by (simp_all add: struct_spinlock_def layout_simps)

definition struct_bpf_map :: cty where
  "struct_bpf_map =
     CStruct [Fld ''sha'' (CArr 32 cU8), Fld ''excl'' cU32, Fld ''ops'' cPtr,
       Fld ''inner_map_meta'' cPtr, Fld ''security'' cPtr, Fld ''map_type'' cU32,
       Fld ''key_size'' cU32, Fld ''value_size'' cU32, Fld ''max_entries'' cU32,
       Fld ''map_extra'' cU64, Fld ''map_flags'' cU32, Fld ''id'' cU32, Fld ''record'' cPtr,
       Fld ''numa_node'' cU32, Fld ''btf_key_type_id'' cU32, Fld ''btf_value_type_id'' cU32,
       Fld ''btf_vmlinux_value_type_id'' cU32, Fld ''btf'' cPtr, Fld ''objcg'' cPtr,
       Fld ''name'' (CArr 16 cU8), Fld ''freeze_mutex'' struct_mutex,
       Fld ''refcnt'' type_atomic64_t, Fld ''usercnt'' type_atomic64_t,
       Fld '''' (CUnion [Fld ''work'' struct_work_struct, Fld ''rcu'' struct_callback_head]),
       Fld ''writecnt'' type_atomic64_t, Fld ''owner_lock'' struct_spinlock, Fld ''owner'' cPtr,
       Fld ''bypass_spec_v1'' cU8, Fld ''frozen'' cU8, Fld ''free_after_mult_rcu_gp'' cU8,
       Fld ''free_after_rcu_gp'' cU8, Fld ''sleepable_refcnt'' type_atomic64_t,
       Fld ''elem_count'' cPtr, Fld ''cookie'' cU64, Fld ''excl_prog_sha'' cPtr]"

lemma struct_bpf_map_layout [simp]:
  "wf_cty struct_bpf_map"
  "size_of struct_bpf_map = 288"
  "align_of struct_bpf_map = 8"
  by (simp_all add: struct_bpf_map_def layout_simps)

definition struct_bpf_array :: cty where
  "struct_bpf_array =
     CStruct [Fld ''map'' struct_bpf_map, Fld ''elem_size'' cU32, Fld ''index_mask'' cU32,
       Fld ''aux'' cPtr, Fld '''' (CUnion [Fld '''' (CStruct [Fld ''__empty_value'' (CStruct []),
       Fld ''value'' (CArr 0 cU8)]), Fld '''' (CStruct [Fld ''__empty_ptrs'' (CStruct []),
       Fld ''ptrs'' (CArr 0 cPtr)]), Fld '''' (CStruct [Fld ''__empty_pptrs'' (CStruct []),
       Fld ''pptrs'' (CArr 0 cPtr)])])]"

lemma struct_bpf_array_layout [simp]:
  "wf_cty struct_bpf_array"
  "size_of struct_bpf_array = 304"
  "align_of struct_bpf_array = 8"
  by (simp_all add: struct_bpf_array_def layout_simps)

definition struct_wait_queue_head :: cty where
  "struct_wait_queue_head =
     CStruct [Fld ''lock'' struct_spinlock, Fld ''head'' struct_list_head]"

lemma struct_wait_queue_head_layout [simp]:
  "wf_cty struct_wait_queue_head"
  "size_of struct_wait_queue_head = 24"
  "align_of struct_wait_queue_head = 8"
  by (simp_all add: struct_wait_queue_head_def layout_simps)

definition struct_llist_node :: cty where
  "struct_llist_node =
     CStruct [Fld ''next'' cPtr]"

lemma struct_llist_node_layout [simp]:
  "wf_cty struct_llist_node"
  "size_of struct_llist_node = 8"
  "align_of struct_llist_node = 8"
  by (simp_all add: struct_llist_node_def layout_simps)

definition struct___call_single_node :: cty where
  "struct___call_single_node =
     CStruct [Fld ''llist'' struct_llist_node, Fld '''' (CUnion [Fld ''u_flags'' cU32,
       Fld ''a_flags'' type_atomic_t]), Fld ''src'' cU16, Fld ''dst'' cU16]"

lemma struct___call_single_node_layout [simp]:
  "wf_cty struct___call_single_node"
  "size_of struct___call_single_node = 16"
  "align_of struct___call_single_node = 8"
  by (simp_all add: struct___call_single_node_def layout_simps)

definition struct_rcuwait :: cty where
  "struct_rcuwait =
     CStruct [Fld ''task'' cPtr]"

lemma struct_rcuwait_layout [simp]:
  "wf_cty struct_rcuwait"
  "size_of struct_rcuwait = 8"
  "align_of struct_rcuwait = 8"
  by (simp_all add: struct_rcuwait_def layout_simps)

definition struct_irq_work :: cty where
  "struct_irq_work =
     CStruct [Fld ''node'' struct___call_single_node, Fld ''func'' cPtr,
       Fld ''irqwait'' struct_rcuwait]"

lemma struct_irq_work_layout [simp]:
  "wf_cty struct_irq_work"
  "size_of struct_irq_work = 32"
  "align_of struct_irq_work = 8"
  by (simp_all add: struct_irq_work_def layout_simps)

definition ringbuf_head :: "cmem list" where
  "ringbuf_head =
     [Fld ''waitq'' struct_wait_queue_head, Fld ''work'' struct_irq_work, Fld ''mask'' cU64,
       Fld ''pages'' cPtr, Fld ''nr_pages'' cU32, Fld ''overwrite_mode'' cU8] @
     pad64 6 @
     [Fld ''spinlock'' struct_qspinlock] @
     pad64 7 @
     [Fld ''busy'' type_atomic_t] @
     pad64 487"

definition ringbuf_consumer_page :: "cmem list" where
  "ringbuf_consumer_page =
     [Fld ''consumer_pos'' cU64] @
     pad64 511"

definition ringbuf_producer_page :: "cmem list" where
  "ringbuf_producer_page =
     [Fld ''producer_pos'' cU64, Fld ''pending_pos'' cU64, Fld ''overwrite_pos'' cU64] @
     pad64 509 @
     [Fld ''data'' (CArr 0 cU8)]"

definition struct_bpf_ringbuf :: cty where
  "struct_bpf_ringbuf = CStruct (ringbuf_head @ ringbuf_consumer_page @ ringbuf_producer_page)"

lemmas ringbuf_defs = ringbuf_head_def ringbuf_consumer_page_def ringbuf_producer_page_def

lemma struct_bpf_ringbuf_layout [simp]:
  "wf_cty struct_bpf_ringbuf"
  "size_of struct_bpf_ringbuf = 12288"
  "align_of struct_bpf_ringbuf = 8"
  by (simp_all add: struct_bpf_ringbuf_def ringbuf_defs pad_simps layout_simps)

definition struct_bpf_ringbuf_map :: cty where
  "struct_bpf_ringbuf_map =
     CStruct [Fld ''map'' struct_bpf_map, Fld ''rb'' cPtr]"

lemma struct_bpf_ringbuf_map_layout [simp]:
  "wf_cty struct_bpf_ringbuf_map"
  "size_of struct_bpf_ringbuf_map = 296"
  "align_of struct_bpf_ringbuf_map = 8"
  by (simp_all add: struct_bpf_ringbuf_map_def layout_simps)

end
