(* ===== verification/VmlinuxKern.thy ===== *)
theory VmlinuxKern
  imports VmlinuxMaps
begin

text \<open>
  The kernel objects a loaded and attached program consists of, as
  src/src/netmon-go/bpf/vmlinux.h declares them: the program and its auxiliary data, the verifier's
  state, links, the cgroup with its table of effective programs.
\<close>

definition struct_sock_filter :: cty where
  "struct_sock_filter =
     CStruct [Fld ''code'' cU16, Fld ''jt'' cU8, Fld ''jf'' cU8, Fld ''k'' cU32]"

lemma struct_sock_filter_layout [simp]:
  "wf_cty struct_sock_filter"
  "size_of struct_sock_filter = 8"
  "align_of struct_sock_filter = 4"
  by (simp_all add: struct_sock_filter_def layout_simps)

definition struct_bpf_prog :: cty where
  "struct_bpf_prog =
     CStruct [Fld ''pages'' cU16, Bits ''jited'' 2 1, Bits ''jit_requested'' 2 1,
       Bits ''gpl_compatible'' 2 1, Bits ''cb_access'' 2 1, Bits ''dst_needed'' 2 1,
       Bits ''blinding_requested'' 2 1, Bits ''blinded'' 2 1, Bits ''is_func'' 2 1,
       Bits ''kprobe_override'' 2 1, Bits ''has_callchain_buf'' 2 1,
       Bits ''enforce_expected_attach_type'' 2 1, Bits ''call_get_stack'' 2 1,
       Bits ''call_get_func_ip'' 2 1, Bits ''call_session_cookie'' 2 1,
       Bits ''tstamp_type_access'' 2 1, Bits ''sleepable'' 2 1, Fld ''type'' cU32,
       Fld ''expected_attach_type'' cU32, Fld ''len'' cU32, Fld ''jited_len'' cU32,
       Fld '''' (CUnion [Fld ''digest'' (CArr 32 cU8), Fld ''tag'' (CArr 8 cU8)]),
       Fld ''stats'' cPtr, Fld ''active'' cPtr, Fld ''bpf_func'' cPtr, Fld ''aux'' cPtr,
       Fld ''orig_prog'' cPtr,
       Fld '''' (CUnion [Fld '''' (CStruct [Fld ''__empty_insns'' (CStruct []),
       Fld ''insns'' (CArr 0 struct_sock_filter)]),
       Fld '''' (CStruct [Fld ''__empty_insnsi'' (CStruct []),
       Fld ''insnsi'' (CArr 0 struct_bpf_insn)])])]"

lemma struct_bpf_prog_layout [simp]:
  "wf_cty struct_bpf_prog"
  "size_of struct_bpf_prog = 96"
  "align_of struct_bpf_prog = 8"
  by (simp_all add: struct_bpf_prog_def layout_simps)

definition struct_rb_node :: cty where
  "struct_rb_node =
     CStruct [Fld ''__rb_parent_color'' cU64, Fld ''rb_right'' cPtr, Fld ''rb_left'' cPtr]"

lemma struct_rb_node_layout [simp]:
  "wf_cty struct_rb_node"
  "size_of struct_rb_node = 24"
  "align_of struct_rb_node = 8"
  by (simp_all add: struct_rb_node_def layout_simps)

definition struct_latch_tree_node :: cty where
  "struct_latch_tree_node =
     CStruct [Fld ''node'' (CArr 2 struct_rb_node)]"

lemma struct_latch_tree_node_layout [simp]:
  "wf_cty struct_latch_tree_node"
  "size_of struct_latch_tree_node = 48"
  "align_of struct_latch_tree_node = 8"
  by (simp_all add: struct_latch_tree_node_def layout_simps)

definition struct_bpf_ksym :: cty where
  "struct_bpf_ksym =
     CStruct [Fld ''start'' cU64, Fld ''end'' cU64, Fld ''name'' (CArr 512 cU8),
       Fld ''lnode'' struct_list_head, Fld ''tnode'' struct_latch_tree_node, Fld ''prog'' cU8,
       Fld ''fp_start'' cU32, Fld ''fp_end'' cU32]"

lemma struct_bpf_ksym_layout [simp]:
  "wf_cty struct_bpf_ksym"
  "size_of struct_bpf_ksym = 608"
  "align_of struct_bpf_ksym = 8"
  by (simp_all add: struct_bpf_ksym_def layout_simps)

definition struct_llist_head :: cty where
  "struct_llist_head =
     CStruct [Fld ''first'' cPtr]"

lemma struct_llist_head_layout [simp]:
  "wf_cty struct_llist_head"
  "size_of struct_llist_head = 8"
  "align_of struct_llist_head = 8"
  by (simp_all add: struct_llist_head_def layout_simps)

definition struct_bpf_stream :: cty where
  "struct_bpf_stream =
     CStruct [Fld ''capacity'' type_atomic_t, Fld ''log'' struct_llist_head,
       Fld ''lock'' struct_mutex, Fld ''backlog_head'' cPtr, Fld ''backlog_tail'' cPtr]"

lemma struct_bpf_stream_layout [simp]:
  "wf_cty struct_bpf_stream"
  "size_of struct_bpf_stream = 56"
  "align_of struct_bpf_stream = 8"
  by (simp_all add: struct_bpf_stream_def layout_simps)

definition struct_bpf_prog_aux :: cty where
  "struct_bpf_prog_aux =
     CStruct [Fld ''refcnt'' type_atomic64_t, Fld ''used_map_cnt'' cU32,
       Fld ''used_btf_cnt'' cU32, Fld ''max_ctx_offset'' cU32, Fld ''max_pkt_offset'' cU32,
       Fld ''max_tp_access'' cU32, Fld ''stack_depth'' cU32, Fld ''id'' cU32,
       Fld ''func_cnt'' cU32, Fld ''real_func_cnt'' cU32, Fld ''func_idx'' cU32,
       Fld ''attach_btf_id'' cU32, Fld ''attach_st_ops_member_off'' cU32,
       Fld ''ctx_arg_info_size'' cU32, Fld ''max_rdonly_access'' cU32,
       Fld ''max_rdwr_access'' cU32, Fld ''subprog_start'' cU32, Fld ''attach_btf'' cPtr,
       Fld ''ctx_arg_info'' cPtr, Fld ''priv_stack_ptr'' cPtr, Fld ''dst_mutex'' struct_mutex,
       Fld ''dst_prog'' cPtr, Fld ''dst_trampoline'' cPtr, Fld ''saved_dst_prog_type'' cU32,
       Fld ''saved_dst_attach_type'' cU32, Fld ''verifier_zext'' cU8, Fld ''dev_bound'' cU8,
       Fld ''offload_requested'' cU8, Fld ''attach_btf_trace'' cU8,
       Fld ''attach_tracing_prog'' cU8, Fld ''func_proto_unreliable'' cU8,
       Fld ''tail_call_reachable'' cU8, Fld ''xdp_has_frags'' cU8, Fld ''exception_cb'' cU8,
       Fld ''exception_boundary'' cU8, Fld ''is_extended'' cU8, Fld ''jits_use_priv_stack'' cU8,
       Fld ''priv_stack_requested'' cU8, Fld ''changes_pkt_data'' cU8, Fld ''might_sleep'' cU8,
       Fld ''kprobe_write_ctx'' cU8, Fld ''sig'' (CStruct [Fld ''keyring_serial'' cU32,
       Fld ''keyring_type'' cU8, Fld ''verdict'' cU8]), Fld ''prog_array_member_cnt'' cU64,
       Fld ''ext_mutex'' struct_mutex, Fld ''arena'' cPtr, Fld ''recursion_detected'' cPtr,
       Fld ''attach_func_proto'' cPtr, Fld ''attach_func_name'' cPtr, Fld ''func'' cPtr,
       Fld ''main_prog_aux'' cPtr, Fld ''jit_data'' cPtr, Fld ''poke_tab'' cPtr,
       Fld ''kfunc_tab'' cPtr, Fld ''kfunc_btf_tab'' cPtr, Fld ''size_poke_tab'' cU32,
       Fld ''ksym'' struct_bpf_ksym, Fld ''ops'' cPtr, Fld ''st_ops'' cPtr,
       Fld ''used_maps'' cPtr, Fld ''used_maps_mutex'' struct_mutex, Fld ''used_btfs'' cPtr,
       Fld ''prog'' cPtr, Fld ''user'' cPtr, Fld ''load_time'' cU64, Fld ''verified_insns'' cU32,
       Fld ''cgroup_atype'' cU32, Fld ''cgroup_storage'' (CArr 2 cPtr),
       Fld ''name'' (CArr 16 cU8), Fld ''bpf_exception_cb'' cPtr,
       Fld ''stack_arg_sp_adjust'' cU16, Fld ''security'' cPtr, Fld ''token'' cPtr,
       Fld ''offload'' cPtr, Fld ''btf'' cPtr, Fld ''func_info'' cPtr,
       Fld ''func_info_aux'' cPtr, Fld ''linfo'' cPtr, Fld ''jited_linfo'' cPtr,
       Fld ''func_info_cnt'' cU32, Fld ''nr_linfo'' cU32, Fld ''linfo_idx'' cU32,
       Fld ''mod'' cPtr, Fld ''num_exentries'' cU32, Fld ''extable'' cPtr,
       Fld '''' (CUnion [Fld ''work'' struct_work_struct, Fld ''rcu'' struct_callback_head]),
       Fld ''stream'' (CArr 2 struct_bpf_stream), Fld ''st_ops_assoc_mutex'' struct_mutex,
       Fld ''st_ops_assoc'' cPtr]"

lemma struct_bpf_prog_aux_layout [simp]:
  "wf_cty struct_bpf_prog_aux"
  "size_of struct_bpf_prog_aux = 1312"
  "align_of struct_bpf_prog_aux = 8"
  by (simp_all add: struct_bpf_prog_aux_def layout_simps)

definition struct_hlist_head :: cty where
  "struct_hlist_head =
     CStruct [Fld ''first'' cPtr]"

lemma struct_hlist_head_layout [simp]:
  "wf_cty struct_hlist_head"
  "size_of struct_hlist_head = 8"
  "align_of struct_hlist_head = 8"
  by (simp_all add: struct_hlist_head_def layout_simps)

definition struct_percpu_ref :: cty where
  "struct_percpu_ref =
     CStruct [Fld ''percpu_count_ptr'' cU64, Fld ''data'' cPtr]"

lemma struct_percpu_ref_layout [simp]:
  "wf_cty struct_percpu_ref"
  "size_of struct_percpu_ref = 16"
  "align_of struct_percpu_ref = 8"
  by (simp_all add: struct_percpu_ref_def layout_simps)

definition struct_cgroup_bpf :: cty where
  "struct_cgroup_bpf =
     CStruct [Fld ''effective'' (CArr 38 cPtr), Fld ''progs'' (CArr 38 struct_hlist_head),
       Fld ''flags'' (CArr 38 cU8), Fld ''revisions'' (CArr 38 cU64),
       Fld ''storages'' struct_list_head, Fld ''inactive'' cPtr,
       Fld ''refcnt'' struct_percpu_ref, Fld ''release_work'' struct_work_struct]"

lemma struct_cgroup_bpf_layout [simp]:
  "wf_cty struct_cgroup_bpf"
  "size_of struct_cgroup_bpf = 1024"
  "align_of struct_cgroup_bpf = 8"
  by (simp_all add: struct_cgroup_bpf_def layout_simps)

definition struct_rcu_work :: cty where
  "struct_rcu_work =
     CStruct [Fld ''work'' struct_work_struct, Fld ''rcu'' struct_callback_head,
       Fld ''wq'' cPtr]"

lemma struct_rcu_work_layout [simp]:
  "wf_cty struct_rcu_work"
  "size_of struct_rcu_work = 56"
  "align_of struct_rcu_work = 8"
  by (simp_all add: struct_rcu_work_def layout_simps)

definition struct_cgroup_subsys_state :: cty where
  "struct_cgroup_subsys_state =
     CStruct [Fld ''cgroup'' cPtr, Fld ''ss'' cPtr, Fld ''refcnt'' struct_percpu_ref,
       Fld ''rstat_cpu'' cPtr, Fld ''sibling'' struct_list_head,
       Fld ''children'' struct_list_head, Fld ''id'' cU32, Fld ''flags'' cU32,
       Fld ''serial_nr'' cU64, Fld ''online_cnt'' type_atomic_t,
       Fld ''destroy_work'' struct_work_struct, Fld ''destroy_rwork'' struct_rcu_work,
       Fld ''parent'' cPtr, Fld ''nr_descendants'' cU32, Fld ''nr_populated_csets'' cU32,
       Fld ''nr_populated_children'' cU32, Fld ''kill_finish_work'' struct_work_struct,
       Fld ''rstat_flush_next'' cPtr]"

lemma struct_cgroup_subsys_state_layout [simp]:
  "wf_cty struct_cgroup_subsys_state"
  "size_of struct_cgroup_subsys_state = 248"
  "align_of struct_cgroup_subsys_state = 8"
  by (simp_all add: struct_cgroup_subsys_state_def layout_simps)

definition struct_hlist_node :: cty where
  "struct_hlist_node =
     CStruct [Fld ''next'' cPtr, Fld ''pprev'' cPtr]"

lemma struct_hlist_node_layout [simp]:
  "wf_cty struct_hlist_node"
  "size_of struct_hlist_node = 16"
  "align_of struct_hlist_node = 8"
  by (simp_all add: struct_hlist_node_def layout_simps)

definition struct_timer_list :: cty where
  "struct_timer_list =
     CStruct [Fld ''entry'' struct_hlist_node, Fld ''expires'' cU64, Fld ''function'' cPtr,
       Fld ''flags'' cU32]"

lemma struct_timer_list_layout [simp]:
  "wf_cty struct_timer_list"
  "size_of struct_timer_list = 40"
  "align_of struct_timer_list = 8"
  by (simp_all add: struct_timer_list_def layout_simps)

definition struct_cgroup_file :: cty where
  "struct_cgroup_file =
     CStruct [Fld ''kn'' cPtr, Fld ''notified_at'' cU64, Fld ''notify_timer'' struct_timer_list,
       Fld ''lock'' struct_spinlock]"

lemma struct_cgroup_file_layout [simp]:
  "wf_cty struct_cgroup_file"
  "size_of struct_cgroup_file = 64"
  "align_of struct_cgroup_file = 8"
  by (simp_all add: struct_cgroup_file_def layout_simps)

definition struct_cacheline_padding :: cty where
  "struct_cacheline_padding =
     CStruct [Fld ''x'' (CArr 0 cU8)]"

lemma struct_cacheline_padding_layout [simp]:
  "wf_cty struct_cacheline_padding"
  "size_of struct_cacheline_padding = 0"
  "align_of struct_cacheline_padding = 1"
  by (simp_all add: struct_cacheline_padding_def layout_simps)

definition struct_task_cputime :: cty where
  "struct_task_cputime =
     CStruct [Fld ''stime'' cU64, Fld ''utime'' cU64, Fld ''sum_exec_runtime'' cU64]"

lemma struct_task_cputime_layout [simp]:
  "wf_cty struct_task_cputime"
  "size_of struct_task_cputime = 24"
  "align_of struct_task_cputime = 8"
  by (simp_all add: struct_task_cputime_def layout_simps)

definition struct_cgroup_base_stat :: cty where
  "struct_cgroup_base_stat =
     CStruct [Fld ''cputime'' struct_task_cputime, Fld ''forceidle_sum'' cU64,
       Fld ''ntime'' cU64]"

lemma struct_cgroup_base_stat_layout [simp]:
  "wf_cty struct_cgroup_base_stat"
  "size_of struct_cgroup_base_stat = 40"
  "align_of struct_cgroup_base_stat = 8"
  by (simp_all add: struct_cgroup_base_stat_def layout_simps)

definition struct_prev_cputime :: cty where
  "struct_prev_cputime =
     CStruct [Fld ''utime'' cU64, Fld ''stime'' cU64, Fld ''lock'' struct_raw_spinlock]"

lemma struct_prev_cputime_layout [simp]:
  "wf_cty struct_prev_cputime"
  "size_of struct_prev_cputime = 24"
  "align_of struct_prev_cputime = 8"
  by (simp_all add: struct_prev_cputime_def layout_simps)

definition struct_seqcount :: cty where
  "struct_seqcount =
     CStruct [Fld ''sequence'' cU32]"

lemma struct_seqcount_layout [simp]:
  "wf_cty struct_seqcount"
  "size_of struct_seqcount = 4"
  "align_of struct_seqcount = 4"
  by (simp_all add: struct_seqcount_def layout_simps)

definition struct_seqcount_spinlock :: cty where
  "struct_seqcount_spinlock =
     CStruct [Fld ''seqcount'' struct_seqcount]"

lemma struct_seqcount_spinlock_layout [simp]:
  "wf_cty struct_seqcount_spinlock"
  "size_of struct_seqcount_spinlock = 4"
  "align_of struct_seqcount_spinlock = 4"
  by (simp_all add: struct_seqcount_spinlock_def layout_simps)

definition struct_cgroup_freezer_state :: cty where
  "struct_cgroup_freezer_state =
     CStruct [Fld ''freeze'' cU8, Fld ''e_freeze'' cU8, Fld ''nr_frozen_descendants'' cU32,
       Fld ''nr_frozen_tasks'' cU32, Fld ''freeze_seq'' struct_seqcount_spinlock,
       Fld ''freeze_start_nsec'' cU64, Fld ''frozen_nsec'' cU64]"

lemma struct_cgroup_freezer_state_layout [simp]:
  "wf_cty struct_cgroup_freezer_state"
  "size_of struct_cgroup_freezer_state = 32"
  "align_of struct_cgroup_freezer_state = 8"
  by (simp_all add: struct_cgroup_freezer_state_def layout_simps)

definition struct_cgroup :: cty where
  "struct_cgroup =
     CStruct [Fld ''self'' struct_cgroup_subsys_state, Fld ''flags'' cU64, Fld ''level'' cU32,
       Fld ''max_depth'' cU32, Fld ''nr_descendants'' cU32, Fld ''nr_dying_descendants'' cU32,
       Fld ''max_descendants'' cU32, Fld ''nr_populated_domain_children'' cU32,
       Fld ''nr_populated_threaded_children'' cU32, Fld ''nr_threaded_children'' cU32,
       Fld ''kill_seq'' cU32, Fld ''kn'' cPtr, Fld ''procs_file'' struct_cgroup_file,
       Fld ''events_file'' struct_cgroup_file, Fld ''psi_files'' (CArr 4 struct_cgroup_file),
       Fld ''subtree_control'' cU32, Fld ''subtree_ss_mask'' cU32,
       Fld ''old_subtree_control'' cU32, Fld ''old_subtree_ss_mask'' cU32,
       Fld ''subsys'' (CArr 15 cPtr), Fld ''nr_dying_subsys'' (CArr 15 cU32), Fld ''root'' cPtr,
       Fld ''cset_links'' struct_list_head, Fld ''e_csets'' (CArr 15 struct_list_head),
       Fld ''dom_cgrp'' cPtr, Fld ''old_dom_cgrp'' cPtr, Fld ''rstat_base_cpu'' cPtr,
       Bits '''' 8 64, Bits '''' 8 64, Bits '''' 8 64, Bits '''' 8 64, Bits '''' 8 64,
       Fld ''_pad_'' struct_cacheline_padding, Fld ''last_bstat'' struct_cgroup_base_stat,
       Fld ''bstat'' struct_cgroup_base_stat, Fld ''prev_cputime'' struct_prev_cputime,
       Fld ''pidlists'' struct_list_head, Fld ''pidlist_mutex'' struct_mutex,
       Fld ''offline_waitq'' struct_wait_queue_head,
       Fld ''release_agent_work'' struct_work_struct, Fld ''psi'' cPtr,
       Fld ''bpf'' struct_cgroup_bpf, Fld ''freezer'' struct_cgroup_freezer_state,
       Fld ''bpf_cgrp_storage'' cPtr, Fld ''scx_sched'' cPtr,
       Fld '''' (CUnion [Fld '''' (CStruct [Fld ''__empty_ancestors'' (CStruct []),
       Fld ''ancestors'' (CArr 0 cPtr)]), Fld '''' (CStruct [Fld ''_root_ancestor'' cPtr,
       Fld '''' (CStruct [Fld ''__empty__low_ancestors'' (CStruct []),
       Fld ''_low_ancestors'' (CArr 0 cPtr)])])]), Bits '''' 8 64, Bits '''' 8 64,
       Bits '''' 8 64, Bits '''' 8 64, Bits '''' 8 64, Bits '''' 8 64, Bits '''' 8 64]"

lemma struct_cgroup_layout [simp]:
  "wf_cty struct_cgroup"
  "size_of struct_cgroup = 2560"
  "align_of struct_cgroup = 8"
  by (simp_all add: struct_cgroup_def layout_simps)

definition struct_bpf_link :: cty where
  "struct_bpf_link =
     CStruct [Fld ''refcnt'' type_atomic64_t, Fld ''id'' cU32, Fld ''type'' cU32,
       Fld ''ops'' cPtr, Fld ''prog'' cPtr, Fld ''flags'' cU32, Fld ''attach_type'' cU32,
       Fld '''' (CUnion [Fld ''rcu'' struct_callback_head, Fld ''work'' struct_work_struct]),
       Fld ''sleepable'' cU8]"

lemma struct_bpf_link_layout [simp]:
  "wf_cty struct_bpf_link"
  "size_of struct_bpf_link = 80"
  "align_of struct_bpf_link = 8"
  by (simp_all add: struct_bpf_link_def layout_simps)

definition struct_bpf_cgroup_link :: cty where
  "struct_bpf_cgroup_link =
     CStruct [Fld ''link'' struct_bpf_link, Fld ''cgroup'' cPtr]"

lemma struct_bpf_cgroup_link_layout [simp]:
  "wf_cty struct_bpf_cgroup_link"
  "size_of struct_bpf_cgroup_link = 88"
  "align_of struct_bpf_cgroup_link = 8"
  by (simp_all add: struct_bpf_cgroup_link_def layout_simps)

definition struct_bpf_sock_addr_kern :: cty where
  "struct_bpf_sock_addr_kern =
     CStruct [Fld ''sk'' cPtr, Fld ''uaddr'' cPtr, Fld ''tmp_reg'' cU64, Fld ''t_ctx'' cPtr,
       Fld ''uaddrlen'' cU32]"

lemma struct_bpf_sock_addr_kern_layout [simp]:
  "wf_cty struct_bpf_sock_addr_kern"
  "size_of struct_bpf_sock_addr_kern = 40"
  "align_of struct_bpf_sock_addr_kern = 8"
  by (simp_all add: struct_bpf_sock_addr_kern_def layout_simps)

definition struct_bpf_map_ops :: cty where
  "struct_bpf_map_ops =
     CStruct [Fld ''map_alloc_check'' cPtr, Fld ''map_alloc'' cPtr, Fld ''map_release'' cPtr,
       Fld ''map_free'' cPtr, Fld ''map_get_next_key'' cPtr, Fld ''map_release_uref'' cPtr,
       Fld ''map_lookup_elem_sys_only'' cPtr, Fld ''map_lookup_batch'' cPtr,
       Fld ''map_lookup_and_delete_elem'' cPtr, Fld ''map_lookup_and_delete_batch'' cPtr,
       Fld ''map_update_batch'' cPtr, Fld ''map_delete_batch'' cPtr,
       Fld ''map_lookup_elem'' cPtr, Fld ''map_update_elem'' cPtr, Fld ''map_delete_elem'' cPtr,
       Fld ''map_push_elem'' cPtr, Fld ''map_pop_elem'' cPtr, Fld ''map_peek_elem'' cPtr,
       Fld ''map_lookup_percpu_elem'' cPtr, Fld ''map_get_hash'' cPtr,
       Fld ''map_fd_get_ptr'' cPtr, Fld ''map_fd_put_ptr'' cPtr, Fld ''map_gen_lookup'' cPtr,
       Fld ''map_fd_sys_lookup_elem'' cPtr, Fld ''map_seq_show_elem'' cPtr,
       Fld ''map_check_btf'' cPtr, Fld ''map_poke_track'' cPtr, Fld ''map_poke_untrack'' cPtr,
       Fld ''map_poke_run'' cPtr, Fld ''map_direct_value_addr'' cPtr,
       Fld ''map_direct_value_meta'' cPtr, Fld ''map_mmap'' cPtr, Fld ''map_poll'' cPtr,
       Fld ''map_get_unmapped_area'' cPtr, Fld ''map_local_storage_charge'' cPtr,
       Fld ''map_local_storage_uncharge'' cPtr, Fld ''map_owner_storage_ptr'' cPtr,
       Fld ''map_redirect'' cPtr, Fld ''map_meta_equal'' cPtr,
       Fld ''map_set_for_each_callback_args'' cPtr, Fld ''map_for_each_callback'' cPtr,
       Fld ''map_mem_usage'' cPtr, Fld ''map_btf_id'' cPtr, Fld ''iter_seq_info'' cPtr]"

lemma struct_bpf_map_ops_layout [simp]:
  "wf_cty struct_bpf_map_ops"
  "size_of struct_bpf_map_ops = 352"
  "align_of struct_bpf_map_ops = 8"
  by (simp_all add: struct_bpf_map_ops_def layout_simps)

definition struct_bpf_func_proto :: cty where
  "struct_bpf_func_proto =
     CStruct [Fld ''func'' cPtr, Fld ''gpl_only'' cU8, Fld ''pkt_access'' cU8,
       Fld ''might_sleep'' cU8, Fld ''allow_fastcall'' cU8, Fld ''ret_type'' cU32,
       Fld '''' (CUnion [Fld '''' (CStruct [Fld ''arg1_type'' cU32, Fld ''arg2_type'' cU32,
       Fld ''arg3_type'' cU32, Fld ''arg4_type'' cU32, Fld ''arg5_type'' cU32]),
       Fld ''arg_type'' (CArr 5 cU32)]),
       Fld '''' (CUnion [Fld '''' (CStruct [Fld ''arg1_btf_id'' cPtr, Fld ''arg2_btf_id'' cPtr,
       Fld ''arg3_btf_id'' cPtr, Fld ''arg4_btf_id'' cPtr, Fld ''arg5_btf_id'' cPtr]),
       Fld ''arg_btf_id'' (CArr 5 cPtr), Fld '''' (CStruct [Fld ''arg1_size'' cU64,
       Fld ''arg2_size'' cU64, Fld ''arg3_size'' cU64, Fld ''arg4_size'' cU64,
       Fld ''arg5_size'' cU64]), Fld ''arg_size'' (CArr 5 cU64)]), Fld ''ret_btf_id'' cPtr,
       Fld ''allowed'' cPtr]"

lemma struct_bpf_func_proto_layout [simp]:
  "wf_cty struct_bpf_func_proto"
  "size_of struct_bpf_func_proto = 96"
  "align_of struct_bpf_func_proto = 8"
  by (simp_all add: struct_bpf_func_proto_def layout_simps)

definition struct_btf_mod_pair :: cty where
  "struct_btf_mod_pair =
     CStruct [Fld ''btf'' cPtr, Fld ''module'' cPtr]"

lemma struct_btf_mod_pair_layout [simp]:
  "wf_cty struct_btf_mod_pair"
  "size_of struct_btf_mod_pair = 16"
  "align_of struct_btf_mod_pair = 8"
  by (simp_all add: struct_btf_mod_pair_def layout_simps)

definition struct_bpf_verifier_log :: cty where
  "struct_bpf_verifier_log =
     CStruct [Fld ''start_pos'' cU64, Fld ''end_pos'' cU64, Fld ''ubuf'' cPtr,
       Fld ''level'' cU32, Fld ''len_total'' cU32, Fld ''len_max'' cU32,
       Fld ''kbuf'' (CArr 1024 cU8)]"

lemma struct_bpf_verifier_log_layout [simp]:
  "wf_cty struct_bpf_verifier_log"
  "size_of struct_bpf_verifier_log = 1064"
  "align_of struct_bpf_verifier_log = 8"
  by (simp_all add: struct_bpf_verifier_log_def layout_simps)

definition struct_bpf_subprog_arg_info :: cty where
  "struct_bpf_subprog_arg_info =
     CStruct [Fld ''arg_type'' cU32, Fld '''' (CUnion [Fld ''mem_size'' cU32,
       Fld ''btf_id'' cU32])]"

lemma struct_bpf_subprog_arg_info_layout [simp]:
  "wf_cty struct_bpf_subprog_arg_info"
  "size_of struct_bpf_subprog_arg_info = 8"
  "align_of struct_bpf_subprog_arg_info = 4"
  by (simp_all add: struct_bpf_subprog_arg_info_def layout_simps)

definition struct_bpf_subprog_info :: cty where
  "struct_bpf_subprog_info =
     CStruct [Fld ''name'' cPtr, Fld ''start'' cU32, Fld ''linfo_idx'' cU32,
       Fld ''postorder_start'' cU32, Fld ''exit_idx'' cU32, Fld ''stack_depth'' cU16,
       Fld ''stack_extra'' cU16, Fld ''insn_processed'' cU32, Fld ''fastcall_stack_off'' cU16,
       Bits ''has_tail_call'' 1 1, Bits ''might_throw'' 1 1, Bits ''tail_call_reachable'' 1 1,
       Bits ''has_ld_abs'' 1 1, Bits ''is_cb'' 1 1, Bits ''is_async_cb'' 1 1,
       Bits ''is_exception_cb'' 1 1, Bits ''args_cached'' 1 1, Bits ''keep_fastcall_stack'' 1 1,
       Bits ''changes_pkt_data'' 1 1, Bits ''might_sleep'' 1 1, Bits ''arg_cnt'' 1 4,
       Fld ''priv_stack_mode'' cU32, Fld ''args'' (CArr 12 struct_bpf_subprog_arg_info),
       Fld ''stack_arg_cnt'' cU16, Fld ''max_out_stack_arg_cnt'' cU16]"

lemma struct_bpf_subprog_info_layout [simp]:
  "wf_cty struct_bpf_subprog_info"
  "size_of struct_bpf_subprog_info = 144"
  "align_of struct_bpf_subprog_info = 8"
  by (simp_all add: struct_bpf_subprog_info_def layout_simps)

definition struct_bpf_id_pair :: cty where
  "struct_bpf_id_pair =
     CStruct [Fld ''old'' cU32, Fld ''cur'' cU32]"

lemma struct_bpf_id_pair_layout [simp]:
  "wf_cty struct_bpf_id_pair"
  "size_of struct_bpf_id_pair = 8"
  "align_of struct_bpf_id_pair = 4"
  by (simp_all add: struct_bpf_id_pair_def layout_simps)

definition struct_bpf_idmap :: cty where
  "struct_bpf_idmap =
     CStruct [Fld ''tmp_id_gen'' cU32, Fld ''cnt'' cU32,
       Fld ''map'' (CArr 1312 struct_bpf_id_pair)]"

lemma struct_bpf_idmap_layout [simp]:
  "wf_cty struct_bpf_idmap"
  "size_of struct_bpf_idmap = 10504"
  "align_of struct_bpf_idmap = 4"
  by (simp_all add: struct_bpf_idmap_def layout_simps)

definition struct_bpf_idset :: cty where
  "struct_bpf_idset =
     CStruct [Fld ''num_ids'' cU32, Fld ''entries'' (CArr 1312 (CStruct [Fld ''id'' cU32,
       Fld ''cnt'' cU32]))]"

lemma struct_bpf_idset_layout [simp]:
  "wf_cty struct_bpf_idset"
  "size_of struct_bpf_idset = 10500"
  "align_of struct_bpf_idset = 4"
  by (simp_all add: struct_bpf_idset_def layout_simps)

definition struct_backtrack_state :: cty where
  "struct_backtrack_state =
     CStruct [Fld ''env'' cPtr, Fld ''frame'' cU32, Fld ''reg_masks'' (CArr 16 cU32),
       Fld ''stack_masks'' (CArr 16 cU64), Fld ''stack_arg_masks'' (CArr 16 cU8)]"

lemma struct_backtrack_state_layout [simp]:
  "wf_cty struct_backtrack_state"
  "size_of struct_backtrack_state = 224"
  "align_of struct_backtrack_state = 8"
  by (simp_all add: struct_backtrack_state_def layout_simps)

definition type_sockptr_t :: cty where
  "type_sockptr_t =
     CStruct [Fld '''' (CUnion [Fld ''kernel'' cPtr, Fld ''user'' cPtr]),
       Bits ''is_kernel'' 1 1]"

lemma type_sockptr_t_layout [simp]:
  "wf_cty type_sockptr_t"
  "size_of type_sockptr_t = 16"
  "align_of type_sockptr_t = 8"
  by (simp_all add: type_sockptr_t_def layout_simps)

definition struct_tnum :: cty where
  "struct_tnum =
     CStruct [Fld ''value'' cU64, Fld ''mask'' cU64]"

lemma struct_tnum_layout [simp]:
  "wf_cty struct_tnum"
  "size_of struct_tnum = 16"
  "align_of struct_tnum = 8"
  by (simp_all add: struct_tnum_def layout_simps)

definition struct_cnum64 :: cty where
  "struct_cnum64 =
     CStruct [Fld ''base'' cU64, Fld ''size'' cU64]"

lemma struct_cnum64_layout [simp]:
  "wf_cty struct_cnum64"
  "size_of struct_cnum64 = 16"
  "align_of struct_cnum64 = 8"
  by (simp_all add: struct_cnum64_def layout_simps)

definition struct_cnum32 :: cty where
  "struct_cnum32 =
     CStruct [Fld ''base'' cU32, Fld ''size'' cU32]"

lemma struct_cnum32_layout [simp]:
  "wf_cty struct_cnum32"
  "size_of struct_cnum32 = 8"
  "align_of struct_cnum32 = 4"
  by (simp_all add: struct_cnum32_def layout_simps)

definition struct_bpf_reg_state :: cty where
  "struct_bpf_reg_state =
     CStruct [Fld ''type'' cU32, Fld ''delta'' cU32, Fld '''' (CUnion [Fld ''range'' cU32,
       Fld '''' (CStruct [Fld ''map_ptr'' cPtr, Fld ''map_uid'' cU32]),
       Fld '''' (CStruct [Fld ''btf'' cPtr, Fld ''btf_id'' cU32]),
       Fld '''' (CStruct [Fld ''mem_size'' cU32]), Fld ''dynptr'' (CStruct [Fld ''type'' cU32,
       Fld ''first_slot'' cU8]), Fld ''iter'' (CStruct [Fld ''btf'' cPtr, Fld ''btf_id'' cU32,
       Bits ''state'' 4 2, Bits ''depth'' 4 30]),
       Fld ''irq'' (CStruct [Fld ''kfunc_class'' cU32]), Fld ''raw'' (CStruct [Fld ''raw1'' cU64,
       Fld ''raw2'' cU64]), Fld ''subprogno'' cU32]), Fld ''var_off'' struct_tnum,
       Fld ''r64'' struct_cnum64, Fld ''r32'' struct_cnum32, Fld ''id'' cU32,
       Fld ''parent_id'' cU32, Fld ''frameno'' cU32, Fld ''subreg_def'' cU32,
       Fld ''precise'' cU8]"

lemma struct_bpf_reg_state_layout [simp]:
  "wf_cty struct_bpf_reg_state"
  "size_of struct_bpf_reg_state = 88"
  "align_of struct_bpf_reg_state = 8"
  by (simp_all add: struct_bpf_reg_state_def layout_simps)

definition struct_bpf_scc_callchain :: cty where
  "struct_bpf_scc_callchain =
     CStruct [Fld ''callsites'' (CArr 15 cU32), Fld ''scc'' cU32]"

lemma struct_bpf_scc_callchain_layout [simp]:
  "wf_cty struct_bpf_scc_callchain"
  "size_of struct_bpf_scc_callchain = 64"
  "align_of struct_bpf_scc_callchain = 4"
  by (simp_all add: struct_bpf_scc_callchain_def layout_simps)

definition struct_bpf_verifier_env :: cty where
  "struct_bpf_verifier_env =
     CStruct [Fld ''insn_idx'' cU32, Fld ''prev_insn_idx'' cU32, Fld ''prog'' cPtr,
       Fld ''ops'' cPtr, Fld ''attach_btf_mod'' cPtr, Fld ''head'' cPtr, Fld ''stack_size'' cU32,
       Fld ''strict_alignment'' cU8, Fld ''test_state_freq'' cU8,
       Fld ''test_reg_invariants'' cU8, Fld ''cur_state'' cPtr, Fld ''explored_states'' cPtr,
       Fld ''free_list'' struct_list_head, Fld ''used_maps'' (CArr 64 cPtr),
       Fld ''used_btfs'' (CArr 64 struct_btf_mod_pair), Fld ''insn_array_maps'' (CArr 64 cPtr),
       Fld ''used_map_cnt'' cU32, Fld ''used_btf_cnt'' cU32, Fld ''insn_array_map_cnt'' cU32,
       Fld ''id_gen'' cU32, Fld ''hidden_subprog_cnt'' cU32,
       Fld ''exception_callback_subprog'' cU32, Fld ''explore_alu_limits'' cU8,
       Fld ''allow_ptr_leaks'' cU8, Fld ''allow_uninit_stack'' cU8, Fld ''bpf_capable'' cU8,
       Fld ''bypass_spec_v1'' cU8, Fld ''bypass_spec_v4'' cU8, Fld ''seen_direct_write'' cU8,
       Fld ''seen_exception'' cU8, Fld ''insn_aux_data'' cPtr, Fld ''prev_linfo'' cPtr,
       Fld ''log'' struct_bpf_verifier_log,
       Fld ''subprog_info'' (CArr 258 struct_bpf_subprog_info),
       Fld ''subprog_topo_order'' (CArr 258 cU32),
       Fld '''' (CUnion [Fld ''idmap_scratch'' struct_bpf_idmap,
       Fld ''idset_scratch'' struct_bpf_idset]), Fld ''cfg'' (CStruct [Fld ''insn_state'' cPtr,
       Fld ''insn_stack'' cPtr, Fld ''insn_postorder'' cPtr, Fld ''cur_stack'' cU32,
       Fld ''cur_postorder'' cU32]), Fld ''bt'' struct_backtrack_state,
       Fld ''cur_hist_ent'' cPtr, Fld ''callsite_at_stack'' cPtr, Fld ''pass_cnt'' cU32,
       Fld ''subprog_cnt'' cU32, Fld ''prev_insn_processed'' cU32, Fld ''insn_processed'' cU32,
       Fld ''prev_jmps_processed'' cU32, Fld ''jmps_processed'' cU32,
       Fld ''max_stack_depth'' cU32, Fld ''verification_time'' cU64,
       Fld ''max_states_per_insn'' cU32, Fld ''total_states'' cU32, Fld ''peak_states'' cU32,
       Fld ''longest_mark_read_walk'' cU32, Fld ''free_list_size'' cU32,
       Fld ''explored_states_size'' cU32, Fld ''num_backedges'' cU32,
       Fld ''fd_array'' type_sockptr_t, Fld ''scratched_regs'' cU32,
       Fld ''scratched_stack_slots'' cU64, Fld ''prev_log_pos'' cU64,
       Fld ''prev_insn_print_pos'' cU64, Fld ''fake_reg'' (CArr 1 struct_bpf_reg_state),
       Fld ''true_reg1'' struct_bpf_reg_state, Fld ''true_reg2'' struct_bpf_reg_state,
       Fld ''false_reg1'' struct_bpf_reg_state, Fld ''false_reg2'' struct_bpf_reg_state,
       Fld ''tmp_str_buf'' (CArr 320 cU8), Fld ''tmp_arg_name'' (CArr 32 cU8),
       Fld ''insn_buf'' (CArr 32 struct_bpf_insn),
       Fld ''epilogue_buf'' (CArr 32 struct_bpf_insn),
       Fld ''callchain_buf'' struct_bpf_scc_callchain, Fld ''liveness'' cPtr,
       Fld ''scc_info'' cPtr, Fld ''scc_cnt'' cU32, Fld ''succ'' cPtr,
       Fld ''gotox_tmp_buf'' cPtr]"

lemma struct_bpf_verifier_env_layout [simp]:
  "wf_cty struct_bpf_verifier_env"
  "size_of struct_bpf_verifier_env = 53728"
  "align_of struct_bpf_verifier_env = 8"
  by (simp_all add: struct_bpf_verifier_env_def layout_simps)

definition struct_bpf_prog_array_item :: cty where
  "struct_bpf_prog_array_item =
     CStruct [Fld ''prog'' cPtr, Fld '''' (CUnion [Fld ''cgroup_storage'' (CArr 2 cPtr),
       Fld ''bpf_cookie'' cU64])]"

lemma struct_bpf_prog_array_item_layout [simp]:
  "wf_cty struct_bpf_prog_array_item"
  "size_of struct_bpf_prog_array_item = 24"
  "align_of struct_bpf_prog_array_item = 8"
  by (simp_all add: struct_bpf_prog_array_item_def layout_simps)

definition struct_bpf_prog_array :: cty where
  "struct_bpf_prog_array =
     CStruct [Fld ''rcu'' struct_callback_head,
       Fld ''items'' (CArr 0 struct_bpf_prog_array_item)]"

lemma struct_bpf_prog_array_layout [simp]:
  "wf_cty struct_bpf_prog_array"
  "size_of struct_bpf_prog_array = 16"
  "align_of struct_bpf_prog_array = 8"
  by (simp_all add: struct_bpf_prog_array_def layout_simps)

definition struct_bpf_prog_list :: cty where
  "struct_bpf_prog_list =
     CStruct [Fld ''node'' struct_hlist_node, Fld ''prog'' cPtr, Fld ''link'' cPtr,
       Fld ''storage'' (CArr 2 cPtr), Fld ''flags'' cU32]"

lemma struct_bpf_prog_list_layout [simp]:
  "wf_cty struct_bpf_prog_list"
  "size_of struct_bpf_prog_list = 56"
  "align_of struct_bpf_prog_list = 8"
  by (simp_all add: struct_bpf_prog_list_def layout_simps)

definition struct_bpf_link_ops :: cty where
  "struct_bpf_link_ops =
     CStruct [Fld ''release'' cPtr, Fld ''dealloc'' cPtr, Fld ''dealloc_deferred'' cPtr,
       Fld ''detach'' cPtr, Fld ''update_prog'' cPtr, Fld ''show_fdinfo'' cPtr,
       Fld ''fill_link_info'' cPtr, Fld ''update_map'' cPtr, Fld ''poll'' cPtr]"

lemma struct_bpf_link_ops_layout [simp]:
  "wf_cty struct_bpf_link_ops"
  "size_of struct_bpf_link_ops = 72"
  "align_of struct_bpf_link_ops = 8"
  by (simp_all add: struct_bpf_link_ops_def layout_simps)

definition struct_bpf_verifier_ops :: cty where
  "struct_bpf_verifier_ops =
     CStruct [Fld ''get_func_proto'' cPtr, Fld ''is_valid_access'' cPtr,
       Fld ''gen_prologue'' cPtr, Fld ''gen_epilogue'' cPtr, Fld ''gen_ld_abs'' cPtr,
       Fld ''convert_ctx_access'' cPtr, Fld ''btf_struct_access'' cPtr]"

lemma struct_bpf_verifier_ops_layout [simp]:
  "wf_cty struct_bpf_verifier_ops"
  "size_of struct_bpf_verifier_ops = 56"
  "align_of struct_bpf_verifier_ops = 8"
  by (simp_all add: struct_bpf_verifier_ops_def layout_simps)

definition struct_bpf_prog_ops :: cty where
  "struct_bpf_prog_ops =
     CStruct [Fld ''test_run'' cPtr]"

lemma struct_bpf_prog_ops_layout [simp]:
  "wf_cty struct_bpf_prog_ops"
  "size_of struct_bpf_prog_ops = 8"
  "align_of struct_bpf_prog_ops = 8"
  by (simp_all add: struct_bpf_prog_ops_def layout_simps)

definition struct_bpf_insn_access_aux :: cty where
  "struct_bpf_insn_access_aux =
     CStruct [Fld ''reg_type'' cU32, Fld ''is_ldsx'' cU8,
       Fld '''' (CUnion [Fld ''ctx_field_size'' cU32, Fld '''' (CStruct [Fld ''btf'' cPtr,
       Fld ''btf_id'' cU32, Fld ''ref_id'' cU32])]), Fld ''log'' cPtr, Fld ''is_retval'' cU8]"

lemma struct_bpf_insn_access_aux_layout [simp]:
  "wf_cty struct_bpf_insn_access_aux"
  "size_of struct_bpf_insn_access_aux = 40"
  "align_of struct_bpf_insn_access_aux = 8"
  by (simp_all add: struct_bpf_insn_access_aux_def layout_simps)

definition struct_bpf_retval_range :: cty where
  "struct_bpf_retval_range =
     CStruct [Fld ''minval'' cU32, Fld ''maxval'' cU32, Fld ''return_32bit'' cU8]"

lemma struct_bpf_retval_range_layout [simp]:
  "wf_cty struct_bpf_retval_range"
  "size_of struct_bpf_retval_range = 12"
  "align_of struct_bpf_retval_range = 4"
  by (simp_all add: struct_bpf_retval_range_def layout_simps)

definition struct_bpf_func_state :: cty where
  "struct_bpf_func_state =
     CStruct [Fld ''regs'' (CArr 11 struct_bpf_reg_state), Fld ''callsite'' cU32,
       Fld ''frameno'' cU32, Fld ''subprogno'' cU32, Fld ''async_entry_cnt'' cU32,
       Fld ''callback_ret_range'' struct_bpf_retval_range, Fld ''in_callback_fn'' cU8,
       Fld ''in_async_callback_fn'' cU8, Fld ''in_exception_callback_fn'' cU8,
       Fld ''no_stack_arg_load'' cU8, Fld ''callback_depth'' cU32, Fld ''stack'' cPtr,
       Fld ''allocated_stack'' cU32, Fld ''out_stack_arg_cnt'' cU16,
       Fld ''stack_arg_regs'' cPtr]"

lemma struct_bpf_func_state_layout [simp]:
  "wf_cty struct_bpf_func_state"
  "size_of struct_bpf_func_state = 1032"
  "align_of struct_bpf_func_state = 8"
  by (simp_all add: struct_bpf_func_state_def layout_simps)

definition struct_bpf_verifier_state :: cty where
  "struct_bpf_verifier_state =
     CStruct [Fld ''frame'' (CArr 16 cPtr), Fld ''parent'' cPtr, Fld ''refs'' cPtr,
       Fld ''branches'' cU32, Fld ''insn_idx'' cU32, Fld ''curframe'' cU32,
       Fld ''acquired_refs'' cU32, Fld ''active_locks'' cU32, Fld ''active_preempt_locks'' cU32,
       Fld ''active_irq_id'' cU32, Fld ''active_lock_id'' cU32, Fld ''active_lock_ptr'' cPtr,
       Fld ''active_rcu_locks'' cU32, Fld ''speculative'' cU8, Fld ''in_sleepable'' cU8,
       Fld ''first_insn_idx'' cU32, Fld ''last_insn_idx'' cU32, Fld ''equal_state'' cPtr,
       Fld ''jmp_history'' cPtr, Fld ''jmp_history_cnt'' cU32, Fld ''dfs_depth'' cU32,
       Fld ''callback_unroll_depth'' cU32, Fld ''may_goto_depth'' cU32]"

lemma struct_bpf_verifier_state_layout [simp]:
  "wf_cty struct_bpf_verifier_state"
  "size_of struct_bpf_verifier_state = 232"
  "align_of struct_bpf_verifier_state = 8"
  by (simp_all add: struct_bpf_verifier_state_def layout_simps)

definition struct_refcount_struct :: cty where
  "struct_refcount_struct =
     CStruct [Fld ''refs'' type_atomic_t]"

lemma struct_refcount_struct_layout [simp]:
  "wf_cty struct_refcount_struct"
  "size_of struct_refcount_struct = 4"
  "align_of struct_refcount_struct = 4"
  by (simp_all add: struct_refcount_struct_def layout_simps)

definition struct_btf :: cty where
  "struct_btf =
     CStruct [Fld ''data'' cPtr, Fld ''types'' cPtr, Fld ''resolved_ids'' cPtr,
       Fld ''resolved_sizes'' cPtr, Fld ''strings'' cPtr, Fld ''nohdr_data'' cPtr,
       Fld ''hdr'' struct_btf_header, Fld ''nr_types'' cU32, Fld ''named_start_id'' cU32,
       Fld ''types_size'' cU32, Fld ''data_size'' cU32, Fld ''refcnt'' struct_refcount_struct,
       Fld ''id'' cU32, Fld ''rcu'' struct_callback_head, Fld ''kfunc_set_tab'' cPtr,
       Fld ''dtor_kfunc_tab'' cPtr, Fld ''struct_meta_tab'' cPtr, Fld ''struct_ops_tab'' cPtr,
       Fld ''layout'' cPtr, Fld ''base_btf'' cPtr, Fld ''start_id'' cU32,
       Fld ''start_str_off'' cU32, Fld ''name'' (CArr 56 cU8), Fld ''kernel_btf'' cU8,
       Fld ''base_id_map'' cPtr]"

lemma struct_btf_layout [simp]:
  "wf_cty struct_btf"
  "size_of struct_btf = 248"
  "align_of struct_btf = 8"
  by (simp_all add: struct_btf_def layout_simps)

definition struct_btf_field_kptr :: cty where
  "struct_btf_field_kptr =
     CStruct [Fld ''btf'' cPtr, Fld ''module'' cPtr, Fld ''dtor'' cPtr, Fld ''btf_id'' cU32]"

lemma struct_btf_field_kptr_layout [simp]:
  "wf_cty struct_btf_field_kptr"
  "size_of struct_btf_field_kptr = 32"
  "align_of struct_btf_field_kptr = 8"
  by (simp_all add: struct_btf_field_kptr_def layout_simps)

definition struct_btf_field_graph_root :: cty where
  "struct_btf_field_graph_root =
     CStruct [Fld ''btf'' cPtr, Fld ''value_btf_id'' cU32, Fld ''node_offset'' cU32,
       Fld ''value_rec'' cPtr]"

lemma struct_btf_field_graph_root_layout [simp]:
  "wf_cty struct_btf_field_graph_root"
  "size_of struct_btf_field_graph_root = 24"
  "align_of struct_btf_field_graph_root = 8"
  by (simp_all add: struct_btf_field_graph_root_def layout_simps)

definition struct_btf_field :: cty where
  "struct_btf_field =
     CStruct [Fld ''offset'' cU32, Fld ''size'' cU32, Fld ''type'' cU32,
       Fld '''' (CUnion [Fld ''kptr'' struct_btf_field_kptr,
       Fld ''graph_root'' struct_btf_field_graph_root])]"

lemma struct_btf_field_layout [simp]:
  "wf_cty struct_btf_field"
  "size_of struct_btf_field = 48"
  "align_of struct_btf_field = 8"
  by (simp_all add: struct_btf_field_def layout_simps)

definition struct_btf_record :: cty where
  "struct_btf_record =
     CStruct [Fld ''cnt'' cU32, Fld ''field_mask'' cU32, Fld ''spin_lock_off'' cU32,
       Fld ''res_spin_lock_off'' cU32, Fld ''timer_off'' cU32, Fld ''wq_off'' cU32,
       Fld ''refcount_off'' cU32, Fld ''task_work_off'' cU32,
       Fld ''fields'' (CArr 0 struct_btf_field)]"

lemma struct_btf_record_layout [simp]:
  "wf_cty struct_btf_record"
  "size_of struct_btf_record = 32"
  "align_of struct_btf_record = 8"
  by (simp_all add: struct_btf_record_def layout_simps)

definition struct_bpf_mem_alloc :: cty where
  "struct_bpf_mem_alloc =
     CStruct [Fld ''caches'' cPtr, Fld ''cache'' cPtr, Fld ''objcg'' cPtr, Fld ''percpu'' cU8,
       Fld ''work'' struct_work_struct, Fld ''dtor_ctx_free'' cPtr, Fld ''dtor_ctx'' cPtr]"

lemma struct_bpf_mem_alloc_layout [simp]:
  "wf_cty struct_bpf_mem_alloc"
  "size_of struct_bpf_mem_alloc = 80"
  "align_of struct_bpf_mem_alloc = 8"
  by (simp_all add: struct_bpf_mem_alloc_def layout_simps)

definition struct_bpf_iter_seq_info :: cty where
  "struct_bpf_iter_seq_info =
     CStruct [Fld ''seq_ops'' cPtr, Fld ''init_seq_private'' cPtr, Fld ''fini_seq_private'' cPtr,
       Fld ''seq_priv_size'' cU32]"

lemma struct_bpf_iter_seq_info_layout [simp]:
  "wf_cty struct_bpf_iter_seq_info"
  "size_of struct_bpf_iter_seq_info = 32"
  "align_of struct_bpf_iter_seq_info = 8"
  by (simp_all add: struct_bpf_iter_seq_info_def layout_simps)

definition struct_bpf_local_storage :: cty where
  "struct_bpf_local_storage =
     CStruct [Fld ''cache'' (CArr 16 cPtr), Fld ''list'' struct_hlist_head, Fld ''owner'' cPtr,
       Fld ''rcu'' struct_callback_head, Fld ''lock'' struct_qspinlock, Fld ''mem_charge'' cU64,
       Fld ''owner_refcnt'' struct_refcount_struct]"

lemma struct_bpf_local_storage_layout [simp]:
  "wf_cty struct_bpf_local_storage"
  "size_of struct_bpf_local_storage = 184"
  "align_of struct_bpf_local_storage = 8"
  by (simp_all add: struct_bpf_local_storage_def layout_simps)

definition struct_bpf_local_storage_map :: cty where
  "struct_bpf_local_storage_map =
     CStruct [Fld ''map'' struct_bpf_map, Fld ''buckets'' cPtr, Fld ''bucket_log'' cU32,
       Fld ''elem_size'' cU16, Fld ''cache_idx'' cU16]"

lemma struct_bpf_local_storage_map_layout [simp]:
  "wf_cty struct_bpf_local_storage_map"
  "size_of struct_bpf_local_storage_map = 304"
  "align_of struct_bpf_local_storage_map = 8"
  by (simp_all add: struct_bpf_local_storage_map_def layout_simps)

definition struct_bpf_dispatcher_prog :: cty where
  "struct_bpf_dispatcher_prog =
     CStruct [Fld ''prog'' cPtr, Fld ''users'' struct_refcount_struct]"

lemma struct_bpf_dispatcher_prog_layout [simp]:
  "wf_cty struct_bpf_dispatcher_prog"
  "size_of struct_bpf_dispatcher_prog = 16"
  "align_of struct_bpf_dispatcher_prog = 8"
  by (simp_all add: struct_bpf_dispatcher_prog_def layout_simps)

definition struct_bpf_dispatcher :: cty where
  "struct_bpf_dispatcher =
     CStruct [Fld ''mutex'' struct_mutex, Fld ''func'' cPtr,
       Fld ''progs'' (CArr 48 struct_bpf_dispatcher_prog), Fld ''num_progs'' cU32,
       Fld ''image'' cPtr, Fld ''rw_image'' cPtr, Fld ''image_off'' cU32,
       Fld ''ksym'' struct_bpf_ksym, Fld ''sc_key'' cPtr, Fld ''sc_tramp'' cPtr]"

lemma struct_bpf_dispatcher_layout [simp]:
  "wf_cty struct_bpf_dispatcher"
  "size_of struct_bpf_dispatcher = 1456"
  "align_of struct_bpf_dispatcher = 8"
  by (simp_all add: struct_bpf_dispatcher_def layout_simps)

definition struct_btf_func_model :: cty where
  "struct_btf_func_model =
     CStruct [Fld ''ret_size'' cU8, Fld ''ret_flags'' cU8, Fld ''nr_args'' cU8,
       Fld ''arg_size'' (CArr 12 cU8), Fld ''arg_flags'' (CArr 12 cU8)]"

lemma struct_btf_func_model_layout [simp]:
  "wf_cty struct_btf_func_model"
  "size_of struct_btf_func_model = 27"
  "align_of struct_btf_func_model = 1"
  by (simp_all add: struct_btf_func_model_def layout_simps)

definition struct_bpf_trampoline :: cty where
  "struct_bpf_trampoline =
     CStruct [Fld ''hlist_key'' struct_hlist_node, Fld ''hlist_ip'' struct_hlist_node,
       Fld ''fops'' cPtr, Fld ''refcnt'' struct_refcount_struct, Fld ''flags'' cU32,
       Fld ''key'' cU64, Fld ''ip'' cU64,
       Fld ''func'' (CStruct [Fld ''model'' struct_btf_func_model, Fld ''addr'' cPtr,
       Fld ''ftrace_managed'' cU8]), Fld ''extension_prog'' cPtr,
       Fld ''progs_hlist'' (CArr 3 struct_hlist_head), Fld ''progs_cnt'' (CArr 3 cU32),
       Fld ''cur_image'' cPtr, Fld ''multi_attach'' (CStruct [Fld ''old_image'' cPtr,
       Fld ''old_flags'' cU32])]"

lemma struct_bpf_trampoline_layout [simp]:
  "wf_cty struct_bpf_trampoline"
  "size_of struct_bpf_trampoline = 184"
  "align_of struct_bpf_trampoline = 8"
  by (simp_all add: struct_bpf_trampoline_def layout_simps)

definition struct_bpf_tramp_node :: cty where
  "struct_bpf_tramp_node =
     CStruct [Fld ''link'' cPtr, Fld ''tramp_hlist'' struct_hlist_node, Fld ''cookie'' cU64]"

lemma struct_bpf_tramp_node_layout [simp]:
  "wf_cty struct_bpf_tramp_node"
  "size_of struct_bpf_tramp_node = 32"
  "align_of struct_bpf_tramp_node = 8"
  by (simp_all add: struct_bpf_tramp_node_def layout_simps)

definition struct_bpf_tramp_link :: cty where
  "struct_bpf_tramp_link =
     CStruct [Fld ''link'' struct_bpf_link, Fld ''node'' struct_bpf_tramp_node]"

lemma struct_bpf_tramp_link_layout [simp]:
  "wf_cty struct_bpf_tramp_link"
  "size_of struct_bpf_tramp_link = 112"
  "align_of struct_bpf_tramp_link = 8"
  by (simp_all add: struct_bpf_tramp_link_def layout_simps)

definition struct_bpf_binary_header :: cty where
  "struct_bpf_binary_header =
     CStruct [Fld ''size'' cU32, Bits '''' 8 0, Fld ''image'' (CArr 0 cU8)]"

lemma struct_bpf_binary_header_layout [simp]:
  "wf_cty struct_bpf_binary_header"
  "size_of struct_bpf_binary_header = 8"
  "align_of struct_bpf_binary_header = 4"
  by (simp_all add: struct_bpf_binary_header_def layout_simps)

definition struct_bpf_offload_dev :: cty where
  "struct_bpf_offload_dev =
     CStruct [Fld ''ops'' cPtr, Fld ''netdevs'' struct_list_head, Fld ''priv'' cPtr]"

lemma struct_bpf_offload_dev_layout [simp]:
  "wf_cty struct_bpf_offload_dev"
  "size_of struct_bpf_offload_dev = 32"
  "align_of struct_bpf_offload_dev = 8"
  by (simp_all add: struct_bpf_offload_dev_def layout_simps)

end
