(* ===== verification/NetmonAbi.thy ===== *)
theory NetmonAbi
  imports NetmonBpfEvents VmlinuxEnums VmlinuxNet VmlinuxKern
begin

text \<open>
  What the programs of netmon.bpf.c assume about the kernel, checked against the declarations of
  vmlinux.h: where the fields of the socket-address context lie and how a run of the connect
  programs reads them out of the context's bytes, where the packet programs' literal header
  offsets fall, which pages of the ring buffer the two positions are on, and which numbers the
  map types, helpers and attach points have.
\<close>

section \<open>The context in memory\<close>

definition load_field :: "string \<Rightarrow> cty \<Rightarrow> u8 list \<Rightarrow> u8 list option" where
  "load_field f t mem = (case byte_field f t of
     Some (off, n) \<Rightarrow> if off + n \<le> length mem then Some (subrange off n mem) else None
   | None \<Rightarrow> None)"

lemma load_field_within:
  assumes "wf_cty t" and "length mem = size_of t" and "byte_field f t = Some (off, n)"
  shows "load_field f t mem = Some (subrange off n mem)"
  using byte_field_in_bounds [OF assms(1,3)] assms(2,3) by (simp add: load_field_def)

lemma bpf_sock_addr_field_at:
  "byte_field ''user_family'' struct_bpf_sock_addr = Some (0, 4)"
  "byte_field ''user_ip4'' struct_bpf_sock_addr = Some (4, 4)"
  "byte_field ''user_ip6'' struct_bpf_sock_addr = Some (8, 16)"
  "byte_field ''user_port'' struct_bpf_sock_addr = Some (24, 4)"
  "byte_field ''family'' struct_bpf_sock_addr = Some (28, 4)"
  "byte_field ''type'' struct_bpf_sock_addr = Some (32, 4)"
  "byte_field ''protocol'' struct_bpf_sock_addr = Some (36, 4)"
  "byte_field ''msg_src_ip4'' struct_bpf_sock_addr = Some (40, 4)"
  "byte_field ''msg_src_ip6'' struct_bpf_sock_addr = Some (44, 16)"
  "byte_field ''sk'' struct_bpf_sock_addr = Some (64, 8)"
  by (simp_all add: byte_field_def struct_bpf_sock_addr_def layout_simps)

lemma sk_buff_field_at:
  "byte_field ''ifindex'' struct___sk_buff = Some (40, 4)"
  by (simp add: byte_field_def struct___sk_buff_def layout_simps)

text \<open>A 32-bit field, and a field that is an array of 32-bit words.\<close>

definition field32 :: "string \<Rightarrow> cty \<Rightarrow> u8 list \<Rightarrow> u32" where
  "field32 f t mem = (case load_field f t mem of Some bs \<Rightarrow> word_le bs | None \<Rightarrow> 0)"

definition field32s :: "string \<Rightarrow> cty \<Rightarrow> u8 list \<Rightarrow> u32 list" where
  "field32s f t mem = (case load_field f t mem of
     Some bs \<Rightarrow> map (\<lambda>i. word_le (subrange (4 * i) 4 bs)) [0..<length bs div 4] | None \<Rightarrow> [])"

definition sock_addr_of_memory :: "u8 list \<Rightarrow> bpf_sock_addr" where
  "sock_addr_of_memory mem = (let t = struct_bpf_sock_addr in \<lparr>
     sa_user_family = field32 ''user_family'' t mem,
     sa_user_ip4 = field32 ''user_ip4'' t mem,
     sa_user_ip6 = field32s ''user_ip6'' t mem,
     sa_user_port = field32 ''user_port'' t mem,
     sa_family = field32 ''family'' t mem,
     sa_type = field32 ''type'' t mem,
     sa_protocol = field32 ''protocol'' t mem,
     sa_msg_src_ip4 = field32 ''msg_src_ip4'' t mem,
     sa_msg_src_ip6 = field32s ''msg_src_ip6'' t mem,
     sa_sk = (case load_field ''sk'' t mem of Some bs \<Rightarrow> word_le bs | None \<Rightarrow> 0)\<rparr>)"

lemma field32_within:
  "wf_cty t \<Longrightarrow> length mem = size_of t \<Longrightarrow> byte_field f t = Some (off, 4) \<Longrightarrow>
   field32 f t mem = word_le (subrange off 4 mem)"
  by (simp add: field32_def load_field_within)

lemma field32s_within:
  "wf_cty t \<Longrightarrow> length mem = size_of t \<Longrightarrow> byte_field f t = Some (off, 4 * n) \<Longrightarrow>
   field32s f t mem = map (\<lambda>i. word_le (subrange (off + 4 * i) 4 mem)) [0..<n]"
  using byte_field_in_bounds [of t f off "4 * n"]
  by (auto simp: field32s_def load_field_within subrange_subrange)

lemma sock_addr_of_memory_words:
  assumes "length mem = 72"
  shows "sa_user_ip4 (sock_addr_of_memory mem) = word_le (subrange 4 4 mem)"
    and "sa_user_ip6 (sock_addr_of_memory mem) =
           map (\<lambda>i. word_le (subrange (8 + 4 * i) 4 mem)) [0..<4]"
    and "sa_user_port (sock_addr_of_memory mem) = word_le (subrange 24 4 mem)"
    and "sa_protocol (sock_addr_of_memory mem) = word_le (subrange 36 4 mem)"
  using assms field32s_within [of struct_bpf_sock_addr mem "''user_ip6''" 8 4]
  by (simp_all add: sock_addr_of_memory_def field32_within bpf_sock_addr_field_at)

text \<open>The bytes of the context that reach the record, whatever the family.\<close>

lemma subrange_halves:
  "subrange off (m + n) xs = subrange off m xs @ subrange (off + m) n xs"
  by (simp add: subrange_def take_add add.commute)

lemma destination_of_memory:
  assumes "length mem = 72"
  shows "destination_bytes (sock_addr_of_memory mem) AF_INET = subrange 4 4 mem @ replicate 12 0"
    and "destination_bytes (sock_addr_of_memory mem) AF_INET6 = subrange 8 16 mem"
proof -
  have le: "bytes_le 4 (word_le (subrange off 4 mem) :: u32) = subrange off 4 mem" if "off + 4 \<le> 72" for off
    using that assms by (intro bytes_le_word_le) simp_all
  show "destination_bytes (sock_addr_of_memory mem) AF_INET = subrange 4 4 mem @ replicate 12 0"
    by (simp add: destination_bytes_def sock_addr_of_memory_words [OF assms] le)
  have "subrange 8 16 mem = subrange 8 4 mem @ subrange 12 4 mem @ subrange 16 4 mem @ subrange 20 4 mem"
    using subrange_halves [of 8 4 12 mem] subrange_halves [of 12 4 8 mem] subrange_halves [of 16 4 4 mem]
    by simp
  then show "destination_bytes (sock_addr_of_memory mem) AF_INET6 = subrange 8 16 mem"
    by (simp add: destination_bytes_def sock_addr_of_memory_words [OF assms] le proto_defs upt_rec)
qed

lemma bytes_le_take: "n \<le> m \<Longrightarrow> bytes_le n w = take n (bytes_le m w)"
  by (simp add: bytes_le_def take_map)

lemma port_of_memory:
  assumes "length mem = 72"
  shows "word_be (bytes_le 2 (sa_user_port (sock_addr_of_memory mem))) = (word_be (subrange 24 2 mem) :: u16)"
proof -
  have "bytes_le 2 (word_le (subrange 24 4 mem) :: u32) = take 2 (bytes_le 4 (word_le (subrange 24 4 mem) :: u32))"
    by (rule bytes_le_take) simp
  also have "\<dots> = subrange 24 2 mem"
    using assms by (simp add: bytes_le_word_le subrange_def)
  finally show ?thesis by (simp add: sock_addr_of_memory_words [OF assms])
qed

section \<open>Packet headers\<close>

lemma iphdr_field_at:
  "find_field ''ihl'' struct_iphdr = Some (0, 4)"
  "find_field ''version'' struct_iphdr = Some (4, 4)"
  "byte_field ''frag_off'' struct_iphdr = Some (6, 2)"
  "byte_field ''protocol'' struct_iphdr = Some (9, 1)"
  "byte_field ''saddr'' struct_iphdr = Some (12, 4)"
  by (simp_all add: byte_field_def struct_iphdr_def layout_simps)

lemma ipv6hdr_field_at:
  "find_field ''version'' struct_ipv6hdr = Some (4, 4)"
  "byte_field ''nexthdr'' struct_ipv6hdr = Some (6, 1)"
  "byte_field ''saddr'' struct_ipv6hdr = Some (8, 16)"
  by (simp_all add: byte_field_def struct_ipv6hdr_def layout_simps)

lemma udphdr_field_at:
  "byte_field ''source'' struct_udphdr = Some (0, 2)"
  "byte_field ''dest'' struct_udphdr = Some (2, 2)"
  "byte_field ''len'' struct_udphdr = Some (4, 2)"
  by (simp_all add: byte_field_def struct_udphdr_def layout_simps)

section \<open>The ring buffer\<close>

lemma ringbuf_field_at:
  "byte_field ''consumer_pos'' struct_bpf_ringbuf = Some (4096, 8)"
  "byte_field ''producer_pos'' struct_bpf_ringbuf = Some (8192, 8)"
  "byte_field ''pending_pos'' struct_bpf_ringbuf = Some (8200, 8)"
  "byte_field ''data'' struct_bpf_ringbuf = Some (12288, 0)"
  by (simp_all add: byte_field_def struct_bpf_ringbuf_def ringbuf_defs pad_simps layout_simps)

section \<open>All modelled declarations\<close>

definition modelled_types :: "cty list" where
  "modelled_types = [
     struct_bpf_sock_addr, struct___sk_buff, struct_bpf_sock, struct_bpf_tcp_sock,
     struct_bpf_sock_tuple, struct_bpf_sock_ops, struct_bpf_sockopt, struct_bpf_sk_lookup,
     struct_bpf_flow_keys, struct_bpf_fib_lookup, struct_bpf_tunnel_key, struct_bpf_map_info,
     struct_bpf_prog_info, struct_bpf_btf_info, struct_bpf_link_info, struct_bpf_insn,
     struct_bpf_cgroup_storage_key, struct_fred_cs, struct_fred_ss, struct_pt_regs,
     struct_bpf_perf_event_data, struct_bpf_pidns_info, struct_bpf_redir_neigh,
     struct_bpf_spin_lock, struct_bpf_timer, struct_bpf_dynptr, struct_bpf_list_head,
     struct_bpf_list_node, struct_bpf_rb_root, struct_bpf_rb_node, struct_bpf_refcount,
     struct_bpf_sysctl, struct_bpf_func_info, struct_bpf_line_info, struct_bpf_core_relo,
     struct_bpf_devmap_val, struct_bpf_cpumap_val, struct_bpf_raw_tracepoint_args,
     struct_bpf_xdp_sock, struct_xdp_md, struct_sk_msg_md, struct_sk_reuseport_md,
     struct_bpf_lpm_trie_key_hdr, struct_bpf_lpm_trie_key_u8, struct_btf_header, struct_btf_type,
     struct_btf_ptr, struct_btf_enum, struct_btf_enum64, struct_btf_array, struct_btf_member,
     struct_btf_param, struct_btf_var, struct_btf_var_secinfo, struct_btf_decl_tag, union_bpf_attr,
     struct_iphdr, struct_in6_addr, struct_ipv6hdr, struct_udphdr, struct_tcphdr, struct_in_addr,
     struct_ethhdr, struct_sockaddr, struct_sockaddr_in, struct_sockaddr_in6, struct_icmphdr,
     struct_icmpv6_echo, struct_icmpv6_nd_advt, struct_icmpv6_nd_ra, struct_icmp6hdr,
     struct_ipv6_opt_hdr, struct_frag_hdr, struct_vlan_hdr, type_atomic64_t, type_atomic_t,
     struct_qspinlock, struct_raw_spinlock, struct_optimistic_spin_queue, struct_mutex,
     struct_list_head, struct_work_struct, struct_callback_head, struct_spinlock, struct_bpf_map,
     struct_bpf_array, struct_wait_queue_head, struct_llist_node, struct___call_single_node,
     struct_rcuwait, struct_irq_work, struct_bpf_ringbuf_map, struct_sock_filter, struct_bpf_prog,
     struct_rb_node, struct_latch_tree_node, struct_bpf_ksym, struct_llist_head, struct_bpf_stream,
     struct_bpf_prog_aux, struct_hlist_head, struct_percpu_ref, struct_cgroup_bpf, struct_rcu_work,
     struct_cgroup_subsys_state, struct_hlist_node, struct_timer_list, struct_cgroup_file,
     struct_cacheline_padding, struct_task_cputime, struct_cgroup_base_stat, struct_prev_cputime,
     struct_seqcount, struct_seqcount_spinlock, struct_cgroup_freezer_state, struct_cgroup,
     struct_bpf_link, struct_bpf_cgroup_link, struct_bpf_sock_addr_kern, struct_bpf_map_ops,
     struct_bpf_func_proto, struct_btf_mod_pair, struct_bpf_verifier_log,
     struct_bpf_subprog_arg_info, struct_bpf_subprog_info, struct_bpf_id_pair, struct_bpf_idmap,
     struct_bpf_idset, struct_backtrack_state, type_sockptr_t, struct_tnum, struct_cnum64,
     struct_cnum32, struct_bpf_reg_state, struct_bpf_scc_callchain, struct_bpf_verifier_env,
     struct_bpf_prog_array_item, struct_bpf_prog_array, struct_bpf_prog_list, struct_bpf_link_ops,
     struct_bpf_verifier_ops, struct_bpf_prog_ops, struct_bpf_insn_access_aux,
     struct_bpf_retval_range, struct_bpf_func_state, struct_bpf_verifier_state,
     struct_refcount_struct, struct_btf, struct_btf_field_kptr, struct_btf_field_graph_root,
     struct_btf_field, struct_btf_record, struct_bpf_mem_alloc, struct_bpf_iter_seq_info,
     struct_bpf_local_storage, struct_bpf_local_storage_map, struct_bpf_dispatcher_prog,
     struct_bpf_dispatcher, struct_btf_func_model, struct_bpf_trampoline, struct_bpf_tramp_node,
     struct_bpf_tramp_link, struct_bpf_binary_header, struct_bpf_offload_dev, struct_bpf_ringbuf,
     struct_connection_event, struct_dns_packet_event]"

lemma event_types_wf: "wf_cty struct_connection_event" "wf_cty struct_dns_packet_event"
  by (simp_all add: struct_connection_event_def struct_dns_packet_event_def scalar_sizes_def)

lemma modelled_types_wf: "t \<in> set modelled_types \<Longrightarrow> wf_cty t"
  by (auto simp: modelled_types_def event_types_wf)

section \<open>Properties\<close>

text \<open>The memory of a context: an IPv4 connect over TCP to 192.168.1.1, port 443.\<close>

definition sample_context :: "u8 list" where
  "sample_context = [2, 0, 0, 0, 192, 168, 1, 1] @ replicate 16 0 @ [1, 187, 0, 0, 2, 0, 0, 0,
     1, 0, 0, 0, 6, 0, 0, 0] @ replicate 32 0"

lemma sample_context_length [simp]: "length sample_context = 72"
  by (simp add: sample_context_def)

lemma sample_context_words:
  "subrange 4 4 sample_context = [192, 168, 1, 1]"
  "subrange 24 2 sample_context = [1, 187]"
  "subrange 36 4 sample_context = [6, 0, 0, 0]"
  by (simp_all add: sample_context_def subrange_def)

lemma sample_context_protocol:
  "unat (sa_protocol (sock_addr_of_memory sample_context)) \<in> {IPPROTO_TCP, IPPROTO_UDP}"
  by (simp add: sock_addr_of_memory_words sample_context_words word_le_Cons proto_defs)

text \<open>
  In the kernel's struct bpf_ringbuf the consumer position, the producer position and the data
  each start a 4096-byte page of their own, so that they can be mapped with different permissions.
\<close>

theorem ringbuf_positions_page_separated:
  "map (\<lambda>f. map_option (\<lambda>(off, n). (off div 4096, off mod 4096)) (byte_field f struct_bpf_ringbuf))
     [''consumer_pos'', ''producer_pos'', ''data''] = [Some (1, 0), Some (2, 0), Some (3, 0)]"
  by (simp add: ringbuf_field_at)

text \<open>The attach points of main.go's table, with the kernel's name of their slot.\<close>

definition attach_points :: "(string \<times> string) list" where
  "attach_points = [
     (''BPF_CGROUP_INET4_CONNECT'', ''CGROUP_INET4_CONNECT''),
     (''BPF_CGROUP_INET6_CONNECT'', ''CGROUP_INET6_CONNECT''),
     (''BPF_CGROUP_UDP4_SENDMSG'', ''CGROUP_UDP4_SENDMSG''),
     (''BPF_CGROUP_UDP6_SENDMSG'', ''CGROUP_UDP6_SENDMSG''),
     (''BPF_CGROUP_INET_INGRESS'', ''CGROUP_INET_INGRESS''),
     (''BPF_CGROUP_INET_EGRESS'', ''CGROUP_INET_EGRESS'')]"

lemma attach_numbers:
  "map (map_of enum_bpf_attach_type \<circ> fst) attach_points = map Some [10, 11, 14, 15, 0, 1] \<and>
   map (map_of enum_cgroup_bpf_attach_type \<circ> snd) attach_points = map Some [7, 8, 12, 13, 0, 1] \<and>
   map_of enum_cgroup_bpf_attach_type ''MAX_CGROUP_BPF_ATTACH_TYPE'' = Some 38"
  by code_simp

lemma cgroup_tables:
  "byte_field ''effective'' struct_cgroup_bpf = Some (0, 304)"
  "byte_field ''progs'' struct_cgroup_bpf = Some (304, 304)"
  "byte_field ''flags'' struct_cgroup_bpf = Some (608, 38)"
  "byte_field ''revisions'' struct_cgroup_bpf = Some (648, 304)"
  by (simp_all add: byte_field_def struct_cgroup_bpf_def layout_simps)

text \<open>
  Each of the six attach points of main.go has a distinct slot number in the kernel's cgroup
  attach enumeration that indexes inside the per-cgroup tables of effective programs and flags,
  which have one element per slot, 38 in all.
\<close>

theorem attach_points_have_table_slots:
  "map (map_of enum_bpf_attach_type \<circ> fst) attach_points = map Some [10, 11, 14, 15, 0, 1] \<and>
   map (map_of enum_cgroup_bpf_attach_type \<circ> snd) attach_points = map Some [7, 8, 12, 13, 0, 1] \<and>
   map_of enum_cgroup_bpf_attach_type ''MAX_CGROUP_BPF_ATTACH_TYPE'' = Some 38 \<and>
   map (\<lambda>f. byte_field f struct_cgroup_bpf) [''effective'', ''progs'', ''flags'', ''revisions''] =
     [Some (0, 38 * 8), Some (304, 38 * 8), Some (608, 38), Some (648, 38 * 8)]"
  using attach_numbers cgroup_tables by simp

text \<open>
  For every declaration of vmlinux.h and netmon.h that is modelled, a named member, found through
  any nesting of anonymous structs and unions, lies inside the object.
\<close>

theorem declared_fields_in_bounds:
  assumes "t \<in> set modelled_types" and "find_field f t = Some (off, w)"
  shows "off + w \<le> 8 * size_of t"
  using assms(2) by (rule find_in_bounds(1) [OF modelled_types_wf [OF assms(1)]])

theorem declared_fields_in_bounds_witness:
  "\<exists>off w. find_field ''user_port'' struct_bpf_sock_addr = Some (off, w) \<and>
     off + w \<le> 8 * size_of struct_bpf_sock_addr"
proof -
  have "find_field ''user_port'' struct_bpf_sock_addr = Some (192, 32)"
    by (simp add: struct_bpf_sock_addr_def layout_simps)
  moreover have "struct_bpf_sock_addr \<in> set modelled_types" by (simp add: modelled_types_def)
  ultimately show ?thesis using declared_fields_in_bounds by blast
qed

text \<open>
  C11. Run on the 72 bytes of the kernel's struct bpf_sock_addr, connect4 records bytes 4 to 8 of
  the context as the address and connect6 bytes 8 to 24, and both record bytes 24 and 25, read in
  network order, as the port.
\<close>

theorem connect_reads_context_bytes:
  assumes "length mem = size_of struct_bpf_sock_addr" and "env_reserve env 80 = Some m"
    and "unat (sa_protocol (sock_addr_of_memory mem)) \<in> {IPPROTO_TCP, IPPROTO_UDP}"
  shows "\<exists>e4 e6. connect4 env (sock_addr_of_memory mem) s = (ringbuf_submit (connection_image e4) s, 1) \<and>
    connect6 env (sock_addr_of_memory mem) s = (ringbuf_submit (connection_image e6) s, 1) \<and>
    ce_destination e4 = subrange 4 4 mem @ replicate 12 0 \<and> ce_destination e6 = subrange 8 16 mem \<and>
    ce_destination_port e4 = word_be (subrange 24 2 mem) \<and>
    ce_destination_port e6 = word_be (subrange 24 2 mem)"
proof -
  let ?ctx = "sock_addr_of_memory mem"
  let ?r = "connect_record env ?ctx (ucast (sa_protocol ?ctx))"
  have len: "length mem = 72" using assms(1) by simp
  have "connect4 env ?ctx s = (ringbuf_submit (connection_image (?r AF_INET)) s, 1)"
    and "connect6 env ?ctx s = (ringbuf_submit (connection_image (?r AF_INET6)) s, 1)"
    using assms(2,3) emit_connect_record [of AF_INET env ?ctx] emit_connect_record [of AF_INET6 env ?ctx]
    by (auto simp: program_defs)
  then show ?thesis
    by (intro exI [of _ "?r AF_INET"] exI [of _ "?r AF_INET6"])
      (simp add: connect_record_def destination_of_memory [OF len] port_of_memory [OF len])
qed

theorem connect_reads_context_bytes_witness:
  "\<exists>e4 e6. connect4 sample_env (sock_addr_of_memory sample_context) sample_kstate =
      (ringbuf_submit (connection_image e4) sample_kstate, 1) \<and>
    connect6 sample_env (sock_addr_of_memory sample_context) sample_kstate =
      (ringbuf_submit (connection_image e6) sample_kstate, 1) \<and>
    ce_destination e4 = [192, 168, 1, 1] @ replicate 12 0 \<and>
    ce_destination e6 = subrange 8 16 sample_context \<and>
    ce_destination_port e4 = word_be [1, 187] \<and> ce_destination_port e6 = word_be [1, 187]"
  using connect_reads_context_bytes [of sample_context sample_env "replicate 80 0" sample_kstate]
  sample_context_protocol
  by (simp add: sample_env_reserve sample_context_words del: insert_iff)

text \<open>
  A packet read through the declared headers: \<open>header_bits f t pkt off\<close> is a field or bit-field
  inside one byte of a header of type \<open>t\<close> at \<open>off\<close>, \<open>header_be16\<close> a 16-bit field in network order.
\<close>

definition header_bits :: "string \<Rightarrow> cty \<Rightarrow> u8 list \<Rightarrow> nat \<Rightarrow> nat" where
  "header_bits f t pkt base = (case find_field f t of
     Some (off, w) \<Rightarrow> unat (pkt ! (base + off div 8)) div 2 ^ (off mod 8) mod 2 ^ w
   | None \<Rightarrow> 0)"

definition header_be16 :: "string \<Rightarrow> cty \<Rightarrow> u8 list \<Rightarrow> nat \<Rightarrow> nat" where
  "header_be16 f t pkt base = (case byte_field f t of
     Some (off, n) \<Rightarrow> be16_at pkt (base + off) | None \<Rightarrow> 0)"

definition header_udp :: "u8 list \<Rightarrow> nat \<Rightarrow> nat \<Rightarrow> verdict" where
  "header_udp pkt af off =
     (if length pkt < off + size_of struct_udphdr then Bump CNT_BAD_UDP
      else if header_be16 ''source'' struct_udphdr pkt off \<noteq> 53 \<and>
              header_be16 ''dest'' struct_udphdr pkt off \<noteq> 53 then Pass
      else let ulen = header_be16 ''len'' struct_udphdr pkt off in
        if ulen < size_of struct_udphdr then Bump CNT_BAD_UDP
        else if ulen < size_of struct_udphdr + DNS_MIN_LEN then Bump CNT_DNS_SHORT
        else Deliver af off (ulen - size_of struct_udphdr))"

definition header_tcp :: "u8 list \<Rightarrow> nat \<Rightarrow> verdict" where
  "header_tcp pkt off =
     (if off + 4 \<le> length pkt \<and> (header_be16 ''source'' struct_tcphdr pkt off = 53 \<or>
        header_be16 ''dest'' struct_tcphdr pkt off = 53) then Bump CNT_DNS_TCP_SEEN else Pass)"

definition header_verdict :: "u8 list \<Rightarrow> verdict" where
  "header_verdict pkt =
     (if pkt = [] then Bump CNT_BAD_L3
      else if header_bits ''version'' struct_iphdr pkt 0 = 4 then
        (let ihl = 4 * header_bits ''ihl'' struct_iphdr pkt 0 in
         if length pkt < size_of struct_iphdr \<or> ihl < size_of struct_iphdr then Bump CNT_BAD_IPV4
         else if header_be16 ''frag_off'' struct_iphdr pkt 0 mod 2 ^ 14 \<noteq> 0 then Bump CNT_IPV4_FRAGMENT
         else if header_bits ''protocol'' struct_iphdr pkt 0 = IPPROTO_TCP then header_tcp pkt ihl
         else if header_bits ''protocol'' struct_iphdr pkt 0 = IPPROTO_UDP then header_udp pkt AF_INET ihl
         else Pass)
      else if header_bits ''version'' struct_ipv6hdr pkt 0 = 6 then
        (if length pkt < size_of struct_ipv6hdr then Bump CNT_IPV6_EXT
         else if header_bits ''nexthdr'' struct_ipv6hdr pkt 0 = IPPROTO_TCP
         then header_tcp pkt (size_of struct_ipv6hdr)
         else if header_bits ''nexthdr'' struct_ipv6hdr pkt 0 = IPPROTO_UDP
         then header_udp pkt AF_INET6 (size_of struct_ipv6hdr)
         else Bump CNT_IPV6_EXT)
      else Bump CNT_BAD_L3)"

lemma header_field_bits:
  "find_field ''protocol'' struct_iphdr = Some (72, 8)"
  "find_field ''nexthdr'' struct_ipv6hdr = Some (48, 8)"
  "byte_field ''source'' struct_tcphdr = Some (0, 2)"
  "byte_field ''dest'' struct_tcphdr = Some (2, 2)"
  by (simp_all add: byte_field_def struct_iphdr_def struct_ipv6hdr_def struct_tcphdr_def layout_simps)

lemma header_udp_classify: "header_udp pkt af off = classify_udp pkt af off"
  by (simp add: header_udp_def classify_udp_def header_be16_def udphdr_field_at dns_port_def Let_def)

lemma header_tcp_classify: "header_tcp pkt off = classify_tcp pkt off"
  by (simp add: header_tcp_def classify_tcp_def header_be16_def header_field_bits dns_port_def)

lemma u8_high: "unat (b :: u8) div 16 mod 16 = unat b div 16"
  using unat_u8_less [of b] by (simp add: less_mult_imp_div_less)

lemma header_verdict_classify: "header_verdict pkt = classify pkt"
  by (simp add: header_verdict_def classify_def classify_ipv4_def classify_ipv6_def header_bits_def
      header_be16_def iphdr_field_at ipv6hdr_field_at header_field_bits header_udp_classify
      header_tcp_classify high_nibble_def low_nibble_def Let_def u8_high
      order_less_imp_not_less mod_less)

text \<open>
  C12. The packet programs use literal offsets; what they do is what the classification says that
  reads version, header length, fragment field, protocol, next header, ports and length as the
  fields of the declared iphdr, ipv6hdr and udphdr.
\<close>

theorem dns_packet_reads_header_fields:
  assumes "loads_from pkt load" and "helpers_ok env"
  shows "dns_packet load env ifindex direction s =
    obey env ifindex direction pkt (header_verdict pkt) s"
  unfolding header_verdict_classify by (rule dns_packet_refines_classify [OF assms])

theorem dns_packet_reads_header_fields_witness:
  "dns_packet (packet_loader sample_packet) sample_env 3 1 sample_kstate =
     obey sample_env 3 1 sample_packet (header_verdict sample_packet) sample_kstate"
  by (rule dns_packet_reads_header_fields [OF loads_from_packet_loader sample_env_ok])


end
