(* ===== verification/NetmonStartup.thy ===== *)
theory NetmonStartup
  imports NetmonApp
begin

text \<open>
  Startup and shutdown in src/src/netmon-go/cmd/netmon/main.go: the checks of \<open>run\<close>, the search
  for the cgroup directory, attaching with rollback, the deferred releases and the exit code.
  What the system calls and the loader answer is the record \<open>world\<close>; what the program does to
  the system is a trace of effects, oldest first.
\<close>

section \<open>Finding the cgroup\<close>

text \<open>
  A directory tree as \<open>filepath.WalkDir\<close> presents it, children in its order; a directory that
  cannot be read has none. \<open>fs_info\<close> is \<open>None\<close> where \<open>d.Info()\<close> fails, else the inode, if the
  platform data is a \<open>Stat_t\<close>.
\<close>

datatype fs = Fs (fs_name: string) (fs_dir: bool) (fs_info: "u64 option option") (fs_children: "fs list")

text \<open>The walk, stopped (\<open>SkipAll\<close>) by the first directory with the wanted inode.\<close>

fun walk :: "string \<Rightarrow> u64 \<Rightarrow> fs \<Rightarrow> string option"
  and walks :: "string \<Rightarrow> u64 \<Rightarrow> fs list \<Rightarrow> string option" where
  "walk path cid (Fs name dir info children) =
     (if \<not> dir then None
      else if info = Some (Some cid) then Some path
      else walks path cid children)"
| "walks path cid [] = None"
| "walks path cid (f # fs) =
     (case walk (path @ ''/'' @ fs_name f) cid f of Some p \<Rightarrow> Some p | None \<Rightarrow> walks path cid fs)"

definition cgroupRoot :: string where "cgroupRoot = ''/sys/fs/cgroup''"

text \<open>\<open>None\<close> is the error \<open>os.ErrNotExist\<close>; the root itself may be missing.\<close>

definition cgroupPathFromID :: "fs option \<Rightarrow> u64 \<Rightarrow> string option" where
  "cgroupPathFromID root cid = (case root of None \<Rightarrow> None | Some f \<Rightarrow> walk cgroupRoot cid f)"

text \<open>\<open>stat\<close> is what \<open>os.Stat\<close> says of a path: whether it is a directory, and its inode.\<close>

definition verifyCgroupIdentity :: "(string \<Rightarrow> (bool \<times> u64 option) option) \<Rightarrow> string \<Rightarrow> u64 \<Rightarrow> bool" where
  "verifyCgroupIdentity stat path cid = (case stat path of
     None \<Rightarrow> False
   | Some (dir, ino) \<Rightarrow> dir \<and> ino = Some cid)"

text \<open>The paths of the directories of a tree, with their inodes, in the order of the walk.\<close>

fun dirs :: "string \<Rightarrow> fs \<Rightarrow> (string \<times> u64 option option) list"
  and dirs_in :: "string \<Rightarrow> fs list \<Rightarrow> (string \<times> u64 option option) list" where
  "dirs path (Fs name dir info children) = (if dir then (path, info) # dirs_in path children else [])"
| "dirs_in path [] = []"
| "dirs_in path (f # fs) = dirs (path @ ''/'' @ fs_name f) f @ dirs_in path fs"

lemma map_of_find:
  "map_option fst (find (\<lambda>d. snd d = Some (Some cid)) (xs @ ys)) =
     (case map_option fst (find (\<lambda>d. snd d = Some (Some cid)) xs) of
        Some p \<Rightarrow> Some p | None \<Rightarrow> map_option fst (find (\<lambda>d. snd d = Some (Some cid)) ys))"
  by (induction xs) auto

lemma walk_find:
  "walk path cid f = map_option fst (find (\<lambda>d. snd d = Some (Some cid)) (dirs path f))"
  "walks path cid fs = map_option fst (find (\<lambda>d. snd d = Some (Some cid)) (dirs_in path fs))"
  by (induction path cid f and path cid fs rule: walk_walks.induct)
    (auto simp: map_of_find split: option.split)

lemma find_SomeD:
  "find P xs = Some x \<Longrightarrow> \<exists>before after. xs = before @ x # after \<and> P x \<and> (\<forall>y\<in>set before. \<not> P y)"
proof (induction xs)
  case (Cons y ys)
  show ?case
  proof (cases "P y")
    case True
    then show ?thesis using Cons.prems by (intro exI [of _ "[]"] exI [of _ ys]) simp
  next
    case False
    with Cons obtain before after where "ys = before @ x # after \<and> P x \<and> (\<forall>y\<in>set before. \<not> P y)" by auto
    with False show ?thesis by (intro exI [of _ "y # before"] exI [of _ after]) simp
  qed
qed simp

section \<open>Attaching\<close>

datatype effect =
    Announce string u64
  | LoadObjects | CloseObjects
  | Attached string | AttachFailed string | CloseLink string
  | OpenReader | CloseReader
  | AnnounceAttached bool
  | NotifySignals | StopSignals
  | Poll | PrintCounters

datatype run_error = UsageError string | RunError string

definition program_names :: "bool \<Rightarrow> string list" where
  "program_names noDNS =
     (let programs = [''connect4'', ''connect6'', ''sendmsg4'', ''sendmsg6'',
        ''cgroup_skb_ingress'', ''cgroup_skb_egress'']
      in if noDNS then take 4 programs else programs)"

definition closeLinks :: "string list \<Rightarrow> effect list" where
  "closeLinks links = map CloseLink links"

fun attach_loop :: "(string \<Rightarrow> bool) \<Rightarrow> string list \<Rightarrow> string list \<Rightarrow> effect list \<times> (run_error + string list)"
where
  "attach_loop ok [] links = ([], Inr links)"
| "attach_loop ok (name # names) links =
     (if \<not> ok name
      then (AttachFailed name # closeLinks links, Inl (RunError (''cgroup attach failed for '' @ name)))
      else let (trace, r) = attach_loop ok names (links @ [name]) in (Attached name # trace, r))"

definition attachPrograms :: "(string \<Rightarrow> bool) \<Rightarrow> bool \<Rightarrow> effect list \<times> (run_error + string list)" where
  "attachPrograms ok noDNS = attach_loop ok (program_names noDNS) []"

section \<open>The whole run\<close>

text \<open>
  \<open>w_flags\<close> is what \<open>flags.Parse\<close> leaves: an error, or the values of \<open>--cgroup-id\<close>, \<open>--no-dns\<close> and
  \<open>--dns-cache-max\<close>. \<open>w_memlock\<close> is the error of \<open>RemoveMemlock\<close>, if any, and whether it is EPERM.
\<close>

record world =
  w_flags :: "string + u64 \<times> bool \<times> u64"
  w_cgroup2 :: bool
  w_root :: "fs option"
  w_stat :: "string \<Rightarrow> (bool \<times> u64 option) option"
  w_open :: "string \<Rightarrow> bool"
  w_memlock :: "bool option"
  w_load :: bool
  w_attach :: "string \<Rightarrow> bool"
  w_reader :: bool
  w_poll :: "poll_error option"

fun poll_message :: "poll_error \<Rightarrow> string" where
  "poll_message (PollFailed e) = ''ring buffer poll: '' @ e"
| "poll_message CgroupGone = ''cgroup disappeared or changed identity''"

text \<open>From the successful load on: every return runs the deferred releases, last one first.\<close>

definition run_loaded :: "world \<Rightarrow> bool \<Rightarrow> effect list \<times> run_error option" where
  "run_loaded w noDNS =
     (case attachPrograms (w_attach w) noDNS of
        (trace, Inl e) \<Rightarrow> (trace @ [CloseObjects], Some e)
      | (trace, Inr links) \<Rightarrow>
          if \<not> w_reader w
          then (trace @ closeLinks links @ [CloseObjects],
                Some (RunError ''failed to create ring buffer''))
          else (trace @ [OpenReader, AnnounceAttached noDNS, NotifySignals, Poll, PrintCounters,
                  StopSignals, CloseReader] @ closeLinks links @ [CloseObjects],
                map_option (\<lambda>e. RunError (poll_message e)) (w_poll w)))"

definition run :: "world \<Rightarrow> effect list \<times> run_error option" where
  "run w =
     (case w_flags w of
        Inl e \<Rightarrow> ([], Some (UsageError e))
      | Inr (cgroupID, noDNS, cacheMax) \<Rightarrow>
        if cgroupID = 0 then ([], Some (UsageError ''--cgroup-id is required''))
        else if cacheMax = 0 \<or> cacheMax > 1000000
        then ([], Some (UsageError (''invalid DNS cache size: '' @ show_nat (unat cacheMax))))
        else if \<not> w_cgroup2 w
        then ([], Some (RunError ''cgroup v2 is not mounted at /sys/fs/cgroup''))
        else case cgroupPathFromID (w_root w) cgroupID of
          None \<Rightarrow> ([], Some (RunError (''cannot find cgroup v2 directory with ID '' @ show_nat (unat cgroupID))))
        | Some path \<Rightarrow>
          if \<not> verifyCgroupIdentity (w_stat w) path cgroupID
          then ([], Some (RunError ''resolved cgroup identity changed''))
          else if \<not> w_open w path then ([], Some (RunError ''open cgroup''))
          else
            let announce = [Announce path cgroupID] in
            if w_memlock w = Some False
            then (announce, Some (RunError ''setrlimit(RLIMIT_MEMLOCK)''))
            else if \<not> w_load w
            then (announce, Some (RunError ''failed to open/load BPF object''))
            else let (trace, r) = run_loaded w noDNS in (announce @ LoadObjects # trace, r))"

definition exitCode :: "run_error option \<Rightarrow> nat" where
  "exitCode r = (case r of None \<Rightarrow> 0 | Some (UsageError _) \<Rightarrow> 2 | Some (RunError _) \<Rightarrow> 1)"

text \<open>
  \<open>wallTime\<close>: the event's wall clock in nanoseconds; the difference of the monotonic times is
  taken in \<open>int64\<close>.
\<close>

definition wallTime :: "int \<Rightarrow> u64 \<Rightarrow> u64 \<Rightarrow> int" where
  "wallTime real monoNS eventNS = real + sint (eventNS - monoNS)"

section \<open>What is held at each moment\<close>

text \<open>The links that are open after a trace, and whether the objects and the reader are.\<close>

fun held :: "effect list \<Rightarrow> string list \<Rightarrow> string list" where
  "held [] links = links"
| "held (Attached p # es) links = held es (links @ [p])"
| "held (CloseLink p # es) links = held es (remove1 p links)"
| "held (_ # es) links = held es links"

lemma held_append [simp]: "held (es @ es') links = held es' (held es links)"
  by (induction es links rule: held.induct) simp_all

lemma held_closeLinks: "held (closeLinks ps) (ps @ qs) = qs"
  by (induction ps) (simp_all add: closeLinks_def)

lemma held_closeLinks_all [simp]: "held (closeLinks ps) ps = []"
  using held_closeLinks [of ps "[]"] by simp

lemma attach_loop_held:
  "held (fst (attach_loop ok names links)) links =
     (case snd (attach_loop ok names links) of Inl e \<Rightarrow> [] | Inr ls \<Rightarrow> ls)"
  by (induction ok names links rule: attach_loop.induct) (auto split: prod.split)

lemma attach_loop_result:
  "snd (attach_loop ok names links) =
     (case find (\<lambda>p. \<not> ok p) names of
        None \<Rightarrow> Inr (links @ names)
      | Some p \<Rightarrow> Inl (RunError (''cgroup attach failed for '' @ p)))"
  by (induction ok names links rule: attach_loop.induct) (auto split: prod.split option.split)

text \<open>Objects and reader: opened minus closed.\<close>

definition balance :: "effect \<Rightarrow> effect \<Rightarrow> effect list \<Rightarrow> int" where
  "balance opened closed es = int (count_list es opened) - int (count_list es closed)"

lemma count_closeLinks [simp]:
  "(\<And>p. e \<noteq> CloseLink p) \<Longrightarrow> count_list (closeLinks ps) e = 0"
  unfolding closeLinks_def by (induction ps) auto

lemma count_attach_loop [simp]:
  "(\<And>p. e \<noteq> CloseLink p) \<Longrightarrow> (\<And>p. e \<noteq> Attached p) \<Longrightarrow> (\<And>p. e \<noteq> AttachFailed p) \<Longrightarrow>
     count_list (fst (attach_loop ok names links)) e = 0"
  by (induction ok names links rule: attach_loop.induct) (auto split: prod.split)

text \<open>A trace in which nothing but attaching and detaching happens.\<close>

definition links_only :: "effect list \<Rightarrow> bool" where
  "links_only es \<longleftrightarrow> (\<forall>e. (\<forall>p. e \<noteq> CloseLink p \<and> e \<noteq> Attached p \<and> e \<noteq> AttachFailed p) \<longrightarrow> count_list es e = 0)"

lemma links_only_attach [simp]: "links_only (fst (attach_loop ok names links))"
  by (simp add: links_only_def)

lemma links_onlyD [simp]:
  "links_only es \<Longrightarrow> (\<And>p. e \<noteq> CloseLink p \<and> e \<noteq> Attached p \<and> e \<noteq> AttachFailed p) \<Longrightarrow> count_list es e = 0"
  by (simp add: links_only_def)

lemma links_only_Poll [simp]: "links_only es \<Longrightarrow> Poll \<notin> set es" "Poll \<notin> set (closeLinks ps)"
  by (simp_all flip: count_list_0_iff)

text \<open>What the arguments must satisfy.\<close>

definition args_ok :: "world \<Rightarrow> bool" where
  "args_ok w \<longleftrightarrow> (\<exists>cid noDNS cap. w_flags w = Inr (cid, noDNS, cap) \<and> cid \<noteq> 0 \<and> 0 < cap \<and> cap \<le> 1000000)"

text \<open>The ways through \<open>run\<close>, before the load and after it.\<close>

lemma run_cases:
  obtains (usage) e where "\<not> args_ok w" and "run w = ([], Some (UsageError e))"
  | (early) t e where "args_ok w" and "run w = (t, Some (RunError e))" and "t = [] \<or> (\<exists>p c. t = [Announce p c])"
  | (loaded) cid noDNS cap path where "args_ok w" and "w_flags w = Inr (cid, noDNS, cap)"
      and "cgroupPathFromID (w_root w) cid = Some path" and "verifyCgroupIdentity (w_stat w) path cid"
      and "run w = (Announce path cid # LoadObjects # fst (run_loaded w noDNS), snd (run_loaded w noDNS))"
proof (cases "w_flags w")
  case (Inl e)
  then show ?thesis by (intro usage) (simp_all add: run_def args_ok_def)
next
  case (Inr f)
  obtain cid noDNS cap where fl: "w_flags w = Inr (cid, noDNS, cap)" using Inr by (cases f) auto
  have ok: "args_ok w \<longleftrightarrow> cid \<noteq> 0 \<and> cap \<noteq> 0 \<and> \<not> cap > 1000000"
    by (auto simp: args_ok_def fl word_neq_0_conv)
  show ?thesis
  proof (cases "args_ok w")
    case False
    then show ?thesis using fl by (cases "cid = 0") (auto simp: run_def ok intro: usage)
  next
    case True
    show ?thesis
    proof (cases "w_cgroup2 w")
      case False
      then show ?thesis using True fl ok by (intro early [of "[]"]) (auto simp: run_def)
    next
      case c2: True
      show ?thesis
      proof (cases "cgroupPathFromID (w_root w) cid")
        case None
        then show ?thesis using True fl ok c2 by (intro early [of "[]"]) (auto simp: run_def)
      next
        case (Some path)
        then show ?thesis using True fl ok c2
          by (cases "verifyCgroupIdentity (w_stat w) path cid"; cases "w_open w path";
              cases "w_memlock w = Some False"; cases "w_load w")
            (auto simp: run_def Let_def split: prod.split intro: early loaded)
      qed
    qed
  qed
qed

lemma run_loaded_cases:
  obtains (attach) t e where "run_loaded w noDNS = (t @ [CloseObjects], Some (RunError e))"
      and "held t [] = []" and "links_only t"
  | (reader) t e where "run_loaded w noDNS = (t @ closeLinks (program_names noDNS) @ [CloseObjects],
        Some (RunError e))" and "held t [] = program_names noDNS" and "links_only t"
  | (polled) t where "run_loaded w noDNS = (t @ [OpenReader, AnnounceAttached noDNS, NotifySignals, Poll,
        PrintCounters, StopSignals, CloseReader] @ closeLinks (program_names noDNS) @ [CloseObjects],
        map_option (\<lambda>e. RunError (poll_message e)) (w_poll w))"
      and "held t [] = program_names noDNS" and "links_only t"
proof -
  let ?a = "attach_loop (w_attach w) (program_names noDNS) []"
  have t: "links_only (fst ?a)" by simp
  have h: "held (fst ?a) [] = (case snd ?a of Inl e \<Rightarrow> [] | Inr ls \<Rightarrow> ls)"
    by (rule attach_loop_held)
  show thesis
  proof (cases "find (\<lambda>p. \<not> w_attach w p) (program_names noDNS)")
    case None
    then have "snd ?a = Inr (program_names noDNS)" by (simp add: attach_loop_result)
    then obtain t where a: "?a = (t, Inr (program_names noDNS))" by (metis prod.collapse)
    with h t have "held t [] = program_names noDNS" and "links_only t" by simp_all
    with a show ?thesis
      by (cases "w_reader w") (rule polled reader; simp add: run_loaded_def attachPrograms_def)+
  next
    case (Some p)
    then have "snd ?a = Inl (RunError (''cgroup attach failed for '' @ p))" by (simp add: attach_loop_result)
    then obtain t where a: "?a = (t, Inl (RunError (''cgroup attach failed for '' @ p)))" by (metis prod.collapse)
    with h t have "held t [] = []" and "links_only t" by simp_all
    with a show ?thesis by (intro attach) (simp_all add: run_loaded_def attachPrograms_def)
  qed
qed

lemma run_loaded_held: "held (fst (run_loaded w noDNS)) [] = []"
  by (cases rule: run_loaded_cases [of w noDNS]) simp_all

lemma run_held: "held (fst (run w)) [] = []"
  by (cases rule: run_cases [of w]) (auto simp: run_loaded_held)

lemma run_released:
  "held (fst (run w)) [] = [] \<and> balance LoadObjects CloseObjects (fst (run w)) = 0 \<and>
   balance OpenReader CloseReader (fst (run w)) = 0 \<and> balance NotifySignals StopSignals (fst (run w)) = 0"
proof -
  have after_load: "balance LoadObjects CloseObjects (fst (run_loaded w noDNS)) = -1 \<and>
      balance OpenReader CloseReader (fst (run_loaded w noDNS)) = 0 \<and>
      balance NotifySignals StopSignals (fst (run_loaded w noDNS)) = 0" for noDNS
    by (cases rule: run_loaded_cases [of w noDNS]) (simp_all add: balance_def)
  show ?thesis
  proof (cases rule: run_cases [of w])
    case (loaded cid noDNS cap path)
    then show ?thesis using after_load [of noDNS] run_held [of w] by (simp add: balance_def)
  qed (auto simp: balance_def)
qed

lemma split_at_unique:
  "xs @ x # ys = xs' @ x # ys' \<Longrightarrow> x \<notin> set xs' \<Longrightarrow> x \<notin> set ys' \<Longrightarrow> xs = xs' \<and> ys = ys'"
  by (induction xs arbitrary: xs') (auto simp: Cons_eq_append_conv append_eq_Cons_conv)

section \<open>Properties\<close>

text \<open>A system on which the sixth program cannot be attached, and one where all goes well.\<close>

definition sample_fs :: fs where
  "sample_fs = Fs ''cgroup'' True (Some (Some 1)) [
     Fs ''cgroup.procs'' False (Some (Some 7)) [],
     Fs ''user.slice'' True None [Fs ''agent.scope'' True (Some (Some 7)) []]]"

definition sample_world :: world where
  "sample_world = \<lparr>w_flags = Inr (7, False, 4096), w_cgroup2 = True, w_root = Some sample_fs,
     w_stat = (\<lambda>p. Some (True, Some 7)), w_open = (\<lambda>p. True), w_memlock = Some True, w_load = True,
     w_attach = (\<lambda>p. p \<noteq> ''cgroup_skb_egress''), w_reader = True, w_poll = None\<rparr>"

lemma sample_path: "cgroupPathFromID (Some sample_fs) 7 = Some ''/sys/fs/cgroup/user.slice/agent.scope''"
  by (simp add: cgroupPathFromID_def sample_fs_def cgroupRoot_def)

text \<open>
  The exit code is 2 exactly for unusable arguments, and then nothing has been touched; it is 0
  exactly if the poll loop ran and ended without an error.
\<close>

theorem exit_codes:
  "(exitCode (snd (run w)) = 2 \<longleftrightarrow> \<not> args_ok w) \<and> (\<not> args_ok w \<longrightarrow> fst (run w) = []) \<and>
   (exitCode (snd (run w)) = 0 \<longleftrightarrow> Poll \<in> set (fst (run w)) \<and> w_poll w = None)"
proof -
  have after_load: "exitCode (snd (run_loaded w noDNS)) \<noteq> 2 \<and>
      (exitCode (snd (run_loaded w noDNS)) = 0 \<longleftrightarrow> Poll \<in> set (fst (run_loaded w noDNS)) \<and> w_poll w = None)" for noDNS
    by (cases rule: run_loaded_cases [of w noDNS]) (auto simp: exitCode_def split: option.split)
  show ?thesis
  proof (cases rule: run_cases [of w])
    case (loaded cid noDNS cap path)
    then show ?thesis using after_load [of noDNS] by simp
  qed (auto simp: exitCode_def)
qed

theorem exit_codes_witness: "exitCode (snd (run (sample_world\<lparr>w_flags := Inr (7, False, 0)\<rparr>))) = 2"
proof -
  have "\<not> args_ok (sample_world\<lparr>w_flags := Inr (7, False, 0)\<rparr>)" by (simp add: args_ok_def)
  with exit_codes [of "sample_world\<lparr>w_flags := Inr (7, False, 0)\<rparr>"] show ?thesis by blast
qed

text \<open>
  C22. However startup, the poll loop and shutdown go, run returns holding nothing: every attached
  program is detached, objects and reader are closed as often as opened, also when attaching fails
  half-way.
\<close>

theorem run_releases_everything:
  "held (fst (run w)) [] = [] \<and> balance LoadObjects CloseObjects (fst (run w)) = 0 \<and>
   balance OpenReader CloseReader (fst (run w)) = 0 \<and> balance NotifySignals StopSignals (fst (run w)) = 0"
  by (rule run_released)

text \<open>
  C23. The poll loop runs at most once and only with valid arguments on a verified directory with
  the wanted inode; at that moment exactly connect4, connect6, sendmsg4 and sendmsg6, and unless
  DNS is off the ingress and the egress program, are attached, in this order, and objects, reader
  and signal handler are open.
\<close>

theorem polling_has_programs_attached:
  assumes "fst (run w) = before @ Poll # after"
  shows "Poll \<notin> set before \<and> Poll \<notin> set after \<and> args_ok w \<and>
    (\<exists>cid noDNS cap path. w_flags w = Inr (cid, noDNS, cap) \<and>
       held before [] = [''connect4'', ''connect6'', ''sendmsg4'', ''sendmsg6''] @
         (if noDNS then [] else [''cgroup_skb_ingress'', ''cgroup_skb_egress'']) \<and>
       balance LoadObjects CloseObjects before = 1 \<and> balance OpenReader CloseReader before = 1 \<and>
       balance NotifySignals StopSignals before = 1 \<and>
       cgroupPathFromID (w_root w) cid = Some path \<and> verifyCgroupIdentity (w_stat w) path cid)"
proof -
  have p: "Poll \<in> set (fst (run w))" by (simp add: assms)
  show ?thesis
  proof (cases rule: run_cases [of w])
    case (loaded cid noDNS cap path)
    let ?pre = "\<lambda>t. Announce path cid # LoadObjects # t @ [OpenReader, AnnounceAttached noDNS, NotifySignals]"
    let ?post = "[PrintCounters, StopSignals, CloseReader] @ closeLinks (program_names noDNS) @ [CloseObjects]"
    obtain t where t: "links_only t" "held t [] = program_names noDNS"
      and r: "fst (run w) = ?pre t @ Poll # ?post"
      using p by (cases rule: run_loaded_cases [of w noDNS]) (simp_all add: loaded)
    have "before = ?pre t \<and> after = ?post"
      using assms r t(1) by (intro split_at_unique [where x = Poll]) simp_all
    with loaded t show ?thesis by (auto simp: program_names_def balance_def)
  qed (use p in auto)
qed

theorem polling_has_programs_attached_witness:
  "\<exists>before after. fst (run (sample_world\<lparr>w_flags := Inr (7, True, 4096)\<rparr>)) = before @ Poll # after \<and>
     held before [] = [''connect4'', ''connect6'', ''sendmsg4'', ''sendmsg6''] \<and> Poll \<notin> set after"
proof -
  let ?w = "sample_world\<lparr>w_flags := Inr (7, True, 4096)\<rparr>"
  have "Poll \<in> set (fst (run ?w))"
    by (simp add: run_def sample_world_def sample_path verifyCgroupIdentity_def run_loaded_def
        attachPrograms_def program_names_def Let_def)
  then obtain before after where s: "fst (run ?w) = before @ Poll # after" by (meson split_list)
  from polling_has_programs_attached [OF s] have "held before [] = [''connect4'', ''connect6'', ''sendmsg4'', ''sendmsg6'']"
    and "Poll \<notin> set after" by (auto simp: sample_world_def)
  with s show ?thesis by blast
qed

text \<open>
  C24. The search returns a path exactly if some directory reachable through directories has the
  wanted inode; the path is that of the first such directory in walk order, and plain files never
  match.
\<close>

theorem cgroup_search_correct:
  "(\<forall>path. cgroupPathFromID (Some root) cid = Some path \<longrightarrow>
      (\<exists>before after. dirs cgroupRoot root = before @ (path, Some (Some cid)) # after \<and>
         Some (Some cid) \<notin> snd ` set before)) \<and>
   (cgroupPathFromID (Some root) cid = None \<longleftrightarrow> Some (Some cid) \<notin> snd ` set (dirs cgroupRoot root)) \<and>
   cgroupPathFromID None cid = None"
proof (intro conjI allI impI)
  fix path assume "cgroupPathFromID (Some root) cid = Some path"
  then obtain i where "find (\<lambda>d. snd d = Some (Some cid)) (dirs cgroupRoot root) = Some (path, i)"
    by (auto simp: cgroupPathFromID_def walk_find)
  from find_SomeD [OF this] show "\<exists>before after. dirs cgroupRoot root = before @ (path, Some (Some cid)) # after \<and>
      Some (Some cid) \<notin> snd ` set before" by force
next
  show "cgroupPathFromID (Some root) cid = None \<longleftrightarrow> Some (Some cid) \<notin> snd ` set (dirs cgroupRoot root)"
    by (force simp: cgroupPathFromID_def walk_find find_None_iff)
  show "cgroupPathFromID None cid = None" by (simp add: cgroupPathFromID_def)
qed

theorem cgroup_search_correct_witness:
  "\<exists>before after. dirs cgroupRoot sample_fs =
     before @ (''/sys/fs/cgroup/user.slice/agent.scope'', Some (Some 7)) # after"
  using cgroup_search_correct [of sample_fs 7] sample_path by blast

end
