(* ===== verification/NetmonPoll.thy ===== *)
theory NetmonPoll
  imports NetmonSystem NetmonStartup
begin

text \<open>
  The poll loop of src/src/netmon-go/cmd/netmon/main.go as a whole: \<open>poll\<close> runs iterations until
  one of them leaves the loop, which may never happen, so it is a partial function; \<open>netmon\<close> is the
  program from its arguments to its exit. What the surroundings answer in each iteration is a
  \<open>turn\<close>. The loop is related to the step relation of NetmonSystem.
\<close>

section \<open>The loop\<close>

text \<open>
  One iteration's answers: whether a signal is pending, what the reader returns, the monotonic
  clock afterwards, and what \<open>verifyCgroupIdentity\<close> would say.
\<close>

record turn =
  tn_signal :: bool
  tn_read :: read_result
  tn_now :: u64
  tn_verify :: bool

definition take_turn ::
  "unpacker \<Rightarrow> (string \<Rightarrow> string \<Rightarrow> bool) \<Rightarrow> turn \<Rightarrow> app \<Rightarrow> u64 \<Rightarrow>
     (poll_error option \<times> app \<times> connect_line option) + (app \<times> u64 \<times> connect_line option)" where
  "take_turn unpack uf t app lastMaintenance =
     poll_iteration unpack uf app lastMaintenance (tn_signal t) (tn_read t) (tn_now t) (tn_verify t)"

partial_function (option) poll_loop ::
  "unpacker \<Rightarrow> (string \<Rightarrow> string \<Rightarrow> bool) \<Rightarrow> (nat \<Rightarrow> turn) \<Rightarrow> nat \<Rightarrow> app \<Rightarrow> u64 \<Rightarrow> connect_line list \<Rightarrow>
     (poll_error option \<times> app \<times> connect_line list) option" where
  "poll_loop unpack uf env i app lastMaintenance printed =
     (case take_turn unpack uf (env i) app lastMaintenance of
        Inl r \<Rightarrow> Some (fst r, fst (snd r), printed @ emitted (snd (snd r)))
      | Inr r \<Rightarrow> poll_loop unpack uf env (Suc i) (fst r) (fst (snd r)) (printed @ emitted (snd (snd r))))"

definition poll ::
  "unpacker \<Rightarrow> (string \<Rightarrow> string \<Rightarrow> bool) \<Rightarrow> (nat \<Rightarrow> turn) \<Rightarrow> u64 \<Rightarrow> app \<Rightarrow>
     (poll_error option \<times> app \<times> connect_line list) option" where
  "poll unpack uf env start app = poll_loop unpack uf env 0 app start []"

section \<open>The loop turn by turn\<close>

text \<open>The variables before turn \<open>n\<close>, if the loop gets that far.\<close>

fun poll_upto ::
  "unpacker \<Rightarrow> (string \<Rightarrow> string \<Rightarrow> bool) \<Rightarrow> (nat \<Rightarrow> turn) \<Rightarrow> u64 \<Rightarrow> app \<Rightarrow> nat \<Rightarrow>
     (app \<times> u64 \<times> connect_line list) option" where
  "poll_upto unpack uf env start app 0 = Some (app, start, [])"
| "poll_upto unpack uf env start app (Suc n) =
     (case poll_upto unpack uf env start app n of
        None \<Rightarrow> None
      | Some (a, l, printed) \<Rightarrow>
          (case take_turn unpack uf (env n) a l of
             Inl _ \<Rightarrow> None
           | Inr (a', l', out) \<Rightarrow> Some (a', l', printed @ emitted out)))"

text \<open>\<open>lastMaintenance\<close> before turn \<open>n\<close>; it depends on the clock alone.\<close>

fun last_at :: "(nat \<Rightarrow> turn) \<Rightarrow> u64 \<Rightarrow> nat \<Rightarrow> u64" where
  "last_at env start 0 = start"
| "last_at env start (Suc n) =
     (if tn_now (env n) - last_at env start n < 30000000000 then last_at env start n else tn_now (env n))"

text \<open>The turns that leave the loop, and with what.\<close>

definition stops :: "(nat \<Rightarrow> turn) \<Rightarrow> u64 \<Rightarrow> nat \<Rightarrow> bool" where
  "stops env start n \<longleftrightarrow> tn_signal (env n) \<or> (\<exists>m. tn_read (env n) = ReadFailed m) \<or>
     30000000000 \<le> tn_now (env n) - last_at env start n \<and> \<not> tn_verify (env n)"

definition stop_result :: "turn \<Rightarrow> poll_error option" where
  "stop_result t = (if tn_signal t then None
     else case tn_read t of ReadFailed m \<Rightarrow> Some (PollFailed m) | _ \<Rightarrow> Some CgroupGone)"

lemma turn_stops:
  "(\<exists>z. take_turn unpack uf (env n) a (last_at env start n) = Inl z) \<longleftrightarrow> stops env start n"
  unfolding take_turn_def stops_def by (rule poll_stops)

lemma turn_result:
  "take_turn unpack uf t a l = Inl (e, a', out) \<Longrightarrow> e = stop_result t"
  by (cases "tn_read t")
    (auto simp: take_turn_def poll_iteration_def stop_result_def Let_def split: if_splits prod.splits)

lemma turn_last:
  "take_turn unpack uf t a l = Inr (a', l', out) \<Longrightarrow> l' = (if tn_now t - l < 30000000000 then l else tn_now t)"
  unfolding take_turn_def by (drule poll_inr) simp

lemma upto_last: "poll_upto unpack uf env start app n = Some (a, l, printed) \<Longrightarrow> l = last_at env start n"
  by (induction n arbitrary: a l printed)
    (auto split: option.splits sum.splits prod.splits dest!: turn_last)

lemma upto_Some:
  "(\<exists>r. poll_upto unpack uf env start app n = Some r) \<longleftrightarrow> (\<forall>m<n. \<not> stops env start m)"
proof (induction n)
  case (Suc n)
  show ?case
  proof (cases "poll_upto unpack uf env start app n")
    case None
    with Suc show ?thesis by (auto simp: less_Suc_eq)
  next
    case (Some r)
    then obtain a l p where r: "poll_upto unpack uf env start app n = Some (a, l, p)" by (cases r) auto
    with Suc have before: "\<forall>m<n. \<not> stops env start m" by blast
    note l = upto_last [OF r]
    show ?thesis
    proof (cases "take_turn unpack uf (env n) a l")
      case (Inl z)
      then have "stops env start n" using turn_stops [of unpack uf env n a start] l by blast
      then show ?thesis using Inl by (auto simp: r)
    next
      case (Inr z)
      then have "\<not> stops env start n" using turn_stops [of unpack uf env n a start] l by auto
      then show ?thesis using Inr before by (auto simp: r less_Suc_eq split: prod.split)
    qed
  qed
qed simp

lemma loop_from:
  assumes "poll_upto unpack uf env start app n = Some (a, l, printed)"
  shows "poll unpack uf env start app = poll_loop unpack uf env n a l printed"
  using assms
proof (induction n arbitrary: a l printed)
  case 0
  then show ?case by (simp add: poll_def)
next
  case (Suc n)
  then obtain a0 l0 p0 out where b: "poll_upto unpack uf env start app n = Some (a0, l0, p0)"
    and t: "take_turn unpack uf (env n) a0 l0 = Inr (a, l, out)" and p: "printed = p0 @ emitted out"
    by (auto split: option.splits sum.splits prod.splits)
  from Suc.IH [OF b] have "poll unpack uf env start app = poll_loop unpack uf env n a0 l0 p0" .
  also have "\<dots> = poll_loop unpack uf env (Suc n) a l printed"
    by (subst poll_loop.simps) (simp add: t p)
  finally show ?case .
qed

text \<open>The loop is left at its first stopping turn.\<close>

lemma poll_at_stop:
  assumes "stops env start n" and "\<forall>m<n. \<not> stops env start m"
  obtains a l printed a' out where "poll_upto unpack uf env start app n = Some (a, l, printed)"
    and "take_turn unpack uf (env n) a l = Inl (stop_result (env n), a', out)"
    and "poll unpack uf env start app = Some (stop_result (env n), a', printed @ emitted out)"
proof -
  obtain a l p where u: "poll_upto unpack uf env start app n = Some (a, l, p)"
    using assms(2) upto_Some [of unpack uf env start app n] by auto
  from upto_last [OF u] assms(1) turn_stops [of unpack uf env n a start]
  obtain e a' out where t: "take_turn unpack uf (env n) a l = Inl (e, a', out)" by (auto simp: split_paired_Ex)
  from turn_result [OF t] have e: "e = stop_result (env n)" .
  have "poll unpack uf env start app = Some (e, a', p @ emitted out)"
    unfolding loop_from [OF u] by (subst poll_loop.simps) (simp add: t)
  with u t e show thesis by (blast intro: that)
qed

text \<open>A loop no turn of which stops has no result.\<close>

lemma loop_result_stops:
  assumes "poll_loop unpack uf env i app l printed = Some r"
  shows "l = last_at env start i \<longrightarrow> (\<exists>n. stops env start n)"
proof (rule poll_loop.raw_induct [where P = "\<lambda>_ _ env i _ l _ _. l = last_at env start i \<longrightarrow> (\<exists>n. stops env start n)"])
  show "poll_loop unpack uf env i app l printed = Some r" by (rule assms)
next
  fix loop unpack uf i app l printed r and env :: "nat \<Rightarrow> turn"
  assume IH: "\<And>unpack uf env i app l printed r. loop unpack uf env i app l printed = Some r \<Longrightarrow>
      l = last_at env start i \<longrightarrow> (\<exists>n. stops env start n)"
    and step: "(case take_turn unpack uf (env i) app l of
        Inl r \<Rightarrow> Some (fst r, fst (snd r), printed @ emitted (snd (snd r)))
      | Inr r \<Rightarrow> loop unpack uf env (Suc i) (fst r) (fst (snd r)) (printed @ emitted (snd (snd r)))) = Some r"
  show "l = last_at env start i \<longrightarrow> (\<exists>n. stops env start n)"
  proof
    assume l: "l = last_at env start i"
    show "\<exists>n. stops env start n"
    proof (cases "take_turn unpack uf (env i) app l")
      case (Inl z)
      then show ?thesis using turn_stops [of unpack uf env i app start] l by blast
    next
      case (Inr z)
      then obtain a' l' out where t: "take_turn unpack uf (env i) app l = Inr (a', l', out)" by (cases z) auto
      from turn_last [OF this] l have "l' = last_at env start (Suc i)" by simp
      moreover have "loop unpack uf env (Suc i) a' l' (printed @ emitted out) = Some r"
        using step by (simp add: t)
      ultimately show ?thesis using IH by blast
    qed
  qed
qed

lemma poll_ends: "(\<exists>r. poll unpack uf env start app = Some r) \<longleftrightarrow> (\<exists>n. stops env start n)"
proof
  assume "\<exists>r. poll unpack uf env start app = Some r"
  then show "\<exists>n. stops env start n" unfolding poll_def by (auto dest: loop_result_stops [where start = start])
next
  assume "\<exists>n. stops env start n"
  then have "stops env start (LEAST n. stops env start n)" and "\<forall>m<(LEAST n. stops env start n). \<not> stops env start m"
    by (auto intro: LeastI dest: not_less_Least)
  from poll_at_stop [OF this, of unpack uf app] show "\<exists>r. poll unpack uf env start app = Some r" by blast
qed

lemma first_stop:
  assumes "stops env start k"
  obtains n where "n \<le> k" and "stops env start n" and "\<forall>m<n. \<not> stops env start m"
  using assms exists_least_iff [of "stops env start"] by (metis linorder_not_le)

section \<open>The loop on the programs' ring\<close>

text \<open>
  \<open>ks n\<close> is what the eBPF programs have left in the kernel when turn \<open>n\<close> reads; between two turns
  they may have run any number of times. The reader hands out the records of the ring one by one.
\<close>

fun reads_done :: "(nat \<Rightarrow> turn) \<Rightarrow> nat \<Rightarrow> nat" where
  "reads_done env 0 = 0"
| "reads_done env (Suc n) =
     (case tn_read (env n) of ReadOk _ \<Rightarrow> Suc (reads_done env n) | _ \<Rightarrow> reads_done env n)"

definition kruns :: "kstate \<Rightarrow> kstate \<Rightarrow> bool" where
  "kruns = (\<lambda>k k'. \<exists>r. kstep k r k')\<^sup>*\<^sup>*"

definition reads_ring :: "(nat \<Rightarrow> kstate) \<Rightarrow> (nat \<Rightarrow> turn) \<Rightarrow> bool" where
  "reads_ring ks env \<longleftrightarrow>
     kruns \<lparr>ks_events = [], ks_counters = \<lambda>_ _. 0\<rparr> (ks 0) \<and> (\<forall>n. kruns (ks n) (ks (Suc n))) \<and>
     (\<forall>n m. tn_read (env n) = ReadOk m \<longrightarrow>
        reads_done env n < length (ks_events (ks n)) \<and> ks_events (ks n) ! reads_done env n = m)"

definition at_turn :: "(nat \<Rightarrow> kstate) \<Rightarrow> (nat \<Rightarrow> turn) \<Rightarrow> nat \<Rightarrow> app \<Rightarrow> u64 \<Rightarrow> connect_line list \<Rightarrow> system" where
  "at_turn ks env n a l printed = \<lparr>sy_kernel = ks n, sy_read = reads_done env n, sy_app = a, sy_last = l, sy_printed = printed\<rparr>"

lemma reachable_kruns:
  assumes "kruns k k'" and "reachable unpack uf cid noDNS (x\<lparr>sy_kernel := k\<rparr>)"
  shows "reachable unpack uf cid noDNS (x\<lparr>sy_kernel := k'\<rparr>)"
  using assms unfolding kruns_def
proof (induction rule: rtranclp_induct)
  case (step k1 k2)
  then obtain r where "kstep (sy_kernel (x\<lparr>sy_kernel := k1\<rparr>)) r k2" by auto
  from sys_kernel [OF this, of unpack uf] step show ?case by (auto intro: reachable_step)
qed

text \<open>A turn that goes on is a step of the system.\<close>

lemma turn_is_step:
  assumes "take_turn unpack uf (env n) a l = Inr (a', l', out)" and "reads_ring ks env"
  shows "sys_step unpack uf (at_turn ks env n a l printed)
    ((at_turn ks env n a l printed)\<lparr>sy_read := reads_done env (Suc n), sy_app := a', sy_last := l',
       sy_printed := printed @ emitted out\<rparr>)"
proof -
  let ?x = "at_turn ks env n a l printed"
  have sig: "\<not> tn_signal (env n)" using assms(1) by (auto simp: take_turn_def poll_iteration_def)
  note t = assms(1) [unfolded take_turn_def, simplified sig]
  show ?thesis
  proof (cases "tn_read (env n)")
    case (ReadOk m)
    with assms(2) have m: "reads_done env n < length (ks_events (ks n))" "m = ks_events (ks n) ! reads_done env n"
      by (auto simp: reads_ring_def)
    show ?thesis
      using sys_read [of ?x unpack uf "tn_now (env n)" "tn_verify (env n)" a' l' out] m t ReadOk
      by (simp add: at_turn_def)
  next
    case (ReadFailed m)
    then show ?thesis using t by (simp add: poll_iteration_def)
  next
    case ReadDeadline
    then show ?thesis
      using sys_idle [of ReadDeadline unpack uf ?x "tn_now (env n)" "tn_verify (env n)" a' l' out] t
      by (simp add: at_turn_def)
  next
    case ReadClosed
    then show ?thesis
      using sys_idle [of ReadClosed unpack uf ?x "tn_now (env n)" "tn_verify (env n)" a' l' out] t
      by (simp add: at_turn_def)
  qed
qed

lemma upto_reachable:
  assumes ring: "reads_ring ks env" and c: "cache_new cap = Some c"
    and u: "poll_upto unpack uf env start \<lparr>app_cache = c, app_containerID = cid, app_noDNS = noDNS\<rparr> n = Some (a, l, printed)"
  shows "reachable unpack uf cid noDNS (at_turn ks env n a l printed)"
  using u
proof (induction n arbitrary: a l printed)
  case 0
  have "kruns (sy_kernel (initial c cid noDNS start)) (ks 0)" using ring by (simp add: reads_ring_def initial_def)
  from reachable_kruns [OF this, where x = "initial c cid noDNS start"] reachable_init [OF c, of unpack uf cid noDNS start]
  show ?case using 0 by (simp add: at_turn_def initial_def)
next
  case (Suc n)
  then obtain a0 l0 p0 out where b: "poll_upto unpack uf env start
      \<lparr>app_cache = c, app_containerID = cid, app_noDNS = noDNS\<rparr> n = Some (a0, l0, p0)"
    and t: "take_turn unpack uf (env n) a0 l0 = Inr (a, l, out)" and p: "printed = p0 @ emitted out"
    by (auto split: option.splits sum.splits prod.splits)
  let ?y = "(at_turn ks env n a0 l0 p0)\<lparr>sy_read := reads_done env (Suc n), sy_app := a, sy_last := l,
      sy_printed := printed\<rparr>"
  have "reachable unpack uf cid noDNS ?y"
    using reachable_step [OF Suc.IH [OF b] turn_is_step [OF t ring, of p0]] by (simp add: p)
  moreover have "kruns (ks n) (ks (Suc n))" using ring by (simp add: reads_ring_def)
  ultimately show ?case
    using reachable_kruns [of "ks n" "ks (Suc n)" unpack uf cid noDNS ?y] by (simp add: at_turn_def)
qed

text \<open>
  A last turn that reads a record is one that ends with a changed identity; it then is the step the
  turn would have been with an unchanged one.
\<close>

lemma last_turn:
  assumes "take_turn unpack uf t a l = Inl (e, a', out)"
  shows "emitted out = [] \<and> (tn_signal t \<or> (\<exists>m. tn_read t = ReadFailed m)) \<or>
    \<not> tn_signal t \<and> (\<exists>l'. take_turn unpack uf (t\<lparr>tn_verify := True\<rparr>) a l = Inr (a', l', out))"
  using assms
  by (cases "tn_read t")
    (auto simp: take_turn_def poll_iteration_def Let_def split: if_splits prod.splits)

definition verified :: "(nat \<Rightarrow> turn) \<Rightarrow> nat \<Rightarrow> nat \<Rightarrow> turn" where
  "verified env n = env(n := (env n)\<lparr>tn_verify := True\<rparr>)"

lemma verified_simps [simp]:
  "tn_read (verified env n i) = tn_read (env i)" "verified env n n = (env n)\<lparr>tn_verify := True\<rparr>"
  by (simp_all add: verified_def)

lemma reads_verified [simp]: "reads_done (verified env n) i = reads_done env i"
  by (induction i) (simp_all split: read_result.split)

lemma ring_verified: "reads_ring ks env \<Longrightarrow> reads_ring ks (verified env n)"
  by (simp add: reads_ring_def)

text \<open>How many records have been read when turn \<open>n\<close> is the last one.\<close>

definition reads_total :: "(nat \<Rightarrow> turn) \<Rightarrow> nat \<Rightarrow> nat" where
  "reads_total env n = (if tn_signal (env n) then reads_done env n else reads_done env (Suc n))"

text \<open>What the loop has printed in the end is what a reachable state of the system has printed.\<close>

lemma poll_reachable:
  assumes ring: "reads_ring ks env" and c: "cache_new cap = Some c"
    and p: "poll unpack uf env start \<lparr>app_cache = c, app_containerID = cid, app_noDNS = noDNS\<rparr> = Some (e, a, printed)"
  obtains n x where "stops env start n" and "\<forall>m<n. \<not> stops env start m" and "e = stop_result (env n)"
    and "reachable unpack uf cid noDNS x" and "sy_kernel x = ks n" and "sy_printed x = printed"
    and "sy_read x = reads_total env n"
proof -
  have "\<exists>n. stops env start n" using p poll_ends by blast
  then obtain n where n: "stops env start n" "\<forall>m<n. \<not> stops env start m" using first_stop by blast
  from poll_at_stop [OF n, of unpack uf "\<lparr>app_cache = c, app_containerID = cid, app_noDNS = noDNS\<rparr>"]
  obtain a0 l p0 out where u: "poll_upto unpack uf env start
      \<lparr>app_cache = c, app_containerID = cid, app_noDNS = noDNS\<rparr> n = Some (a0, l, p0)"
    and t: "take_turn unpack uf (env n) a0 l = Inl (stop_result (env n), a, out)"
    and r: "e = stop_result (env n)" "printed = p0 @ emitted out"
    using p by (metis option.inject prod.inject)
  note x = upto_reachable [OF ring c u]
  from last_turn [OF t] consider (unread) "emitted out = []" "tn_signal (env n) \<or> (\<exists>m. tn_read (env n) = ReadFailed m)"
    | (step) l' where "\<not> tn_signal (env n)" "take_turn unpack uf ((env n)\<lparr>tn_verify := True\<rparr>) a0 l = Inr (a, l', out)"
    by blast
  then show thesis
  proof cases
    case unread
    with n r x show thesis
      by (intro that [of n "at_turn ks env n a0 l p0"]) (auto simp: at_turn_def reads_total_def)
  next
    case (step l')
    from step(2) have "take_turn unpack uf (verified env n n) a0 l = Inr (a, l', out)" by simp
    from turn_is_step [OF this ring_verified [OF ring], of p0]
    have "sys_step unpack uf (at_turn ks env n a0 l p0) ((at_turn ks env n a0 l p0)\<lparr>sy_read :=
        reads_done env (Suc n), sy_app := a, sy_last := l', sy_printed := printed\<rparr>)"
      by (simp add: at_turn_def r del: reads_done.simps)
    from reachable_step [OF x this] show thesis
      by (rule that [OF n r(1)]) (simp_all add: at_turn_def reads_total_def step(1))
  qed
qed

section \<open>The program\<close>

text \<open>
  \<open>main\<close> with \<open>run\<close>: where the trace reaches the loop, the loop supplies its result. \<open>None\<close> means
  that the program is still polling.
\<close>

definition start_app :: "u64 \<times> bool \<times> u64 \<Rightarrow> app" where
  "start_app f = (case f of (cgroupID, noDNS, cacheMax) \<Rightarrow>
     \<lparr>app_cache = the (cache_new (sint cacheMax)), app_containerID = cgroupID, app_noDNS = noDNS\<rparr>)"

definition netmon ::
  "unpacker \<Rightarrow> (string \<Rightarrow> string \<Rightarrow> bool) \<Rightarrow> world \<Rightarrow> (nat \<Rightarrow> turn) \<Rightarrow> u64 \<Rightarrow>
     (effect list \<times> run_error option \<times> connect_line list) option" where
  "netmon unpack uf w env start =
     (case w_flags w of
        Inl e \<Rightarrow> Some (fst (run w), snd (run w), [])
      | Inr f \<Rightarrow>
          if Poll \<notin> set (fst (run w)) then Some (fst (run w), snd (run w), [])
          else (case poll unpack uf env start (start_app f) of
              None \<Rightarrow> None
            | Some (e, a, printed) \<Rightarrow> Some (fst (run w), snd (run (w\<lparr>w_poll := e\<rparr>)), printed)))"

lemma run_loaded_w_poll [simp]: "fst (run_loaded (w\<lparr>w_poll := e\<rparr>) noDNS) = fst (run_loaded w noDNS)"
  by (simp add: run_loaded_def split: prod.split sum.split)

lemma run_w_poll [simp]: "fst (run (w\<lparr>w_poll := e\<rparr>)) = fst (run w)"
  by (simp add: run_def Let_def case_prod_beta split: option.split sum.split)

lemma polled_args: "Poll \<in> set (fst (run w)) \<Longrightarrow> args_ok w"
  using exit_codes [of w] by (metis empty_iff list.set(1))

lemma start_cache:
  assumes "args_ok w" and "w_flags w = Inr f"
  obtains cid noDNS cap c where "f = (cid, noDNS, cap)" and "cache_new (sint cap) = Some c"
    and "start_app f = \<lparr>app_cache = c, app_containerID = cid, app_noDNS = noDNS\<rparr>"
proof -
  from assms obtain cid noDNS cap where f: "f = (cid, noDNS, cap)" and cap: "cap \<le> 1000000"
    by (auto simp: args_ok_def)
  have "0 \<le> sint cap"
  proof -
    have "unat cap \<le> 1000000" using cap by (simp add: word_le_nat_alt)
    then have "int (unat cap) \<le> 1000000" by linarith
    then have "uint cap < 2 ^ 63" by simp
    moreover have "- (2 ^ 63) \<le> uint cap" by (rule order_trans [OF _ uint_ge_0]) simp
    ultimately have "signed_take_bit 63 (uint cap) = uint cap" by (intro signed_take_bit_int_eq_self)
    then show ?thesis by (simp add: sint_uint)
  qed
  then obtain c where "cache_new (sint cap) = Some c" by (simp add: cache_new_def)
  then show thesis using f by (intro that) (simp_all add: start_app_def)
qed

text \<open>The ways through \<open>netmon\<close>.\<close>

lemma netmon_cases:
  obtains (early) "Poll \<notin> set (fst (run w))"
      and "netmon unpack uf w env start = Some (fst (run w), snd (run w), [])"
  | (endless) "Poll \<in> set (fst (run w))" and "\<forall>n. \<not> stops env start n" and "netmon unpack uf w env start = None"
  | (polled) n f e a printed where "Poll \<in> set (fst (run w))" and "args_ok w" and "w_flags w = Inr f"
      and "stops env start n" and "\<forall>m<n. \<not> stops env start m" and "e = stop_result (env n)"
      and "poll unpack uf env start (start_app f) = Some (e, a, printed)"
      and "netmon unpack uf w env start = Some (fst (run w), snd (run (w\<lparr>w_poll := e\<rparr>)), printed)"
proof (cases "Poll \<in> set (fst (run w))")
  case False
  then show thesis by (intro early) (simp_all add: netmon_def split: sum.split)
next
  case True
  from polled_args [OF True] obtain f where f: "w_flags w = Inr f" by (auto simp: args_ok_def)
  show thesis
  proof (cases "\<exists>n. stops env start n")
    case False
    then have "poll unpack uf env start (start_app f) = None"
      using poll_ends [of unpack uf env start "start_app f"] by (metis not_None_eq)
    with True False f show thesis by (intro endless) (simp_all add: netmon_def)
  next
    case stop: True
    then obtain n where n: "stops env start n" "\<forall>m<n. \<not> stops env start m" using first_stop by blast
    from poll_at_stop [OF n, of unpack uf "start_app f"] obtain a printed where
      "poll unpack uf env start (start_app f) = Some (stop_result (env n), a, printed)" by metis
    with True f n polled_args [OF True] show thesis by (intro polled) (simp_all add: netmon_def)
  qed
qed

section \<open>A container that is gone\<close>

lemma last_at_le:
  assumes "start \<le> tn_now (env 0)" and mono: "\<forall>i. tn_now (env i) \<le> tn_now (env (Suc i))"
  shows "last_at env start k \<le> tn_now (env k)"
proof (induction k)
  case (Suc k)
  have "tn_now (env k) \<le> tn_now (env (Suc k))" using mono by blast
  with Suc.IH show ?case by (auto intro: order_trans)
qed (simp add: assms(1))

lemma last_at_frozen:
  assumes "\<forall>i\<ge>k. \<not> tn_verify (env i)" and "k \<le> m" and "\<forall>i<m. \<not> stops env start i"
  shows "last_at env start m = last_at env start k"
  using assms(2,3)
proof (induction m rule: dec_induct)
  case (step m)
  then have "\<not> stops env start m" by simp
  then have "tn_now (env m) - last_at env start m < 30000000000"
    using assms(1) step by (auto simp: stops_def)
  then show ?case using step by simp
qed simp

lemma gone_stops:
  assumes "start \<le> tn_now (env 0)" and mono: "\<forall>i. tn_now (env i) \<le> tn_now (env (Suc i))"
    and gone: "\<forall>i\<ge>k. \<not> tn_verify (env i)" and late: "k \<le> m" "30000000000 \<le> tn_now (env m) - tn_now (env k)"
  shows "\<exists>n\<le>m. stops env start n"
proof (rule ccontr)
  assume "\<not> (\<exists>n\<le>m. stops env start n)"
  then have no: "\<forall>i<m. \<not> stops env start i" and no_m: "\<not> stops env start m" by auto
  have l: "last_at env start m = last_at env start k" by (rule last_at_frozen [OF gone late(1) no])
  have "tn_now (env k) \<le> tn_now (env m)" using late(1)
  proof (induction m rule: dec_induct)
    case (step m)
    then show ?case using mono by (blast intro: order_trans)
  qed simp
  moreover have "last_at env start k \<le> tn_now (env k)" by (rule last_at_le [OF assms(1) mono])
  ultimately have "tn_now (env m) - tn_now (env k) \<le> tn_now (env m) - last_at env start m"
    by (simp add: l word_le_nat_alt unat_sub)
  with late(2) gone no_m late(1) show False by (auto simp: stops_def)
qed

section \<open>Properties\<close>

text \<open>A world in which all goes well, and a clock that advances ten seconds every turn.\<close>

definition live_world :: world where
  "live_world = sample_world\<lparr>w_attach := (\<lambda>p. True)\<rparr>"

definition quiet :: "nat \<Rightarrow> turn" where
  "quiet n = \<lparr>tn_signal = (n = 2), tn_read = ReadDeadline, tn_now = 0, tn_verify = True\<rparr>"

definition orphaned :: "nat \<Rightarrow> turn" where
  "orphaned n = \<lparr>tn_signal = False, tn_read = ReadDeadline,
     tn_now = (if n = 0 then 0 else 30000000000), tn_verify = False\<rparr>"

lemma live_polls: "Poll \<in> set (fst (run live_world))"
  by (simp add: run_def live_world_def sample_world_def sample_path verifyCgroupIdentity_def run_loaded_def
      attachPrograms_def program_names_def Let_def)

lemma quiet_stops: "stops quiet 0 2"
  by (simp add: stops_def quiet_def)

lemma quiet_before: "m < 2 \<Longrightarrow> \<not> stops quiet 0 m"
  by (cases m) (auto simp: stops_def quiet_def word_le_nat_alt less_Suc_eq numeral_2_eq_2)

text \<open>Three turns: one that reads a DNS record, one that reads a connection, and a signal.\<close>

definition busy :: "nat \<Rightarrow> turn" where
  "busy n = \<lparr>tn_signal = (n = 2), tn_read = (if n = 0 then ReadOk (dns_packet_image run_dns)
     else if n = 1 then ReadOk (connection_image run_connection) else ReadDeadline), tn_now = 0, tn_verify = True\<rparr>"

lemma busy_stops: "stops busy 0 2"
  by (simp add: stops_def busy_def)

lemma busy_before: "m < 2 \<Longrightarrow> \<not> stops busy 0 m"
  by (cases m) (auto simp: stops_def busy_def word_le_nat_alt less_Suc_eq numeral_2_eq_2)

lemma busy_total: "reads_total busy 2 = 2"
  by (simp add: reads_total_def busy_def numeral_2_eq_2)

lemma run_kruns: "kruns \<lparr>ks_events = [], ks_counters = \<lambda>_ _. 0\<rparr> run_kernel2"
  unfolding kruns_def sample_kstate_def [symmetric] using run_ksteps by (blast intro: rtranclp.rtrancl_into_rtrancl)

lemma busy_ring: "reads_ring (\<lambda>n. run_kernel2) busy"
  using run_kruns
  by (auto simp: reads_ring_def busy_def kruns_def run_kernel2_events nth_Cons' split: if_splits)

lemma run_connections:
  "map plain_line (List.map_filter connection_of_record [dns_packet_image run_dns, connection_image run_connection]) =
     [plain_line run_connection]"
  using reachable_inv [OF run_reachable] run_consumed
  by (simp add: sys_inv_def run_state_def run_line_def without_names_def plain_line_def)

text \<open>
  C26. The program fails to return exactly if it reaches the poll loop and no turn of the loop
  receives a signal, a failed read, or, when maintenance is due, a changed cgroup. Once it
  returns, every program is detached, the objects, the reader and the signal handler are closed as
  often as opened, the exit code is 0 exactly if a signal ended the loop, and 2 exactly for
  unusable arguments.
\<close>

theorem netmon_returns:
  "(netmon unpack uf w env start = None \<longleftrightarrow> Poll \<in> set (fst (run w)) \<and> (\<forall>n. \<not> stops env start n)) \<and>
   (\<forall>trace r printed. netmon unpack uf w env start = Some (trace, r, printed) \<longrightarrow>
      held trace [] = [] \<and> balance LoadObjects CloseObjects trace = 0 \<and>
      balance OpenReader CloseReader trace = 0 \<and> balance NotifySignals StopSignals trace = 0 \<and>
      (exitCode r = 2 \<longleftrightarrow> \<not> args_ok w) \<and>
      (exitCode r = 0 \<longleftrightarrow> Poll \<in> set trace \<and>
         (\<exists>n. stops env start n \<and> (\<forall>m<n. \<not> stops env start m) \<and> tn_signal (env n))))"
proof (cases rule: netmon_cases [of w unpack uf env start])
  case early
  then show ?thesis using run_released [of w] exit_codes [of w] by auto
next
  case endless
  then show ?thesis by simp
next
  case (polled n f e a printed)
  let ?w = "w\<lparr>w_poll := e\<rparr>"
  have "e = None \<longleftrightarrow> tn_signal (env n)"
    by (auto simp: polled(6) stop_result_def split: read_result.split)
  moreover have "exitCode (snd (run ?w)) = 0 \<longleftrightarrow> e = None" using exit_codes [of ?w] polled(1) by simp
  moreover have "(\<exists>n. stops env start n \<and> (\<forall>m<n. \<not> stops env start m) \<and> tn_signal (env n)) \<longleftrightarrow> tn_signal (env n)"
    using polled(4,5) by (metis linorder_neqE_nat)
  moreover have "args_ok ?w" using polled(2) by (simp add: args_ok_def)
  then have "exitCode (snd (run ?w)) \<noteq> 2" using exit_codes [of ?w] by blast
  moreover have "\<exists>n. stops env start n" using polled(4) by blast
  ultimately show ?thesis using polled(1,2,8) run_released [of w] by simp
qed

theorem netmon_returns_witness:
  "netmon sample_unpack no_unicode live_world (\<lambda>n. \<lparr>tn_signal = False, tn_read = ReadDeadline, tn_now = 0, tn_verify = True\<rparr>) 0 = None \<and>
   (\<exists>trace r printed. netmon sample_unpack no_unicode live_world quiet 0 = Some (trace, r, printed) \<and>
      Poll \<in> set trace \<and> held trace [] = [] \<and> balance OpenReader CloseReader trace = 0 \<and> exitCode r = 0)"
proof
  let ?env = "\<lambda>n :: nat. \<lparr>tn_signal = False, tn_read = ReadDeadline, tn_now = 0, tn_verify = True\<rparr>"
  have "last_at ?env 0 n = 0" for n by (induction n) simp_all
  then have "\<not> stops ?env 0 n" for n by (simp add: stops_def word_le_nat_alt)
  then show "netmon sample_unpack no_unicode live_world ?env 0 = None"
    using netmon_returns [of sample_unpack no_unicode live_world ?env 0] live_polls by simp
next
  obtain trace r printed where t: "netmon sample_unpack no_unicode live_world quiet 0 = Some (trace, r, printed)"
    and p: "Poll \<in> set trace"
    using live_polls quiet_stops by (cases rule: netmon_cases [of live_world sample_unpack no_unicode quiet 0]) auto
  moreover have "\<forall>m<2. \<not> stops quiet 0 m" by (simp add: quiet_before)
  ultimately have "held trace [] = [] \<and> balance OpenReader CloseReader trace = 0 \<and> exitCode r = 0"
    using netmon_returns [of sample_unpack no_unicode live_world quiet 0] quiet_stops by (auto simp: quiet_def)
  with t p show "\<exists>trace r printed. netmon sample_unpack no_unicode live_world quiet 0 = Some (trace, r, printed) \<and>
      Poll \<in> set trace \<and> held trace [] = [] \<and> balance OpenReader CloseReader trace = 0 \<and> exitCode r = 0"
    by blast
qed

text \<open>
  C27. Everything the program prints from its start to its exit, with the programs running at any
  moment in between, is the lines of the connections among the records the loop has read, which
  are that many from the front of the ring: one line for each, in order. Every hostname on a line
  was learned from a captured response in those records.
\<close>

theorem netmon_output:
  assumes "reads_ring ks env" and "netmon unpack uf w env start = Some (trace, r, printed)"
  shows "printed = [] \<and> Poll \<notin> set trace \<or>
    (\<exists>n cid noDNS cap. w_flags w = Inr (cid, noDNS, cap) \<and>
       stops env start n \<and> (\<forall>m<n. \<not> stops env start m) \<and>
       reads_total env n \<le> length (ks_events (ks n)) \<and>
       map without_names printed =
         map plain_line (List.map_filter connection_of_record (take (reads_total env n) (ks_events (ks n)))) \<and>
       (\<forall>l \<in> set printed. line_explained unpack uf cid noDNS (take (reads_total env n) (ks_events (ks n))) l))"
proof (cases rule: netmon_cases [of w unpack uf env start])
  case early
  then show ?thesis using assms(2) by simp
next
  case endless
  then show ?thesis using assms(2) by simp
next
  case (polled n f e a printed')
  obtain cid noDNS cap c where f: "f = (cid, noDNS, cap)" and c: "cache_new (sint cap) = Some c"
    and app: "start_app f = \<lparr>app_cache = c, app_containerID = cid, app_noDNS = noDNS\<rparr>"
    using start_cache [OF polled(2,3)] by blast
  from poll_reachable [OF assms(1) c polled(7) [unfolded app]] obtain n x where
    n: "stops env start n" "\<forall>m<n. \<not> stops env start m" and x: "reachable unpack uf cid noDNS x"
    "sy_kernel x = ks n" "sy_printed x = printed'" "sy_read x = reads_total env n"
    by blast
  have "printed' = printed" using polled(8) assms(2) by simp
  moreover have "consumed x = take (reads_total env n) (ks_events (ks n))" by (simp add: consumed_def x(2,4))
  ultimately show ?thesis
    using reachable_inv [OF x(1)] polled(3) n x(2-) unfolding sys_inv_def f by auto
qed

theorem netmon_output_witness:
  "\<exists>trace r printed. netmon sample_unpack no_unicode live_world busy 0 = Some (trace, r, printed) \<and>
     map without_names printed = [plain_line run_connection]"
proof -
  obtain trace r printed where t: "netmon sample_unpack no_unicode live_world busy 0 = Some (trace, r, printed)"
    and p: "Poll \<in> set trace"
    using live_polls busy_stops by (cases rule: netmon_cases [of live_world sample_unpack no_unicode busy 0]) auto
  from netmon_output [OF busy_ring t] p obtain n where n: "stops busy 0 n" "\<forall>m<n. \<not> stops busy 0 m"
    and out: "map without_names printed = map plain_line (List.map_filter connection_of_record
      (take (reads_total busy n) (ks_events run_kernel2)))" by blast
  have "n = 2" using n busy_stops busy_before by (metis linorder_neqE_nat)
  then have "take (reads_total busy n) (ks_events run_kernel2) = [dns_packet_image run_dns, connection_image run_connection]"
    by (simp add: busy_total run_kernel2_events)
  then have "map without_names printed = [plain_line run_connection]"
    using out run_connections by (simp only:)
  with t show ?thesis by (intro exI conjI)
qed

text \<open>
  C28. The loop ends by itself when its container is gone: if from turn k on the cgroup is no
  longer the one that was asked for and the clock does not run backwards, the loop is left at the
  latest in the first turn that finds thirty seconds passed since turn k.
\<close>

theorem container_end_noticed:
  assumes "start \<le> tn_now (env 0)" and "\<forall>i. tn_now (env i) \<le> tn_now (env (Suc i))"
    and "\<forall>i\<ge>k. \<not> tn_verify (env i)" and "k \<le> m" and "30000000000 \<le> tn_now (env m) - tn_now (env k)"
  shows "\<exists>n\<le>m. \<exists>a printed. poll unpack uf env start app = Some (stop_result (env n), a, printed) \<and>
    poll_upto unpack uf env start app (Suc n) = None"
proof -
  obtain n where n: "n \<le> m" "stops env start n" "\<forall>i<n. \<not> stops env start i"
    using gone_stops [OF assms] first_stop by (metis order_trans)
  have "poll_upto unpack uf env start app (Suc n) = None"
    using n(2) upto_Some [of unpack uf env start app "Suc n"] by (metis lessI not_None_eq)
  with n show ?thesis using poll_at_stop [OF n(2,3), of unpack uf app] by metis
qed

theorem container_end_noticed_witness:
  "\<exists>a printed. poll sample_unpack no_unicode orphaned 0 (run_app run_cache) = Some (Some CgroupGone, a, printed)"
proof -
  have "\<exists>n\<le>1. \<exists>a printed. poll sample_unpack no_unicode orphaned 0 (run_app run_cache) =
      Some (stop_result (orphaned n), a, printed) \<and>
      poll_upto sample_unpack no_unicode orphaned 0 (run_app run_cache) (Suc n) = None"
    by (rule container_end_noticed [where k = 0]) (simp_all add: orphaned_def)
  then obtain n a printed where "n \<le> 1" and "poll sample_unpack no_unicode orphaned 0 (run_app run_cache) =
      Some (stop_result (orphaned n), a, printed)" by blast
  moreover have "stop_result (orphaned n) = Some CgroupGone"
    by (simp add: stop_result_def orphaned_def)
  ultimately show ?thesis by simp
qed

end
