(* ===== verification/LogScript.thy ===== *)
theory LogScript
  imports NetmonStartup
begin

text \<open>
  The script src/src/bpf_log.sh: it resolves a container to the inodes of its cgroup and of its mount
  namespace, starts the two monitors with them, and ends both when one ends. What the commands it
  calls answer is the record \<open>log_world\<close>; what it does is a trace of effects with an exit status.
\<close>

section \<open>The container\<close>

text \<open>
  \<open>lw_inspect i\<close> is the line the \<open>i\<close>th call of docker inspect prints, as the two words read; \<open>lw_fstype\<close>
  is empty and \<open>lw_inode\<close> is \<open>None\<close> where \<open>stat\<close> fails; \<open>lw_rel\<close> is what awk finds in a file.
\<close>

record log_world =
  lw_command :: "string \<Rightarrow> bool"
  lw_audit :: bool
  lw_make :: nat
  lw_netmon :: bool
  lw_inspect :: "nat \<Rightarrow> (string \<times> string) option"
  lw_fstype :: "string \<Rightarrow> string"
  lw_inode :: "string \<Rightarrow> string option"
  lw_rel :: "string \<Rightarrow> string"
  lw_dir :: "string \<Rightarrow> bool"
  lw_exists :: "string \<Rightarrow> bool"
  lw_sudo :: nat

text \<open>\<open>^[1-9][0-9]*$\<close>.\<close>

definition is_pid :: "string \<Rightarrow> bool" where
  "is_pid s \<longleftrightarrow> s \<noteq> [] \<and> list_all (\<lambda>c. c \<in> set ''0123456789'') s \<and> hd s \<noteq> CHR ''0''"

definition running_pid :: "log_world \<Rightarrow> nat \<Rightarrow> string option" where
  "running_pid w i = (case lw_inspect w i of
     None \<Rightarrow> None
   | Some (running, pid) \<Rightarrow> if running \<noteq> ''true'' \<or> \<not> is_pid pid then None else Some pid)"

definition resolve_container_cgroup :: "log_world \<Rightarrow> nat \<Rightarrow> string option" where
  "resolve_container_cgroup w i = (case running_pid w i of
     None \<Rightarrow> None
   | Some pid \<Rightarrow>
       let cgroup_mount = ''/proc/'' @ pid @ ''/root/sys/fs/cgroup'' in
       if lw_fstype w cgroup_mount = ''cgroup2fs'' then lw_inode w cgroup_mount
       else
         let rel = lw_rel w (''/proc/'' @ pid @ ''/cgroup''); path = ''/sys/fs/cgroup'' @ rel in
         if rel = [] \<or> \<not> lw_dir w path then None else lw_inode w path)"

definition resolve_container_mntns :: "log_world \<Rightarrow> nat \<Rightarrow> string option" where
  "resolve_container_mntns w i = (case running_pid w i of
     None \<Rightarrow> None
   | Some pid \<Rightarrow>
       let ns = ''/proc/'' @ pid @ ''/ns/mnt'' in
       if \<not> lw_exists w ns then None else lw_inode w ns)"

section \<open>The run\<close>

datatype monitor = Bpftrace | Netmon

datatype log_effect =
    Make | Sudo
  | StartBpftrace string string | StartNetmon string "string list"
  | Terminate monitor | WaitFor monitor

text \<open>What ends the wait: the status of the first child to exit, or a signal.\<close>

datatype wakeup = FirstExit nat | Interrupt | Termination

fun wakeup_status :: "wakeup \<Rightarrow> nat" where
  "wakeup_status (FirstExit status) = status"
| "wakeup_status Interrupt = 130"
| "wakeup_status Termination = 143"

definition cleanup :: "monitor list \<Rightarrow> log_effect list" where
  "cleanup children = map Terminate children @ map WaitFor children"

definition bpf_log :: "log_world \<Rightarrow> wakeup \<Rightarrow> string list \<Rightarrow> log_effect list \<times> nat" where
  "bpf_log w e args = (case args of
     [] \<Rightarrow> ([], 2)
   | container # rest \<Rightarrow>
       if \<not> lw_command w ''docker'' \<or> \<not> lw_command w ''bpftrace'' \<or> \<not> lw_command w ''make'' \<or> \<not> lw_audit w
       then ([], 1)
       else if lw_make w \<noteq> 0 then ([Make], lw_make w)
       else if \<not> lw_netmon w then ([Make], 1)
       else case resolve_container_cgroup w 0 of
         None \<Rightarrow> ([Make], 1)
       | Some cgroup_id \<Rightarrow>
           (case resolve_container_mntns w 1 of
              None \<Rightarrow> ([Make], 1)
            | Some mntns_id \<Rightarrow>
                if lw_sudo w \<noteq> 0 then ([Make, Sudo], lw_sudo w)
                else ([Make, Sudo, StartBpftrace cgroup_id mntns_id, StartNetmon cgroup_id rest] @
                        cleanup [Bpftrace, Netmon],
                      wakeup_status e)))"

section \<open>What it guarantees\<close>

text \<open>Monitors running after a trace.\<close>

fun running_monitors :: "log_effect list \<Rightarrow> monitor list \<Rightarrow> monitor list" where
  "running_monitors [] ms = ms"
| "running_monitors (StartBpftrace c n # es) ms = running_monitors es (ms @ [Bpftrace])"
| "running_monitors (StartNetmon c a # es) ms = running_monitors es (ms @ [Netmon])"
| "running_monitors (WaitFor m # es) ms = running_monitors es (remove1 m ms)"
| "running_monitors (_ # es) ms = running_monitors es ms"

theorem no_monitor_left: "running_monitors (fst (bpf_log w e args)) [] = []"
  by (simp add: bpf_log_def cleanup_def split: list.split option.split)

text \<open>
  Whether the script comes to its end. A \<open>wait\<close> returns once the monitor has ended, by itself (\<open>ends\<close>)
  or because the signal reached it. Both monitors run under sudo, so \<open>may_kill\<close> holds only where the
  script itself has root's rights: a refused \<open>kill\<close> is hidden by \<open>|| true\<close>.
\<close>

fun returns :: "bool \<Rightarrow> (monitor \<Rightarrow> bool) \<Rightarrow> monitor list \<Rightarrow> log_effect list \<Rightarrow> bool" where
  "returns may_kill ends asked [] \<longleftrightarrow> True"
| "returns may_kill ends asked (Terminate m # es) \<longleftrightarrow> returns may_kill ends (m # asked) es"
| "returns may_kill ends asked (WaitFor m # es) \<longleftrightarrow>
     (ends m \<or> may_kill \<and> m \<in> set asked) \<and> returns may_kill ends asked es"
| "returns may_kill ends asked (_ # es) \<longleftrightarrow> returns may_kill ends asked es"

theorem log_returns_iff:
  "returns may_kill ends [] (fst (bpf_log w e args)) \<longleftrightarrow>
    may_kill \<or> ends Bpftrace \<and> ends Netmon \<or> (\<forall>c rest. StartNetmon c rest \<notin> set (fst (bpf_log w e args)))"
  by (auto simp: bpf_log_def cleanup_def split: list.split option.split)

text \<open>
  So for a user other than root the end of one monitor does not end the other: the script waits
  for it.
\<close>

lemma other_monitor_kept:
  assumes "StartNetmon c rest \<in> set (fst (bpf_log w e args))"
  shows "\<not> returns False (\<lambda>m. m = Bpftrace) [] (fst (bpf_log w e args))"
  using assms by (auto simp: log_returns_iff)

text \<open>
  The monitors are started together or not at all, with one cgroup inode for both, and only for a
  container that runs; the cgroup and the namespace are those of the process docker names.
\<close>

theorem monitors_share_container:
  assumes "StartNetmon c rest \<in> set (fst (bpf_log w e args))"
  shows "\<exists>n pid pid'. StartBpftrace c n \<in> set (fst (bpf_log w e args)) \<and>
    running_pid w 0 = Some pid \<and> running_pid w 1 = Some pid' \<and> args \<noteq> [] \<and> rest = tl args \<and>
    resolve_container_cgroup w 0 = Some c \<and> lw_inode w (''/proc/'' @ pid' @ ''/ns/mnt'') = Some n"
proof -
  from assms have "resolve_container_cgroup w 0 = Some c" and "args \<noteq> []" and "rest = tl args"
    and "\<exists>n. resolve_container_mntns w 1 = Some n \<and> StartBpftrace c n \<in> set (fst (bpf_log w e args))"
    by (auto simp: bpf_log_def cleanup_def split: list.splits option.splits if_splits)
  then show ?thesis
    by (auto simp: resolve_container_cgroup_def resolve_container_mntns_def Let_def split: option.splits if_splits)
qed

text \<open>
  docker is asked twice: a container restarted in between gives the cgroup of one process and the
  namespace of another, and then bpftrace matches neither.
\<close>

theorem restart_in_between:
  "\<exists>w :: log_world. running_pid w 0 = Some ''1'' \<and> running_pid w 1 = Some ''2'' \<and>
     StartBpftrace ''c1'' ''n2'' \<in> set (fst (bpf_log w Interrupt [''box'']))"
proof -
  let ?w = "\<lparr>lw_command = (\<lambda>c. True), lw_audit = True, lw_make = 0, lw_netmon = True,
    lw_inspect = (\<lambda>i. Some (''true'', if i = 0 then ''1'' else ''2'')), lw_fstype = (\<lambda>p. ''cgroup2fs''),
    lw_inode = (\<lambda>p. if p = ''/proc/1/root/sys/fs/cgroup'' then Some ''c1'' else Some ''n2''),
    lw_rel = (\<lambda>p. []), lw_dir = (\<lambda>p. True), lw_exists = (\<lambda>p. True), lw_sudo = 0\<rparr>"
  have pid: "running_pid ?w 0 = Some ''1''" "running_pid ?w 1 = Some ''2''" by (simp_all add: running_pid_def is_pid_def)
  then have "resolve_container_cgroup ?w 0 = Some ''c1''" "resolve_container_mntns ?w 1 = Some ''n2''"
    by (simp_all add: resolve_container_cgroup_def resolve_container_mntns_def)
  then have "StartBpftrace ''c1'' ''n2'' \<in> set (fst (bpf_log ?w Interrupt [''box'']))" by (simp add: bpf_log_def)
  with pid show ?thesis by blast
qed

end
