(* ===== verification/NetmonFlags.thy ===== *)
theory NetmonFlags
  imports LogScript
begin

text \<open>
  How the command line of netmon (src/src/netmon-go/cmd/netmon/main.go, \<open>run\<close>) becomes its settings,
  with what it uses of Go's flag and strconv packages, and how bpf_log.sh hands it the container's
  cgroup. Strings are lists of bytes.
\<close>

section \<open>Numbers\<close>

text \<open>\<open>strconv.ParseUint(s, 0, 64)\<close>, with overflow detected in \<open>uint64\<close> as Go does it.\<close>

datatype num_error = SyntaxError | RangeError

definition lower_case :: "char \<Rightarrow> char" where
  "lower_case c = (if 65 \<le> byte_code c \<and> byte_code c \<le> 90 then char_of (byte_code c + 32) else c)"

definition digit_value :: "char \<Rightarrow> nat option" where
  "digit_value c =
     (let b = byte_code c; l = byte_code (lower_case c) in
      if 48 \<le> b \<and> b \<le> 57 then Some (b - 48)
      else if 97 \<le> l \<and> l \<le> 122 then Some (l - 97 + 10)
      else None)"

fun digits_loop :: "u64 \<Rightarrow> string \<Rightarrow> u64 \<Rightarrow> num_error + u64" where
  "digits_loop base [] n = Inr n"
| "digits_loop base (c # s) n =
     (if c = CHR ''_'' then digits_loop base s n
      else case digit_value c of
        None \<Rightarrow> Inl SyntaxError
      | Some d \<Rightarrow>
          if unat base \<le> d then Inl SyntaxError
          else if (- 1) div base + 1 \<le> n then Inl RangeError
          else let n1 = n * base + of_nat d in
            if n1 < n * base then Inl RangeError else digits_loop base s n1)"

text \<open>\<open>underscoreOK\<close>: the last character seen, as \<open>0\<close> for a digit, \<open>_\<close>, \<open>^\<close> at the start, \<open>!\<close>.\<close>

fun underscore_loop :: "bool \<Rightarrow> char \<Rightarrow> string \<Rightarrow> bool" where
  "underscore_loop hex i [] \<longleftrightarrow> i \<noteq> CHR ''_''"
| "underscore_loop hex i (c # s) \<longleftrightarrow>
     (let l = byte_code (lower_case c) in
      if 48 \<le> byte_code c \<and> byte_code c \<le> 57 \<or> hex \<and> 97 \<le> l \<and> l \<le> 102 then underscore_loop hex (CHR ''0'') s
      else if c = CHR ''_'' then i = CHR ''0'' \<and> underscore_loop hex (CHR ''_'') s
      else i \<noteq> CHR ''_'' \<and> underscore_loop hex (CHR ''!'') s)"

definition base_prefix :: "string \<Rightarrow> char option" where
  "base_prefix s = (case s of
     z # c # _ \<Rightarrow> if z = CHR ''0'' \<and> lower_case c \<in> set ''box'' then Some (lower_case c) else None
   | _ \<Rightarrow> None)"

definition underscore_ok :: "string \<Rightarrow> bool" where
  "underscore_ok s = (case base_prefix s of
     Some p \<Rightarrow> underscore_loop (p = CHR ''x'') (CHR ''0'') (drop 2 s)
   | None \<Rightarrow> underscore_loop False (CHR ''^'') s)"

definition number_base :: "string \<Rightarrow> u64 \<times> string" where
  "number_base s =
     (if hd s \<noteq> CHR ''0'' then (10, s)
      else case base_prefix s of
        Some p \<Rightarrow> if length s < 3 then (8, tl s)
          else (if p = CHR ''b'' then 2 else if p = CHR ''o'' then 8 else 16, drop 2 s)
      | None \<Rightarrow> (8, tl s))"

definition parse_uint :: "string \<Rightarrow> num_error + u64" where
  "parse_uint s =
     (if s = [] then Inl SyntaxError
      else let (base, digits) = number_base s in
        case digits_loop base digits 0 of
          Inl e \<Rightarrow> Inl e
        | Inr n \<Rightarrow> if CHR ''_'' \<in> set digits \<and> \<not> underscore_ok s then Inl SyntaxError else Inr n)"

definition parse_bool :: "string \<Rightarrow> bool option" where
  "parse_bool s =
     (if s \<in> {''1'', ''t'', ''T'', ''true'', ''TRUE'', ''True''} then Some True
      else if s \<in> {''0'', ''f'', ''F'', ''false'', ''FALSE'', ''False''} then Some False
      else None)"

section \<open>Flags\<close>

datatype flag_error =
    BadSyntax string | NotDefined string | HelpRequested
  | InvalidBool string string | NeedsArgument string | InvalidValue string string num_error

text \<open>One argument: where parsing stops, a malformed flag, or a flag with the value written to it.\<close>

datatype argument = Stop | Malformed string | Flag string "string option"

definition read_argument :: "string \<Rightarrow> argument" where
  "read_argument s =
     (if length s < 2 \<or> hd s \<noteq> CHR ''-'' then Stop
      else if s = ''--'' then Stop
      else
        let name = (if hd (tl s) = CHR ''-'' then drop 2 s else tl s) in
        if name = [] \<or> hd name = CHR ''-'' \<or> hd name = CHR ''='' then Malformed s
        else Flag (takeWhile (\<lambda>c. c \<noteq> CHR ''='') name)
          (if CHR ''='' \<in> set name then Some (tl (dropWhile (\<lambda>c. c \<noteq> CHR ''='') name)) else None))"

type_synonym settings = "u64 \<times> bool \<times> u64"

definition defaultCacheMax :: u64 where "defaultCacheMax = 4096"

definition set_number :: "string \<Rightarrow> string \<Rightarrow> settings \<Rightarrow> flag_error + settings" where
  "set_number name value f = (case parse_uint value of
     Inl e \<Rightarrow> Inl (InvalidValue value name e)
   | Inr n \<Rightarrow> (case f of (cgroupID, noDNS, cacheMax) \<Rightarrow>
       Inr (if name = ''cgroup-id'' then (n, noDNS, cacheMax) else (cgroupID, noDNS, n))))"

text \<open>\<open>flags.Parse\<close>: what follows the first argument that is no flag is ignored.\<close>

fun parse_flags :: "string list \<Rightarrow> settings \<Rightarrow> flag_error + settings" where
  "parse_flags [] f = Inr f"
| "parse_flags (arg # args) f = (case read_argument arg of
     Stop \<Rightarrow> Inr f
   | Malformed s \<Rightarrow> Inl (BadSyntax s)
   | Flag name value \<Rightarrow>
       if name = ''no-dns'' then
         (case (case value of None \<Rightarrow> Some True | Some x \<Rightarrow> parse_bool x) of
            None \<Rightarrow> Inl (InvalidBool (the value) name)
          | Some b \<Rightarrow> parse_flags args (fst f, b, snd (snd f)))
       else if name = ''cgroup-id'' \<or> name = ''dns-cache-max'' then
         (case value of
            Some x \<Rightarrow> (case set_number name x f of Inl e \<Rightarrow> Inl e | Inr f \<Rightarrow> parse_flags args f)
          | None \<Rightarrow>
              (case args of
                 [] \<Rightarrow> Inl (NeedsArgument name)
               | x # rest \<Rightarrow> (case set_number name x f of Inl e \<Rightarrow> Inl e | Inr f \<Rightarrow> parse_flags rest f)))
       else if name = ''help'' \<or> name = ''h'' then Inl HelpRequested
       else Inl (NotDefined name))"

text \<open>The message; \<open>quote\<close> is \<open>strconv.Quote\<close>.\<close>

fun num_message :: "num_error \<Rightarrow> string" where
  "num_message SyntaxError = ''parse error''"
| "num_message RangeError = ''value out of range''"

fun flag_message :: "(string \<Rightarrow> string) \<Rightarrow> flag_error \<Rightarrow> string" where
  "flag_message quote (BadSyntax s) = ''bad flag syntax: '' @ s"
| "flag_message quote (NotDefined n) = ''flag provided but not defined: -'' @ n"
| "flag_message quote HelpRequested = ''flag: help requested''"
| "flag_message quote (InvalidBool v n) = ''invalid boolean value '' @ quote v @ '' for -'' @ n @ '': parse error''"
| "flag_message quote (NeedsArgument n) = ''flag needs an argument: -'' @ n"
| "flag_message quote (InvalidValue v n e) =
     ''invalid value '' @ quote v @ '' for flag -'' @ n @ '': '' @ num_message e"

definition with_args :: "(string \<Rightarrow> string) \<Rightarrow> string list \<Rightarrow> world \<Rightarrow> world" where
  "with_args quote args w = w\<lparr>w_flags := (case parse_flags args (0, False, defaultCacheMax) of
     Inl e \<Rightarrow> Inl (flag_message quote e) | Inr f \<Rightarrow> Inr f)\<rparr>"

section \<open>Reading a number is exact\<close>

definition is_digit_of :: "u64 \<Rightarrow> char \<Rightarrow> bool" where
  "is_digit_of base c \<longleftrightarrow> (\<exists>d. digit_value c = Some d \<and> d < unat base)"

definition digits_from :: "nat \<Rightarrow> nat \<Rightarrow> string \<Rightarrow> nat" where
  "digits_from b n s = foldl (\<lambda>n c. n * b + the (digit_value c)) n s"

lemma digits_from_simps [simp]:
  "digits_from b n [] = n"
  "digits_from b n (c # s) = digits_from b (n * b + the (digit_value c)) s"
  "digits_from b n (s @ s') = digits_from b (digits_from b n s) s'"
  by (simp_all add: digits_from_def)

lemma digits_from_ge: "1 \<le> b \<Longrightarrow> n \<le> digits_from b n s"
proof (induction s arbitrary: n)
  case (Cons c s)
  have "n \<le> n * b + the (digit_value c)" using Cons.prems by (simp add: trans_le_add1)
  also have "\<dots> \<le> digits_from b (n * b + the (digit_value c)) s" by (rule Cons.IH [OF Cons.prems])
  finally show ?case by simp
qed simp

lemma digit_value_less: "digit_value c = Some d \<Longrightarrow> d < 36"
  by (auto simp: digit_value_def Let_def split: if_splits)

lemma cutoff:
  fixes base n :: u64
  assumes "2 \<le> unat base"
  shows "(- 1) div base + 1 \<le> n \<longleftrightarrow> 2 ^ 64 \<le> unat n * unat base"
proof -
  let ?q = "(2 ^ 64 - 1) div unat base"
  have above: "\<not> x \<le> 2 ^ 64 - 1 \<longleftrightarrow> 2 ^ 64 \<le> x" for x :: nat by auto
  have m: "unat (- 1 :: u64) = 2 ^ 64 - 1" by (simp add: unsigned_minus_1_eq_mask mask_eq_exp_minus_1)
  have "?q \<le> (2 ^ 64 - 1) div 2" by (rule div_le_mono2) (use assms in simp_all)
  then have q: "?q < 2 ^ 63" by simp
  have "unat ((- 1) div base) = ?q" by (simp add: unat_div_distrib m)
  then have c: "unat ((- 1) div base + 1) = ?q + 1" using q by (subst unat_add_lem [THEN iffD1]) simp_all
  have "(- 1) div base + 1 \<le> n \<longleftrightarrow> ?q < unat n" by (simp add: word_le_nat_alt c Suc_le_eq)
  also have "\<dots> \<longleftrightarrow> \<not> unat n * unat base \<le> 2 ^ 64 - 1"
    using assms by (subst not_le [symmetric]) (simp add: less_eq_div_iff_mult_less_eq)
  also have "\<dots> \<longleftrightarrow> 2 ^ 64 \<le> unat n * unat base" by (rule above)
  finally show ?thesis .
qed

lemma add_wraps:
  fixes x :: u64
  assumes "d < 2 ^ 64"
  shows "x + of_nat d < x \<longleftrightarrow> 2 ^ 64 \<le> unat x + d"
    and "\<not> 2 ^ 64 \<le> unat x + d \<Longrightarrow> unat (x + of_nat d) = unat x + d"
proof -
  have d: "unat (of_nat d :: u64) = d" using assms by (simp add: unat_of_nat)
  have x: "unat x < 2 ^ 64" using unsigned_less [of x] by simp
  have s: "unat (x + of_nat d) = (unat x + d) mod 2 ^ 64" by (simp add: unat_word_ariths d)
  show "\<not> 2 ^ 64 \<le> unat x + d \<Longrightarrow> unat (x + of_nat d) = unat x + d" by (simp add: s)
  show "x + of_nat d < x \<longleftrightarrow> 2 ^ 64 \<le> unat x + d"
  proof (cases "2 ^ 64 \<le> unat x + d")
    case True
    then have "(unat x + d) mod 2 ^ 64 = unat x + d - 2 ^ 64" using x assms by (simp add: mod_if)
    then show ?thesis using True assms by (simp add: word_less_nat_alt s)
  next
    case False
    then show ?thesis by (simp add: word_less_nat_alt s)
  qed
qed

lemma digits_loop_exact:
  assumes "2 \<le> unat base" and "list_all (is_digit_of base) s"
  shows "digits_loop base s n =
    (let v = digits_from (unat base) (unat n) s in if v < 2 ^ 64 then Inr (of_nat v) else Inl RangeError)"
  using assms(2)
proof (induction s arbitrary: n)
  case Nil
  have "unat n < 2 ^ 64" using unsigned_less [of n] by simp
  then show ?case by simp
next
  case (Cons c s)
  let ?b = "unat base"
  obtain d where d: "digit_value c = Some d" "d < ?b" using Cons.prems by (auto simp: is_digit_of_def)
  have c: "c \<noteq> CHR ''_''" using d by (auto simp: digit_value_def lower_case_def)
  have d64: "d < 2 ^ 64" using digit_value_less [OF d(1)] by simp
  have ge: "unat n * ?b + d \<le> digits_from ?b (unat n * ?b + d) s" using assms(1) by (intro digits_from_ge) simp
  show ?case
  proof (cases "2 ^ 64 \<le> unat n * ?b")
    case True
    then show ?thesis using d c ge by (simp add: cutoff [OF assms(1)] Let_def)
  next
    case False
    then have m: "unat (n * base) = unat n * ?b" by (simp add: unat_mult_lem [THEN iffD1])
    show ?thesis
    proof (cases "2 ^ 64 \<le> unat n * ?b + d")
      case True
      then have "n * base + of_nat d < n * base" using add_wraps(1) [OF d64, of "n * base"] m by simp
      then show ?thesis using d c ge False True by (simp add: cutoff [OF assms(1)] Let_def)
    next
      case small: False
      then have u: "unat (n * base + of_nat d) = unat n * ?b + d"
        and w: "\<not> n * base + of_nat d < n * base"
        using add_wraps [OF d64, of "n * base"] m by simp_all
      have "list_all (is_digit_of base) s" using Cons.prems by simp
      from Cons.IH [OF this, of "n * base + of_nat d"] show ?thesis
        using d c False w by (simp add: cutoff [OF assms(1)] Let_def u)
    qed
  qed
qed

section \<open>Decimal numbers\<close>

lemma decimal_digit: "k < 10 \<Longrightarrow> digit_value (char_of (48 + k)) = Some k"
  by (simp add: digit_value_def)

lemma decimal_is_digit: "(k :: nat) < 10 \<Longrightarrow> is_digit_of 10 (char_of (48 + k))"
  by (simp add: is_digit_of_def decimal_digit)

lemma show_nat_decimal: "list_all (is_digit_of 10) (show_nat n) \<and> digits_from 10 0 (show_nat n) = n"
proof (induction n rule: show_nat.induct)
  case (1 n)
  have d: "n mod 10 < 10" by simp
  show ?case
  proof (cases "n < 10")
    case True
    then show ?thesis by (simp add: show_nat.simps [of n] decimal_is_digit decimal_digit)
  next
    case False
    then have "list_all (is_digit_of 10) (show_nat (n div 10)) \<and> digits_from 10 0 (show_nat (n div 10)) = n div 10"
      by (rule 1)
    then show ?thesis
      using False by (simp add: show_nat.simps [of n] decimal_is_digit [OF d] decimal_digit [OF d])
  qed
qed

lemma show_nat_head: "0 < n \<Longrightarrow> show_nat n \<noteq> [] \<and> hd (show_nat n) \<noteq> CHR ''0''"
proof (induction n rule: show_nat.induct)
  case (1 n)
  show ?case
  proof (cases "n < 10")
    case True
    then have "byte_code (char_of (48 + n)) = 48 + n" by simp
    moreover have "byte_code (CHR ''0'') = 48" by simp
    ultimately have "char_of (48 + n) \<noteq> CHR ''0''" using 1(2) by (metis add_cancel_left_right less_not_refl)
    then show ?thesis using True by (simp add: show_nat.simps [of n])
  next
    case False
    then have "show_nat (n div 10) \<noteq> [] \<and> hd (show_nat (n div 10)) \<noteq> CHR ''0''" using 1 by simp
    then show ?thesis using False by (simp add: show_nat.simps [of n])
  qed
qed

lemma decimal_no_underscore: "list_all (is_digit_of b) s \<Longrightarrow> CHR ''_'' \<notin> set s"
  by (auto simp: list_all_iff is_digit_of_def digit_value_def lower_case_def)

lemma parse_uint_decimal:
  assumes "0 < n"
  shows "parse_uint (show_nat n) = (if n < 2 ^ 64 then Inr (of_nat n) else Inl RangeError)"
proof -
  have h: "show_nat n \<noteq> []" "hd (show_nat n) \<noteq> CHR ''0''" using show_nat_head [OF assms] by auto
  have "digits_loop 10 (show_nat n) 0 = (if n < 2 ^ 64 then Inr (of_nat n) else Inl RangeError)"
    using digits_loop_exact [of 10 "show_nat n" 0] show_nat_decimal [of n] by (simp add: Let_def)
  moreover have "CHR ''_'' \<notin> set (show_nat n)" using show_nat_decimal decimal_no_underscore by blast
  ultimately show ?thesis using h by (simp add: parse_uint_def number_base_def)
qed

section \<open>Command lines\<close>

text \<open>The options as a user writes them, and what they mean.\<close>

datatype netmon_option = NoDNS | CacheMax nat

fun option_args :: "netmon_option \<Rightarrow> string list" where
  "option_args NoDNS = [''--no-dns'']"
| "option_args (CacheMax k) = [''--dns-cache-max'', show_nat k]"

fun option_ok :: "netmon_option \<Rightarrow> bool" where
  "option_ok NoDNS \<longleftrightarrow> True"
| "option_ok (CacheMax k) \<longleftrightarrow> 0 < k \<and> k \<le> 1000000"

fun apply_option :: "settings \<Rightarrow> netmon_option \<Rightarrow> settings" where
  "apply_option f NoDNS = (fst f, True, snd (snd f))"
| "apply_option f (CacheMax k) = (fst f, fst (snd f), of_nat k)"

lemma read_flags [simp]:
  "read_argument ''--no-dns'' = Flag ''no-dns'' None"
  "read_argument ''--dns-cache-max'' = Flag ''dns-cache-max'' None"
  "read_argument ''--cgroup-id'' = Flag ''cgroup-id'' None"
  by (simp_all add: read_argument_def)

lemma parse_options:
  "list_all option_ok os \<Longrightarrow> parse_flags (concat (map option_args os)) f = Inr (foldl apply_option f os)"
proof (induction os arbitrary: f)
  case (Cons opt os)
  obtain i d c where f: "f = (i, d, c)" by (metis prod_cases3)
  show ?case
  proof (cases opt)
    case NoDNS
    then show ?thesis using Cons by simp
  next
    case (CacheMax k)
    then have "parse_uint (show_nat k) = Inr (of_nat k)" using Cons.prems by (simp add: parse_uint_decimal)
    then show ?thesis using Cons CacheMax by (simp add: set_number_def f)
  qed
qed simp

lemma apply_options_id: "fst (foldl apply_option f os) = fst f"
proof (induction os arbitrary: f)
  case (Cons opt os)
  then show ?case by (cases opt) simp_all
qed simp

lemma apply_options_cache:
  "list_all option_ok os \<Longrightarrow> 0 < snd (snd f) \<and> snd (snd f) \<le> 1000000 \<Longrightarrow>
    0 < snd (snd (foldl apply_option f os)) \<and> snd (snd (foldl apply_option f os)) \<le> 1000000"
proof (induction os arbitrary: f)
  case (Cons opt os)
  have "0 < snd (snd (apply_option f opt)) \<and> snd (snd (apply_option f opt)) \<le> 1000000"
  proof (cases opt)
    case (CacheMax k)
    then have "0 < k \<and> k \<le> 1000000" using Cons.prems by simp
    moreover from this have "unat (of_nat k :: u64) = k" by (simp add: unat_of_nat)
    ultimately show ?thesis by (simp add: CacheMax word_less_nat_alt word_le_nat_alt)
  qed (use Cons.prems in simp)
  then show ?case using Cons by simp
qed simp

text \<open>The command bpf_log.sh runs for \<open>StartNetmon c rest\<close>.\<close>

definition netmon_args :: "string \<Rightarrow> string list \<Rightarrow> string list" where
  "netmon_args c rest = ''--cgroup-id'' # c # rest"

lemma netmon_args_read:
  assumes "0 < n" and "n < 2 ^ 64" and "list_all option_ok os"
  shows "parse_flags (netmon_args (show_nat n) (concat (map option_args os))) f =
    Inr (foldl apply_option (of_nat n, snd f) os)"
proof -
  obtain i d c where f: "f = (i, d, c)" by (metis prod_cases3)
  show ?thesis using assms parse_options
    by (simp add: netmon_args_def set_number_def parse_uint_decimal f)
qed

text \<open>The number of a second \<open>--cgroup-id\<close> is the one that counts.\<close>

lemma cgroup_id_replaced:
  assumes "0 < n" and "n < 2 ^ 64" and "0 < m" and "m < 2 ^ 64"
  shows "parse_flags (netmon_args (show_nat n) [''--cgroup-id'', show_nat m]) f = Inr (of_nat m, snd f)"
  using assms by (cases f) (simp add: netmon_args_def set_number_def parse_uint_decimal)

text \<open>
  A value after a boolean flag is no value of it: it ends the flags, and what follows is ignored
  without a word.
\<close>

lemma flags_after_value_ignored:
  "parse_flags (''--no-dns'' # ''false'' # args) (i, d, c) = Inr (i, True, c)"
  by (simp add: read_argument_def [of "''false''"])

lemma attach_announces_nothing: "Announce p i \<notin> set (fst (attach_loop a names links))"
  by (induction names arbitrary: links) (auto simp: closeLinks_def Let_def case_prod_beta)

text \<open>What \<open>run\<close> announces is the directory found for the id it was given.\<close>

lemma announced_cgroup:
  assumes "Announce p i \<in> set (fst (run w))" and "w_flags w = Inr (cid, noDNS, cap)"
  shows "i = cid \<and> cgroupPathFromID (w_root w) cid = Some p"
  using assms attach_announces_nothing [of p i "w_attach w" "program_names noDNS" "[]"]
  by (auto simp: run_def run_loaded_def attachPrograms_def Let_def closeLinks_def
      split: if_splits option.splits sum.splits prod.splits)

section \<open>The rest of main.go\<close>

definition checkCgroup2 :: "int option \<Rightarrow> bool" where
  "checkCgroup2 fs_type \<longleftrightarrow> fs_type = Some 0x63677270"

text \<open>\<open>monoNS\<close> of the two fields of a \<open>Timespec\<close>.\<close>

definition monoNS :: "int \<Rightarrow> int \<Rightarrow> u64" where
  "monoNS sec nsec = of_int sec * 1000000000 + of_int nsec"

lemma monoNS_exact:
  assumes "0 \<le> sec" and "0 \<le> nsec" and "sec * 1000000000 + nsec < 2 ^ 64"
  shows "uint (monoNS sec nsec) = sec * 1000000000 + nsec"
proof -
  have "monoNS sec nsec = word_of_int (sec * 1000000000 + nsec)" by (simp add: monoNS_def)
  then have "uint (monoNS sec nsec) = take_bit 64 (sec * 1000000000 + nsec)" by (simp only: unsigned_of_int) simp
  then show ?thesis using assms by (simp add: take_bit_int_eq_self)
qed

text \<open>Before \<open>main\<close>, \<open>init\<close> ends the program on a system other than Linux.\<close>

definition program_exit :: "(string \<Rightarrow> string) \<Rightarrow> string \<Rightarrow> int option \<Rightarrow> string list \<Rightarrow> world \<Rightarrow> nat" where
  "program_exit quote goos fs_type args w =
     (if goos \<noteq> ''linux'' then 1
      else exitCode (snd (run ((with_args quote args w)\<lparr>w_cgroup2 := checkCgroup2 fs_type\<rparr>))))"

lemma no_cgroup2:
  assumes "fs_type \<noteq> Some 0x63677270" and "parse_flags args (0, False, defaultCacheMax) = Inr (cid, noDNS, cap)"
    and "cid \<noteq> 0" and "0 < cap" and "cap \<le> 1000000"
  shows "program_exit quote ''linux'' fs_type args w = 1"
proof -
  have "\<not> cap > 1000000" and "cap \<noteq> 0" using assms(4,5) by auto
  then show ?thesis using assms(1-3) by (simp add: program_exit_def with_args_def run_def checkCgroup2_def exitCode_def)
qed

section \<open>Properties\<close>

text \<open>
  C25. The inode bpf_log.sh has resolved for the container, a positive number below 2^64, is the
  id netmon works with, as long as the options the user adds are --no-dns and --dns-cache-max with
  a size from 1 to 1000000: the command line is read back to that number and those options, the
  checks of the settings pass, and the only cgroup netmon ever announces is the directory with
  that inode. A further --cgroup-id among the options would replace the number
  (cgroup_id_replaced).
\<close>

theorem monitor_gets_container_cgroup:
  assumes "StartNetmon c rest \<in> set (fst (bpf_log lw e (container # concat (map option_args os))))"
    and "resolve_container_cgroup lw 0 = Some (show_nat n)" and "0 < n" and "n < 2 ^ 64"
    and "list_all option_ok os"
  shows "parse_flags (netmon_args c rest) (0, False, defaultCacheMax) =
      Inr (foldl apply_option (of_nat n, False, defaultCacheMax) os) \<and>
    args_ok (with_args quote (netmon_args c rest) w) \<and>
    (\<forall>p i. Announce p i \<in> set (fst (run (with_args quote (netmon_args c rest) w))) \<longrightarrow>
      unat i = n \<and> cgroupPathFromID (w_root w) i = Some p)"
proof -
  let ?f = "foldl apply_option (of_nat n, False, defaultCacheMax) os"
  obtain id noDNS cap where f: "?f = (id, noDNS, cap)" by (metis prod_cases3)
  have "c = show_nat n" and "rest = concat (map option_args os)"
    using monitors_share_container [OF assms(1)] assms(2) by auto
  then have read: "parse_flags (netmon_args c rest) (0, False, defaultCacheMax) = Inr (id, noDNS, cap)"
    using netmon_args_read [OF assms(3-5), of "(0, False, defaultCacheMax)"] f by simp
  then have flags: "w_flags (with_args quote (netmon_args c rest) w) = Inr (id, noDNS, cap)"
    by (simp add: with_args_def)
  have id: "id = of_nat n" using apply_options_id [of "(of_nat n, False, defaultCacheMax)" os] f by simp
  have n: "unat (of_nat n :: u64) = n" using assms(4) by (simp add: unat_of_nat)
  then have "id \<noteq> 0" using assms(3) id by (metis less_irrefl unat_0)
  moreover have "0 < cap \<and> cap \<le> 1000000"
    using apply_options_cache [OF assms(5), of "(of_nat n, False, defaultCacheMax)"] f by (simp add: defaultCacheMax_def)
  ultimately have "args_ok (with_args quote (netmon_args c rest) w)" by (simp add: args_ok_def flags)
  moreover have "unat i = n \<and> cgroupPathFromID (w_root w) i = Some p"
    if "Announce p i \<in> set (fst (run (with_args quote (netmon_args c rest) w)))" for p i
    using announced_cgroup [OF that flags] id n by (simp add: with_args_def)
  ultimately show ?thesis using read f by simp
qed

theorem monitor_gets_container_cgroup_witness:
  "parse_flags (netmon_args ''71'' [''--no-dns'', ''--dns-cache-max'', ''8192'']) (0, False, defaultCacheMax) = Inr (71, True, 8192)"
proof -
  let ?w = "\<lparr>lw_command = (\<lambda>c. True), lw_audit = True, lw_make = 0, lw_netmon = True,
    lw_inspect = (\<lambda>i. Some (''true'', ''1'')), lw_fstype = (\<lambda>p. ''cgroup2fs''), lw_inode = (\<lambda>p. Some ''71''),
    lw_rel = (\<lambda>p. []), lw_dir = (\<lambda>p. True), lw_exists = (\<lambda>p. True), lw_sudo = 0\<rparr>"
  let ?os = "[NoDNS, CacheMax 8192]"
  have shown: "show_nat 71 = ''71''" "show_nat 8192 = ''8192''" by (simp_all add: show_nat.simps [of 71] show_nat.simps [of 7] show_nat.simps [of 8192] show_nat.simps [of 819] show_nat.simps [of 81] show_nat.simps [of 8] char_of_def bit_0)
  have pid: "running_pid ?w i = Some ''1''" for i by (simp add: running_pid_def is_pid_def)
  have c: "resolve_container_cgroup ?w 0 = Some (show_nat 71)" by (simp add: resolve_container_cgroup_def pid shown)
  have "resolve_container_mntns ?w 1 = Some ''71''" by (simp add: resolve_container_mntns_def pid)
  then have "StartNetmon ''71'' (concat (map option_args ?os)) \<in> set (fst (bpf_log ?w Interrupt (''box'' # concat (map option_args ?os))))"
    using c by (simp add: bpf_log_def shown)
  from monitor_gets_container_cgroup [OF this c] show ?thesis by (simp add: shown)
qed

end
