(* ===== verification/JsText.thy ===== *)
theory JsText
  imports Complex_Main "HOL-Library.Word"
begin

text \<open>
  The part of JavaScript strings that src/src/visualization uses: strings are lists of UTF-16 code
  units; \<open>trim\<close> and the whitespace class \<open>\s\<close>, splitting at line ends, slices, \<open>Number\<close> of a string.
\<close>

type_synonym unit16 = "16 word"
type_synonym jstr = "unit16 list"

definition js :: "string \<Rightarrow> jstr" where
  "js s = map of_char s"

lemma js_simps [simp]: "js [] = []" "js (s @ s') = js s @ js s'"
  by (simp_all add: js_def)

lemma js_eq_Nil [simp]: "js s = [] \<longleftrightarrow> s = []"
  by (simp add: js_def)

lemma js_literal: "js (c # s) = of_char c # js s"
  by (simp add: js_def)

lemma unat_of_char [simp]: "unat (of_char c :: unit16) = of_char c"
proof -
  have "of_char c = (of_char c mod 256 :: nat)" by simp
  also have "\<dots> < 256" by (rule mod_less_divisor) simp
  finally have "of_char c < (65536 :: nat)" by linarith
  then have "unat (of_nat (of_char c) :: unit16) = of_char c" by (simp add: unat_of_nat)
  then show ?thesis by (simp only: of_nat_of_char)
qed

lemma of_char_eq [simp]: "(of_char c :: unit16) = of_char d \<longleftrightarrow> c = d"
  by (metis unat_of_char of_char_eq_iff)

lemma js_eq [simp]: "js s = js t \<longleftrightarrow> s = t"
  by (auto simp: js_def inj_def intro: map_injective)

lemma length_js [simp]: "length (js s) = length s"
  by (simp add: js_def)

section \<open>Whitespace\<close>

text \<open>WhiteSpace and LineTerminator of the language, which \<open>\s\<close> and \<open>trim\<close> share.\<close>

definition is_space :: "unit16 \<Rightarrow> bool" where
  "is_space c \<longleftrightarrow> c \<in> {9, 10, 11, 12, 13, 32, 0xA0, 0x1680, 0x2028, 0x2029, 0x202F, 0x205F, 0x3000, 0xFEFF} \<or>
     0x2000 \<le> c \<and> c \<le> 0x200A"

definition trim_start :: "jstr \<Rightarrow> jstr" where
  "trim_start s = dropWhile is_space s"

definition trim_end :: "jstr \<Rightarrow> jstr" where
  "trim_end s = rev (dropWhile is_space (rev s))"

definition trim :: "jstr \<Rightarrow> jstr" where
  "trim s = trim_end (trim_start s)"

lemma dropWhile_id: "xs = [] \<or> \<not> P (hd xs) \<Longrightarrow> dropWhile P xs = xs"
  by (cases xs) auto

lemma trim_id: "s = [] \<or> \<not> is_space (hd s) \<and> \<not> is_space (last s) \<Longrightarrow> trim s = s"
  by (auto simp: trim_def trim_start_def trim_end_def dropWhile_id hd_rev)

lemma trim_nospace: "\<forall>c\<in>set s. \<not> is_space c \<Longrightarrow> trim s = s"
  by (rule trim_id) (cases "s = []"; simp)

lemma trim_ends: "trim s = [] \<or> \<not> is_space (hd (trim s)) \<and> \<not> is_space (last (trim s))"
proof (cases "trim s = []")
  case False
  define t where "t = dropWhile is_space s"
  define u where "u = dropWhile is_space (rev t)"
  have ts: "trim s = rev u" by (simp add: trim_def trim_start_def trim_end_def t_def u_def)
  with False have u: "u \<noteq> []" by simp
  then have hu: "\<not> is_space (hd u)" unfolding u_def by (rule hd_dropWhile)
  have tn: "t \<noteq> []" using u by (auto simp: u_def)
  then have ht: "\<not> is_space (hd t)" unfolding t_def by (rule hd_dropWhile)
  have "rev t = takeWhile is_space (rev t) @ u" by (simp add: u_def)
  then have "last u = last (rev t)" using u by (metis last_append)
  also have "\<dots> = hd t" using tn by (simp add: last_rev)
  finally have "last u = hd t" .
  with ht hu u ts show ?thesis by (simp add: hd_rev last_rev)
qed simp

lemma trim_trim [simp]: "trim (trim s) = trim s"
  by (rule trim_id [OF trim_ends])

lemma set_trim: "set (trim s) \<subseteq> set s"
  by (auto simp: trim_def trim_start_def trim_end_def dest!: set_dropWhileD)

section \<open>Slices and lines\<close>

definition slice :: "nat \<Rightarrow> nat \<Rightarrow> jstr \<Rightarrow> jstr" where
  "slice from to s = take (to - from) (drop from s)"

lemma slice_append [simp]:
  "length p = n \<Longrightarrow> m = n + length s \<Longrightarrow> slice n m (p @ s @ q) = s"
  by (simp add: slice_def)

text \<open>\<open>split(/\r?\n/)\<close>.\<close>

fun split_lines :: "jstr \<Rightarrow> jstr list" where
  "split_lines [] = [[]]"
| "split_lines (c # s) =
     (if c = 10 then [] # split_lines s
      else if c = 13 \<and> s \<noteq> [] \<and> hd s = 10 then split_lines s
      else case split_lines s of [] \<Rightarrow> [[c]] | l # ls \<Rightarrow> (c # l) # ls)"

lemma split_lines_not_Nil [simp]: "split_lines s \<noteq> []"
  by (induction s) (auto split: list.split)

lemma split_lines_line:
  "10 \<notin> set l \<Longrightarrow> l = [] \<or> last l \<noteq> 13 \<Longrightarrow> split_lines (l @ 10 # s) = l # split_lines s"
proof (induction l)
  case (Cons c l)
  have ne: "\<not> (c = 13 \<and> hd (l @ 10 # s) = 10)"
    using Cons.prems by (cases l) auto
  have "split_lines (l @ 10 # s) = l # split_lines s"
    using Cons by (cases "l = []") auto
  then show ?case using Cons.prems ne by auto
qed simp

lemma split_lines_last:
  "10 \<notin> set l \<Longrightarrow> split_lines l = [l]"
  by (induction l) (auto dest: hd_in_set)

text \<open>No line holds a line feed, and joining the lines with it gives the text back, up to CR LF.\<close>

lemma split_lines_no_lf: "l \<in> set (split_lines s) \<Longrightarrow> 10 \<notin> set l"
  by (induction s arbitrary: l) (auto split: if_splits list.splits)

section \<open>Numbers\<close>

definition is_digit :: "unit16 \<Rightarrow> bool" where
  "is_digit c \<longleftrightarrow> 48 \<le> c \<and> c \<le> 57"

definition digits_value :: "jstr \<Rightarrow> nat" where
  "digits_value s = foldl (\<lambda>n c. 10 * n + (unat c - 48)) 0 s"

text \<open>
  \<open>Number(s)\<close> where it is finite, \<open>None\<close> where it is not: blank text is 0, decimal digits below
  \<open>2^53\<close> are the integer itself. The other literal forms (fractions, exponents, radix prefixes,
  signs, longer integers with their rounding) are the parameter \<open>other\<close>.
\<close>

definition to_number :: "(jstr \<Rightarrow> rat option) \<Rightarrow> jstr \<Rightarrow> rat option" where
  "to_number other s =
     (let t = trim s in
      if t = [] then Some 0
      else if list_all is_digit t \<and> digits_value t < 2 ^ 53 then Some (of_nat (digits_value t))
      else other t)"

end
