(* ===== verification/VisServer.thy ===== *)
theory VisServer
  imports JsText NetmonPipeline
begin

text \<open>
  The log server src/src/visualization/server.js: parsing of posted lines into events, the bounded
  event buffer, and the event stream to the connected dashboards. Fastify, the clock, the random
  event id and \<open>Date.parse\<close> are parameters.
\<close>

section \<open>Fields of a line\<close>

definition is_ident_start :: "unit16 \<Rightarrow> bool" where
  "is_ident_start c \<longleftrightarrow> 65 \<le> c \<and> c \<le> 90 \<or> 97 \<le> c \<and> c \<le> 122 \<or> c = 95"

definition is_word :: "unit16 \<Rightarrow> bool" where
  "is_word c \<longleftrightarrow> is_ident_start c \<or> is_digit c"

text \<open>\<open>([A-Za-z_][\w]*)=\<close> at the front of a text: the identifier. No backtracking can help, as
  \<open>=\<close> is not a word character.\<close>

definition ident_eq :: "jstr \<Rightarrow> jstr option" where
  "ident_eq s = (case s of
     [] \<Rightarrow> None
   | c # r \<Rightarrow>
       if is_ident_start c \<and> dropWhile is_word r \<noteq> [] \<and> hd (dropWhile is_word r) = 61
       then Some (c # takeWhile is_word r) else None)"

text \<open>The whole expression \<open>(?:^|\s)([A-Za-z_][\w]*)=\<close> at one position: key and match length.\<close>

definition match_at :: "bool \<Rightarrow> jstr \<Rightarrow> (jstr \<times> nat) option" where
  "match_at start s =
     (case (if start then ident_eq s else None) of
        Some k \<Rightarrow> Some (k, length k + 1)
      | None \<Rightarrow> (case s of
            [] \<Rightarrow> None
          | c # r \<Rightarrow> if is_space c then map_option (\<lambda>k. (k, length k + 2)) (ident_eq r) else None))"

lemma match_at_pos: "match_at b s = Some (k, n) \<Longrightarrow> 0 < n \<and> s \<noteq> []"
  by (auto simp: match_at_def ident_eq_def split: option.splits list.splits if_splits)

text \<open>\<open>matchAll\<close>: index, match length and key of each match, from position \<open>i\<close> on.\<close>

function field_matches :: "nat \<Rightarrow> jstr \<Rightarrow> (nat \<times> nat \<times> jstr) list" where
  "field_matches i s = (case match_at (i = 0) s of
     Some (k, n) \<Rightarrow> (i, n, k) # field_matches (i + n) (drop n s)
   | None \<Rightarrow> (case s of [] \<Rightarrow> [] | c # r \<Rightarrow> field_matches (i + 1) r))"
  by pat_completeness auto

termination field_matches
  by (relation "measure (\<lambda>(i, s). length s)") (auto dest: match_at_pos)

declare field_matches.simps [simp del]

fun field_entries :: "jstr \<Rightarrow> (nat \<times> nat \<times> jstr) list \<Rightarrow> (jstr \<times> jstr) list" where
  "field_entries text [] = []"
| "field_entries text ((i, n, k) # ms) =
     (k, trim (slice (i + n) (case ms of [] \<Rightarrow> length text | (j, _, _) # _ \<Rightarrow> j) text)) #
     field_entries text ms"

text \<open>
  The assignments \<open>fields[key] = value\<close> on an object literal, in order. Assigning a string to
  \<open>__proto__\<close> does nothing.
\<close>

definition assign_field :: "(jstr \<rightharpoonup> jstr) \<Rightarrow> jstr \<times> jstr \<Rightarrow> (jstr \<rightharpoonup> jstr)" where
  "assign_field flds e = (if fst e = js ''__proto__'' then flds else flds(fst e \<mapsto> snd e))"

definition parse_fields :: "jstr \<Rightarrow> (jstr \<rightharpoonup> jstr)" where
  "parse_fields text = foldl assign_field Map.empty (field_entries text (field_matches 0 text))"

section \<open>Time stamps\<close>

text \<open>\<open>Z|[+-]\d\d:?\d\d\<close>, up to the end of the text.\<close>

definition is_zone :: "jstr \<Rightarrow> bool" where
  "is_zone z \<longleftrightarrow> z = [90] \<or>
     (case z of
        s # a # b # r \<Rightarrow> s \<in> {43, 45} \<and> is_digit a \<and> is_digit b \<and>
          (case r of
             [c, d] \<Rightarrow> is_digit c \<and> is_digit d
           | [e, c, d] \<Rightarrow> e = 58 \<and> is_digit c \<and> is_digit d
           | _ \<Rightarrow> False)
      | _ \<Rightarrow> False)"

text \<open>\<open>value.replace(/\.(\d{3})\d+(Z|[+-]\d\d:?\d\d)$/, '.$1$2')\<close>: the first match is cut to milliseconds.\<close>

fun millisecond_iso :: "jstr \<Rightarrow> jstr" where
  "millisecond_iso [] = []"
| "millisecond_iso (c # s) =
     (let ds = takeWhile is_digit s; z = dropWhile is_digit s in
      if c = 46 \<and> 4 \<le> length ds \<and> is_zone z then c # take 3 ds @ z
      else c # millisecond_iso s)"

text \<open>\<open>date_iso\<close> is \<open>Date.parse\<close> followed by \<open>toISOString\<close>, \<open>None\<close> where the date is \<open>NaN\<close>.\<close>

definition normalize_timestamp :: "(jstr \<Rightarrow> jstr option) \<Rightarrow> jstr option \<Rightarrow> jstr option" where
  "normalize_timestamp date_iso value = (case value of
     None \<Rightarrow> None
   | Some v \<Rightarrow> if v = [] then None else date_iso (millisecond_iso v))"

section \<open>Events\<close>

datatype jsval = Str jstr | Num rat | Null | Undefined

type_synonym event = "jstr \<rightharpoonup> jsval"

text \<open>What the server takes from its surroundings while it parses one line.\<close>

record surroundings =
  env_id :: jstr
  env_now :: jstr
  env_date :: "jstr \<Rightarrow> jstr option"
  env_number :: "jstr \<Rightarrow> rat option"

definition num_field :: "surroundings \<Rightarrow> jstr option \<Rightarrow> jsval" where
  "num_field env value = (case value of
     None \<Rightarrow> Undefined
   | Some v \<Rightarrow>
       if v = [] then Undefined
       else (case to_number (env_number env) v of Some n \<Rightarrow> Num n | None \<Rightarrow> Str v))"

definition str_or :: "jsval \<Rightarrow> jstr option \<Rightarrow> jsval" where
  "str_or d value = (case value of None \<Rightarrow> d | Some v \<Rightarrow> Str v)"

definition is_type :: "jstr \<Rightarrow> bool" where
  "is_type t \<longleftrightarrow> t \<noteq> [] \<and> list_all (\<lambda>c. 65 \<le> c \<and> c \<le> 90) t"

text \<open>The object literal of \<open>parseLine\<close>: \<open>...fields\<close> overrides the keys before it, the keys after it
  override \<open>fields\<close>.\<close>

definition event_object :: "surroundings \<Rightarrow> jstr \<Rightarrow> jstr \<Rightarrow> (jstr \<rightharpoonup> jstr) \<Rightarrow> event" where
  "event_object env line type flds =
     [js ''id'' \<mapsto> Str (env_id env),
      js ''raw'' \<mapsto> Str line,
      js ''type'' \<mapsto> Str type,
      js ''receivedAt'' \<mapsto> Str (env_now env)]
     ++ (\<lambda>k. map_option Str (flds k))
     ++ [js ''time'' \<mapsto> str_or Null (normalize_timestamp (env_date env) (flds (js ''time''))),
         js ''raw_time'' \<mapsto> str_or Undefined (flds (js ''time'')),
         js ''host_pid'' \<mapsto> num_field env (flds (js ''host_pid'')),
         js ''ppid'' \<mapsto> num_field env (flds (js ''ppid'')),
         js ''tid'' \<mapsto> num_field env (flds (js ''tid'')),
         js ''uid'' \<mapsto> num_field env (flds (js ''uid''))]"

definition parse_line :: "surroundings \<Rightarrow> jstr \<Rightarrow> event option" where
  "parse_line env line =
     (if 32 \<notin> set line then None
      else
        let firstSpace = length (takeWhile (\<lambda>c. c \<noteq> 32) line);
            type = trim (slice 0 firstSpace line)
        in if \<not> is_type type then None
           else Some (event_object env line type (parse_fields (drop (firstSpace + 1) line))))"

text \<open>
  The lines of a posted body. \<open>envs\<close> supplies id and clock of each line that is parsed, by its
  position.
\<close>

definition body_lines :: "jstr option \<Rightarrow> jstr list" where
  "body_lines body =
     filter (\<lambda>l. l \<noteq> []) (map trim (split_lines (case body of None \<Rightarrow> [] | Some b \<Rightarrow> b)))"

definition parse_body :: "(nat \<Rightarrow> surroundings) \<Rightarrow> jstr option \<Rightarrow> event list" where
  "parse_body envs body =
     List.map_filter (\<lambda>(i, l). parse_line (envs i) l) (enumerate 0 (body_lines body))"

section \<open>The server\<close>

text \<open>What is written to a dashboard's stream.\<close>

datatype frame = Snapshot "event list" | Events "event list" | Clear | Keepalive

record server =
  sv_events :: "event list"
  sv_clients :: "nat \<rightharpoonup> frame list"

datatype reply = Rejected | Accepted nat nat | Deleted | Listing "event list" | Streaming | Done

definition broadcast :: "frame \<Rightarrow> server \<Rightarrow> server" where
  "broadcast f s = s\<lparr>sv_clients := \<lambda>c. map_option (\<lambda>fs. fs @ [f]) (sv_clients s c)\<rparr>"

text \<open>\<open>MAX_EVENTS\<close> as \<open>parseInt\<close> gives it, \<open>None\<close> for \<open>NaN\<close>; \<open>splice\<close> from the front.\<close>

definition trim_log :: "int option \<Rightarrow> event list \<Rightarrow> event list" where
  "trim_log limit es = (case limit of
     None \<Rightarrow> es
   | Some m \<Rightarrow> if int (length es) > m then drop (nat (int (length es) - m)) es else es)"

definition store :: "int option \<Rightarrow> event list \<Rightarrow> server \<Rightarrow> server" where
  "store limit parsed s =
     broadcast (Events parsed) (s\<lparr>sv_events := trim_log limit (sv_events s @ parsed)\<rparr>)"

definition post_events ::
  "int option \<Rightarrow> (nat \<Rightarrow> surroundings) \<Rightarrow> jstr option \<Rightarrow> server \<Rightarrow> server \<times> reply" where
  "post_events limit envs body s =
     (let parsed = parse_body envs body in
      if parsed = [] then (s, Rejected)
      else
        let s' = store limit parsed s
        in (s', Accepted (length parsed) (length (sv_events s'))))"

definition wipe :: "server \<Rightarrow> server" where
  "wipe s = broadcast Clear (s\<lparr>sv_events := []\<rparr>)"

definition delete_events :: "server \<Rightarrow> server \<times> reply" where
  "delete_events s = (wipe s, Deleted)"

definition get_events :: "server \<Rightarrow> server \<times> reply" where
  "get_events s = (s, Listing (sv_events s))"

definition open_stream :: "nat \<Rightarrow> server \<Rightarrow> server \<times> reply" where
  "open_stream c s = (s\<lparr>sv_clients := (sv_clients s)(c \<mapsto> [Snapshot (sv_events s)])\<rparr>, Streaming)"

definition keepalive :: "nat \<Rightarrow> server \<Rightarrow> server \<times> reply" where
  "keepalive c s =
     (s\<lparr>sv_clients := (sv_clients s)(c := map_option (\<lambda>fs. fs @ [Keepalive]) (sv_clients s c))\<rparr>, Done)"

definition close_stream :: "nat \<Rightarrow> server \<Rightarrow> server \<times> reply" where
  "close_stream c s = (s\<lparr>sv_clients := (sv_clients s)(c := None)\<rparr>, Done)"

datatype request = Post "nat \<Rightarrow> surroundings" "jstr option" | Delete | Get | Stream nat | Tick nat | Close nat

fun serve :: "int option \<Rightarrow> request \<Rightarrow> server \<Rightarrow> server \<times> reply" where
  "serve limit (Post envs body) s = post_events limit envs body s"
| "serve limit Delete s = delete_events s"
| "serve limit Get s = get_events s"
| "serve limit (Stream c) s = open_stream c s"
| "serve limit (Tick c) s = keepalive c s"
| "serve limit (Close c) s = close_stream c s"

fun serve_all :: "int option \<Rightarrow> request list \<Rightarrow> server \<Rightarrow> server" where
  "serve_all limit [] s = s"
| "serve_all limit (r # rs) s = serve_all limit rs (fst (serve limit r s))"

definition new_server :: server where
  "new_server = \<lparr>sv_events = [], sv_clients = Map.empty\<rparr>"

section \<open>The buffer as a bounded log\<close>

text \<open>The newest \<open>n\<close> elements.\<close>

definition lastn :: "nat \<Rightarrow> 'a list \<Rightarrow> 'a list" where
  "lastn n xs = drop (length xs - n) xs"

lemma length_lastn [simp]: "length (lastn n xs) = min n (length xs)"
  by (simp add: lastn_def)

lemma lastn_Nil [simp]: "lastn n [] = []"
  by (simp add: lastn_def)

lemma lastn_short [simp]: "length xs \<le> n \<Longrightarrow> lastn n xs = xs"
  by (simp add: lastn_def)

lemma lastn_lastn: "lastn k (lastn n xs) = lastn (min k n) xs"
  by (cases "n \<le> length xs") (auto simp: lastn_def min_def intro!: arg_cong2 [where f = drop])

lemma lastn_append: "lastn n (xs @ ys) = lastn (n - length ys) xs @ lastn n ys"
  by (cases "n \<le> length ys") (auto simp: lastn_def intro!: arg_cong2 [where f = drop])

lemma lastn_append_cong: "lastn k xs = lastn k ys \<Longrightarrow> lastn k (xs @ zs) = lastn k (ys @ zs)"
proof -
  assume "lastn k xs = lastn k ys"
  then have "lastn (k - length zs) (lastn k xs) = lastn (k - length zs) (lastn k ys)" by simp
  then show ?thesis by (simp add: lastn_append lastn_lastn min_def split: if_splits)
qed

lemma lastn_append_lastn: "k \<le> n \<Longrightarrow> lastn k (lastn n xs @ ys) = lastn k (xs @ ys)"
  by (rule lastn_append_cong) (simp add: lastn_lastn min_absorb1)

text \<open>What a log is asked to do, and what it should hold without a bound.\<close>

datatype 'e log_op = Add "'e list" | Wipe

fun log_history :: "'e list \<Rightarrow> 'e log_op list \<Rightarrow> 'e list" where
  "log_history es [] = es"
| "log_history es (Add xs # ops) = log_history (es @ xs) ops"
| "log_history es (Wipe # ops) = log_history [] ops"

fun log_run :: "('e list \<Rightarrow> 's \<Rightarrow> 's) \<Rightarrow> ('s \<Rightarrow> 's) \<Rightarrow> 'e log_op list \<Rightarrow> 's \<Rightarrow> 's" where
  "log_run push clear [] s = s"
| "log_run push clear (Add xs # ops) s = log_run push clear ops (push xs s)"
| "log_run push clear (Wipe # ops) s = log_run push clear ops (clear s)"

locale bounded_log =
  fixes inv :: "'s \<Rightarrow> bool"
    and contents :: "'s \<Rightarrow> 'e list"
    and push :: "'e list \<Rightarrow> 's \<Rightarrow> 's"
    and clear :: "'s \<Rightarrow> 's"
    and cap :: nat
  assumes push_inv: "inv s \<Longrightarrow> inv (push xs s)"
    and clear_inv: "inv s \<Longrightarrow> inv (clear s)"
    and push_contents: "inv s \<Longrightarrow> lastn cap (contents (push xs s)) = lastn cap (contents s @ xs)"
    and clear_contents: "inv s \<Longrightarrow> contents (clear s) = []"
begin

lemma run_inv: "inv s \<Longrightarrow> inv (log_run push clear ops s)"
proof (induction ops arbitrary: s)
  case (Cons op ops)
  then show ?case by (cases op) (simp_all add: push_inv clear_inv)
qed simp

lemma history_cong: "lastn cap es = lastn cap es' \<Longrightarrow> lastn cap (log_history es ops) = lastn cap (log_history es' ops)"
proof (induction es ops arbitrary: es' rule: log_history.induct)
  case (2 es xs ops)
  then show ?case using lastn_append_cong [of cap es es' xs] by simp
qed simp_all

lemma run_contents:
  "inv s \<Longrightarrow> lastn cap (contents (log_run push clear ops s)) = lastn cap (log_history (contents s) ops)"
proof (induction ops arbitrary: s)
  case (Cons op ops)
  then show ?case
  proof (cases op)
    case (Add xs)
    with Cons have "lastn cap (contents (log_run push clear (op # ops) s)) =
        lastn cap (log_history (contents (push xs s)) ops)" by (simp add: push_inv)
    also have "\<dots> = lastn cap (log_history (contents s @ xs) ops)"
      by (rule history_cong) (rule push_contents [OF Cons.prems])
    finally show ?thesis using Add by simp
  next
    case Wipe
    then show ?thesis using Cons by (simp add: clear_inv clear_contents)
  qed
qed simp

end

lemma trim_log_lastn: "trim_log (Some m) es = lastn (nat m) es"
  by (cases "0 \<le> m") (auto simp: trim_log_def lastn_def nat_diff_distrib)

lemma sv_events_broadcast [simp]: "sv_events (broadcast f s) = sv_events s"
  by (simp add: broadcast_def)

text \<open>With a numeric bound the server is such a log; its bound holds at every moment.\<close>

interpretation server_log: bounded_log "\<lambda>s. length (sv_events s) \<le> nat m" sv_events "store (Some m)" wipe "nat m"
  for m
  by unfold_locales (simp_all add: store_def wipe_def trim_log_lastn lastn_lastn)

text \<open>The requests of a run that reach the log.\<close>

fun log_ops :: "request list \<Rightarrow> event log_op list" where
  "log_ops [] = []"
| "log_ops (Post envs body # rs) = Add (parse_body envs body) # log_ops rs"
| "log_ops (Delete # rs) = Wipe # log_ops rs"
| "log_ops (_ # rs) = log_ops rs"

lemma serve_events:
  "sv_events (fst (serve limit Get s)) = sv_events s"
  "sv_events (fst (serve limit (Stream c) s)) = sv_events s"
  "sv_events (fst (serve limit (Tick c) s)) = sv_events s"
  "sv_events (fst (serve limit (Close c) s)) = sv_events s"
  "sv_events (fst (serve limit Delete s)) = []"
  "sv_events (fst (serve limit (Post envs body) s)) =
     (if parse_body envs body = [] then sv_events s else trim_log limit (sv_events s @ parse_body envs body))"
  by (simp_all add: get_events_def open_stream_def keepalive_def close_stream_def delete_events_def wipe_def
      post_events_def store_def Let_def)

lemma serve_all_log:
  "length (sv_events s) \<le> nat m \<Longrightarrow>
     sv_events (serve_all (Some m) rs s) = lastn (nat m) (log_history (sv_events s) (log_ops rs))"
proof (induction rs arbitrary: s)
  case (Cons r rs)
  show ?case
  proof (cases r)
    case (Post envs body)
    let ?p = "parse_body envs body"
    have ev: "sv_events (fst (serve (Some m) r s)) = lastn (nat m) (sv_events s @ ?p)"
      using Cons.prems by (simp only: Post serve_events trim_log_lastn) simp
    then have "sv_events (serve_all (Some m) (r # rs) s) =
        lastn (nat m) (log_history (lastn (nat m) (sv_events s @ ?p)) (log_ops rs))"
      using Cons.IH [of "fst (serve (Some m) r s)"] by simp
    also have "\<dots> = lastn (nat m) (log_history (sv_events s @ ?p) (log_ops rs))"
      by (rule server_log.history_cong) (simp add: lastn_lastn)
    finally show ?thesis by (simp add: Post)
  next
    case Delete
    then show ?thesis using Cons.IH [of "fst (serve (Some m) r s)"]
      by (simp add: delete_events_def wipe_def)
  qed (use Cons in \<open>simp_all add: get_events_def open_stream_def keepalive_def close_stream_def\<close>)
qed simp

section \<open>Properties\<close>

text \<open>
  C29. After any requests the server's buffer holds exactly the newest MAX_EVENTS of the events
  posted since the last clear, in order; a post without a valid line is refused and changes
  nothing, any other is accepted with the number of its events.
\<close>

theorem server_keeps_newest:
  "sv_events (serve_all (Some m) rs new_server) = lastn (nat m) (log_history [] (log_ops rs)) \<and>
   (if parse_body envs body = [] then serve limit (Post envs body) s = (s, Rejected)
    else snd (serve limit (Post envs body) s) =
      Accepted (length (parse_body envs body)) (length (sv_events (fst (serve limit (Post envs body) s)))))"
  by (simp add: serve_all_log new_server_def post_events_def Let_def)

end
