(* ===== verification/VisFields.thy ===== *)
theory VisFields
  imports VisServer
begin

text \<open>
  From the monitor's CONNECT line to the server's event: the field scanner of server.js finds
  exactly the fields of a line \<open>TYPE k=v k=v ...\<close> whose values hold no \<open>=\<close>, so that the line printed
  by netmon comes back field by field.
\<close>

section \<open>Scanning rendered fields\<close>

definition is_identifier :: "jstr \<Rightarrow> bool" where
  "is_identifier k \<longleftrightarrow> k \<noteq> [] \<and> is_ident_start (hd k) \<and> list_all is_word (tl k)"

definition field_text :: "jstr \<times> jstr \<Rightarrow> jstr" where
  "field_text e = fst e @ 61 # snd e"

definition more_fields :: "(jstr \<times> jstr) list \<Rightarrow> jstr" where
  "more_fields es = concat (map (\<lambda>e. 32 # field_text e) es)"

definition wf_field :: "jstr \<times> jstr \<Rightarrow> bool" where
  "wf_field e \<longleftrightarrow> is_identifier (fst e) \<and> 61 \<notin> set (snd e)"

lemma not_word [simp]: "\<not> is_word 61" "\<not> is_word 32"
  by (simp_all add: is_word_def is_ident_start_def is_digit_def)

lemma is_space_space [simp]: "is_space 32" "is_space 10"
  by (simp_all add: is_space_def)

lemma identifier_word: "is_identifier k \<Longrightarrow> c \<in> set k \<Longrightarrow> is_word c"
  by (cases k) (auto simp: is_identifier_def is_word_def list_all_iff)

lemma ident_eq_hit: "is_identifier k \<Longrightarrow> ident_eq (k @ 61 # r) = Some k"
  by (cases k) (auto simp: is_identifier_def ident_eq_def takeWhile_append2 dropWhile_append2 list_all_iff
      takeWhile_eq_all_conv split: list.splits)

lemma ident_eq_shape:
  assumes "ident_eq s = Some k"
  shows "\<exists>r. s = k @ 61 # r \<and> 32 \<notin> set k"
proof -
  from assms obtain c t where s: "s = c # t" and st: "is_ident_start c"
    and ne: "dropWhile is_word t \<noteq> []" and hd: "hd (dropWhile is_word t) = 61" and k: "k = c # takeWhile is_word t"
    by (auto simp: ident_eq_def split: list.splits if_splits)
  have "t = takeWhile is_word t @ 61 # tl (dropWhile is_word t)"
    using ne hd by (metis list.collapse takeWhile_dropWhile_id)
  moreover have "32 \<notin> set k"
    using st by (auto simp: k is_ident_start_def dest: set_takeWhileD)
  ultimately show ?thesis using s k by auto
qed

lemma no_ident_without_eq: "61 \<notin> set s \<Longrightarrow> ident_eq s = None"
  by (cases "ident_eq s") (auto dest!: ident_eq_shape)

lemma match_at_field: "is_identifier k \<Longrightarrow> match_at False (32 # k @ 61 # r) = Some (k, length k + 2)"
  by (simp add: match_at_def ident_eq_hit)

lemma match_at_first: "is_identifier k \<Longrightarrow> match_at True (k @ 61 # r) = Some (k, length k + 1)"
  by (simp add: match_at_def ident_eq_hit)

lemma no_match_in_value:
  assumes "61 \<notin> set v" and "v \<noteq> []" and "r = [] \<or> hd r = 32"
  shows "match_at False (v @ r) = None"
proof (rule ccontr)
  assume "match_at False (v @ r) \<noteq> None"
  with assms(2) obtain c v' k where v: "v = c # v'" and "ident_eq (v' @ r) = Some k"
    by (cases v) (auto simp: match_at_def split: if_splits)
  from ident_eq_shape [OF this(2)] obtain q where e: "v' @ r = k @ 61 # q" and "32 \<notin> set k" by auto
  have q: "61 \<notin> set v'" using assms(1) v by simp
  from e obtain us where "v' = k @ us \<and> us @ r = 61 # q \<or> v' @ us = k \<and> r = us @ 61 # q"
    by (auto simp: append_eq_append_conv2)
  then show False using q assms(3) \<open>32 \<notin> set k\<close> by (cases us) auto
qed

lemma no_match_without_eq: "61 \<notin> set s \<Longrightarrow> field_matches i s = []"
proof (induction s arbitrary: i)
  case Nil
  then show ?case by (simp add: field_matches.simps [of i] match_at_def ident_eq_def)
next
  case (Cons c s)
  have "ident_eq (c # s) = None" and "ident_eq s = None"
    using Cons.prems by (auto intro: no_ident_without_eq)
  then have "match_at b (c # s) = None" for b by (simp add: match_at_def)
  with Cons show ?case by (simp add: field_matches.simps [of i])
qed

lemma matches_skip_value:
  "61 \<notin> set v \<Longrightarrow> 0 < i \<Longrightarrow> r = [] \<or> hd r = 32 \<Longrightarrow>
     field_matches i (v @ r) = field_matches (i + length v) r"
proof (induction v arbitrary: i)
  case (Cons c v)
  have "match_at (i = 0) ((c # v) @ r) = None" using no_match_in_value [of "c # v" r] Cons.prems by simp
  then have "field_matches i ((c # v) @ r) = field_matches (i + 1) (v @ r)"
    by (simp add: field_matches.simps [of i])
  with Cons show ?case by simp
qed simp

lemma matches_field:
  "is_identifier k \<Longrightarrow> 0 < i \<Longrightarrow>
     field_matches i (32 # k @ 61 # r) = (i, length k + 2, k) # field_matches (i + length k + 2) r"
  by (subst field_matches.simps) (simp add: match_at_field add.assoc)

lemma more_fields_Cons: "more_fields ((k, v) # es) = 32 # k @ 61 # v @ more_fields es"
  by (simp add: more_fields_def field_text_def)

lemma hd_more_fields: "more_fields es = [] \<or> hd (more_fields es) = 32"
  by (cases es) (auto simp: more_fields_def)

lemma entries_of_fields:
  "list_all wf_field es \<Longrightarrow> 61 \<notin> set v \<Longrightarrow> i + n = length p \<Longrightarrow> p \<noteq> [] \<Longrightarrow>
     field_entries (p @ v @ more_fields es) ((i, n, k) # field_matches (length p) (v @ more_fields es)) =
       (k, trim v) # map (\<lambda>e. (fst e, trim (snd e))) es"
proof (induction es arbitrary: p v i n k)
  case Nil
  then show ?case by (simp add: more_fields_def no_match_without_eq slice_def)
next
  case (Cons e es)
  obtain k' v' where e: "e = (k', v')" by (cases e)
  have wf: "is_identifier k'" "61 \<notin> set v'" using Cons.prems by (simp_all add: e wf_field_def)
  let ?p = "p @ v @ 32 # k' @ [61]"
  have "field_matches (length p) (v @ more_fields (e # es)) =
      (length p + length v, length k' + 2, k') # field_matches (length ?p) (v' @ more_fields es)"
    using Cons.prems wf by (simp add: e more_fields_Cons matches_skip_value matches_field add.assoc)
  moreover have "field_entries (?p @ v' @ more_fields es)
      ((length p + length v, length k' + 2, k') # field_matches (length ?p) (v' @ more_fields es)) =
      (k', trim v') # map (\<lambda>e. (fst e, trim (snd e))) es"
    by (rule Cons.IH) (use Cons.prems wf in simp_all)
  ultimately show ?case
    using Cons.prems by (simp add: e more_fields_Cons slice_def)
qed

lemma fields_assigned:
  "js ''__proto__'' \<notin> fst ` set es \<Longrightarrow> foldl assign_field m es = m ++ map_of (rev es)"
  by (induction es arbitrary: m) (auto simp: assign_field_def map_add_def fun_eq_iff split: option.splits)

lemma parse_fields_of_text:
  assumes "wf_field e" and "list_all wf_field es" and "js ''__proto__'' \<notin> fst ` set (e # es)"
  shows "parse_fields (field_text e @ more_fields es) =
    map_of (rev (map (\<lambda>e. (fst e, trim (snd e))) (e # es)))"
proof -
  obtain k v where e: "e = (k, v)" by (cases e)
  have wf: "is_identifier k" "61 \<notin> set v" using assms(1) by (simp_all add: e wf_field_def)
  let ?p = "k @ [61]" and ?t = "k @ 61 # v @ more_fields es"
  have "field_matches 0 ?t = (0, length k + 1, k) # field_matches (length ?p) (v @ more_fields es)"
    using wf by (subst field_matches.simps) (simp add: match_at_first)
  moreover have "field_entries (?p @ v @ more_fields es)
      ((0, length k + 1, k) # field_matches (length ?p) (v @ more_fields es)) =
      (k, trim v) # map (\<lambda>e. (fst e, trim (snd e))) es"
    by (rule entries_of_fields) (use assms wf in simp_all)
  ultimately have "field_entries ?t (field_matches 0 ?t) = map (\<lambda>e. (fst e, trim (snd e))) (e # es)"
    by (simp add: e)
  then show ?thesis
    using assms(3) by (simp add: e parse_fields_def field_text_def fields_assigned image_image assign_field_def eq_commute [of k])
qed

section \<open>The CONNECT line\<close>

text \<open>Text that cannot be taken for a field name or a line end, ASCII so that its UTF-8 is itself.\<close>

definition plain :: "string \<Rightarrow> bool" where
  "plain s \<longleftrightarrow> list_all (\<lambda>c. of_char c < (128 :: nat) \<and> of_char c \<noteq> (61 :: nat) \<and> of_char c \<noteq> (10 :: nat)) s"

definition solid :: "string \<Rightarrow> bool" where
  "solid s \<longleftrightarrow> plain s \<and> list_all (\<lambda>c. 32 < (of_char c :: nat)) s"

lemma plain_simps [simp]: "plain []" "plain (s @ t) \<longleftrightarrow> plain s \<and> plain t" "solid []" "solid (s @ t) \<longleftrightarrow> solid s \<and> solid t"
  by (auto simp: plain_def solid_def)

lemma plain_Cons [simp]:
  "plain (c # s) \<longleftrightarrow> of_char c < (128 :: nat) \<and> of_char c \<noteq> (61 :: nat) \<and> of_char c \<noteq> (10 :: nat) \<and> plain s"
  "solid (c # s) \<longleftrightarrow> of_char c < (128 :: nat) \<and> of_char c \<noteq> (61 :: nat) \<and> 32 < (of_char c :: nat) \<and> solid s"
  by (auto simp: plain_def solid_def)

lemma solid_plain: "solid s \<Longrightarrow> plain s"
  by (simp add: solid_def)

lemma in_js: "w \<in> set (js s) \<Longrightarrow> \<exists>c\<in>set s. of_char c = unat w"
  by (auto simp: js_def intro: bexI)

lemma plain_js: "plain s \<Longrightarrow> 61 \<notin> set (js s) \<and> 10 \<notin> set (js s)"
  by (auto simp: plain_def list_all_iff dest!: in_js)

lemma space_unat: "is_space c \<Longrightarrow> unat c \<le> 32 \<or> 128 \<le> unat c"
  by (auto simp: is_space_def word_le_nat_alt)

lemma solid_js: "solid s \<Longrightarrow> \<forall>c\<in>set (js s). \<not> is_space c"
  by (auto simp: solid_def plain_def js_def list_all_iff dest!: space_unat)

lemma show_nat_digits: "c \<in> set (show_nat n) \<Longrightarrow> 48 \<le> (of_char c :: nat) \<and> of_char c \<le> (57 :: nat)"
  by (induction n rule: show_nat.induct) (subst (asm) show_nat.simps, auto split: if_splits)

lemma solid_show_nat [simp]: "solid (show_nat n)"
  by (auto simp: solid_def plain_def list_all_iff dest!: show_nat_digits)

lemma solid_join: "list_all solid ss \<Longrightarrow> solid sep \<Longrightarrow> solid (join sep ss)"
  by (induction sep ss rule: join.induct) simp_all

lemma solid_show_hex [simp]: "solid (show_hex n)"
proof (induction n rule: show_hex.induct)
  case (1 n)
  have d: "of_char (hex_digit d) < (128 :: nat) \<and> of_char (hex_digit d) \<noteq> (61 :: nat) \<and> 32 < (of_char (hex_digit d) :: nat)"
    if "d < 16" for d
    using that by (simp add: hex_digit_def)
  show ?case
  proof (cases "n < 16")
    case True
    then show ?thesis by (subst show_hex.simps) (simp add: d)
  next
    case False
    then have "solid (show_hex (n div 16))" using 1 by simp
    moreover have "n mod 16 < 16" by simp
    ultimately show ?thesis using False d by (subst show_hex.simps) simp
  qed
qed

lemma list_all_solid_hex [simp]: "list_all solid (map show_hex ns)"
  by (simp add: list_all_iff)

lemma solid_show_ip: "solid (show_ip ip)"
  by (auto simp: show_ip_def show_ipv6_def Let_def list_all_iff intro!: solid_join split: list.split prod.split)

lemma solid_destination: "solid (destination_ip family raw)"
  by (simp add: destination_ip_def solid_show_ip)

lemma digits_value_append: "digits_value (s @ [c]) = 10 * digits_value s + (unat c - 48)"
  by (simp add: digits_value_def)

lemma is_digit_unat: "is_digit c \<longleftrightarrow> 48 \<le> unat c \<and> unat c \<le> 57"
  by (simp add: is_digit_def word_le_nat_alt)

lemma digits_show_nat: "list_all is_digit (js (show_nat n)) \<and> digits_value (js (show_nat n)) = n"
proof (induction n rule: show_nat.induct)
  case (1 n)
  have d: "js [char_of (48 + k)] = [of_char (char_of (48 + k))]" for k :: nat by (simp add: js_def)
  show ?case
  proof (cases "n < 10")
    case True
    then show ?thesis
      by (subst (1 2) show_nat.simps) (simp add: d is_digit_unat digits_value_def)
  next
    case False
    then have "list_all is_digit (js (show_nat (n div 10))) \<and> digits_value (js (show_nat (n div 10))) = n div 10"
      by (rule 1)
    then show ?thesis
      using False by (subst (1 2) show_nat.simps) (simp add: d is_digit_unat digits_value_append)
  qed
qed

lemma trim_solid [simp]: "solid s \<Longrightarrow> trim (js s) = js s"
  by (rule trim_nospace) (rule solid_js)

lemma num_field_show_nat: "n < 2 ^ 53 \<Longrightarrow> num_field env (Some (js (show_nat n))) = Num (of_nat n)"
  by (simp add: num_field_def to_number_def digits_show_nat)

section \<open>The line comes back\<close>

definition connect_fields :: "(u64 \<Rightarrow> string) \<Rightarrow> connect_line \<Rightarrow> (string \<times> string) list" where
  "connect_fields wall l =
     [(''time'', wall (cl_timestamp_ns l)),
      (''timestamp_ns'', show_nat (unat (cl_timestamp_ns l))),
      (''host_pid'', show_nat (unat (cl_pid l))),
      (''tid'', show_nat (unat (cl_tid l))),
      (''uid'', show_nat (unat (cl_uid l))),
      (''comm'', cl_comm l),
      (''protocol'', cl_protocol l),
      (''dst'', cl_destination l @ '':'' @ show_nat (unat (cl_port l))),
      (''hostnames'', join '','' (cl_hostnames l))]"

definition js_field :: "string \<times> string \<Rightarrow> jstr \<times> jstr" where
  "js_field e = (js (fst e), js (snd e))"

lemma newline: "(of_char (char_of (10 :: nat)) :: unit16) = 10"
  by (rule word_unat_eq_iff [THEN iffD2]) simp

lemma connect_text_fields:
  "js (connect_text wall l) = js ''CONNECT'' @ more_fields (map js_field (connect_fields wall l)) @ [10]"
  by (simp add: connect_text_def connect_fields_def more_fields_def field_text_def js_field_def js_literal newline)

text \<open>The conditions on the texts of a line; what \<open>print_connection\<close> computes itself satisfies them.\<close>

definition line_ok :: "(u64 \<Rightarrow> string) \<Rightarrow> connect_line \<Rightarrow> bool" where
  "line_ok wall l \<longleftrightarrow> wall (cl_timestamp_ns l) \<noteq> [] \<and> solid (wall (cl_timestamp_ns l)) \<and> plain (cl_comm l) \<and>
     solid (cl_protocol l) \<and> solid (cl_destination l) \<and> list_all solid (cl_hostnames l)"

lemma connect_fields_ok:
  assumes "line_ok wall l"
  shows "list_all wf_field (map js_field (connect_fields wall l))" and "list_all (\<lambda>e. plain (snd e)) (connect_fields wall l)"
    and "solid (join '','' (cl_hostnames l))"
proof -
  show h: "solid (join '','' (cl_hostnames l))" using assms by (simp add: line_ok_def solid_join)
  with assms show p: "list_all (\<lambda>e. plain (snd e)) (connect_fields wall l)"
    by (auto simp: connect_fields_def line_ok_def intro: solid_plain)
  have "list_all (\<lambda>e. is_identifier (js (fst e))) (connect_fields wall l)"
    by (simp add: connect_fields_def is_identifier_def js_literal is_word_def is_ident_start_def)
  with p show "list_all wf_field (map js_field (connect_fields wall l))"
    by (auto simp: list_all_iff wf_field_def js_field_def dest: plain_js)
qed

lemma is_type_chars: "is_type t \<Longrightarrow> c \<in> set t \<Longrightarrow> \<not> is_space c \<and> c \<noteq> 32 \<and> c \<noteq> 10"
  by (auto simp: is_type_def list_all_iff word_le_nat_alt dest!: space_unat)

lemma parse_line_fields:
  assumes t: "is_type t" and wf: "list_all wf_field (e # es)" and np: "js ''__proto__'' \<notin> fst ` set (e # es)"
  shows "parse_line env (t @ more_fields (e # es)) =
    Some (event_object env (t @ more_fields (e # es)) t (map_of (rev (map (\<lambda>e. (fst e, trim (snd e))) (e # es)))))"
proof -
  have more: "more_fields (e # es) = 32 # field_text e @ more_fields es" by (simp add: more_fields_def)
  have first: "takeWhile (\<lambda>c. c \<noteq> 32) (t @ more_fields (e # es)) = t"
    using is_type_chars [OF t] by (simp add: more takeWhile_append2)
  have trim: "trim t = t" using is_type_chars [OF t] by (intro trim_nospace) blast
  have "parse_fields (field_text e @ more_fields es) = map_of (rev (map (\<lambda>e. (fst e, trim (snd e))) (e # es)))"
    using parse_fields_of_text wf np by simp
  then show ?thesis using t trim by (simp add: parse_line_def first) (simp add: more slice_def)
qed

lemma identifier_no_lf: "is_identifier k \<Longrightarrow> 10 \<notin> set k"
  using identifier_word [of k 10] by (auto simp: is_word_def is_ident_start_def is_digit_def)

lemma not_in_more_fields:
  "list_all wf_field es \<Longrightarrow> \<forall>e\<in>set es. 10 \<notin> set (snd e) \<Longrightarrow> 10 \<notin> set (more_fields es)"
  by (induction es) (simp_all add: more_fields_def field_text_def wf_field_def identifier_no_lf)

lemma last_more_fields:
  "es \<noteq> [] \<Longrightarrow> \<forall>c\<in>set (snd (last es)). \<not> is_space c \<Longrightarrow> more_fields es \<noteq> [] \<and> \<not> is_space (last (more_fields es))"
proof (induction es rule: rev_induct)
  case (snoc e es)
  obtain k v where e: "e = (k, v)" by (cases e)
  have "last (more_fields (es @ [e])) = last (61 # v)" by (simp add: more_fields_def field_text_def e)
  also have "\<not> is_space \<dots>" using snoc.prems by (simp add: e is_space_def)
  finally show ?case by (simp add: more_fields_def)
qed simp

text \<open>A line of a type and fields, none with a line feed and the last one without blanks.\<close>

definition line_fields_ok :: "jstr \<Rightarrow> (jstr \<times> jstr) list \<Rightarrow> bool" where
  "line_fields_ok t es \<longleftrightarrow> is_type t \<and> es \<noteq> [] \<and> list_all wf_field es \<and> (\<forall>e\<in>set es. 10 \<notin> set (snd e)) \<and>
     (\<forall>c\<in>set (snd (last es)). \<not> is_space c) \<and> js ''__proto__'' \<notin> fst ` set es"

definition fields_map :: "(jstr \<times> jstr) list \<Rightarrow> (jstr \<rightharpoonup> jstr)" where
  "fields_map es = map_of (rev (map (\<lambda>e. (fst e, trim (snd e))) es))"

lemma body_lines_Cons:
  assumes "line_fields_ok t es"
  shows "body_lines (Some (t @ more_fields es @ 10 # s)) = (t @ more_fields es) # body_lines (Some s)"
proof -
  let ?l = "t @ more_fields es"
  have t: "is_type t" and ne: "t \<noteq> []" using assms by (simp_all add: line_fields_ok_def is_type_def)
  have l: "more_fields es \<noteq> [] \<and> \<not> is_space (last (more_fields es))"
    using assms by (intro last_more_fields) (simp_all add: line_fields_ok_def)
  have "10 \<notin> set ?l"
    using is_type_chars [OF t] not_in_more_fields [of es] assms by (auto simp: line_fields_ok_def)
  moreover have "last ?l \<noteq> 13" using l by (auto simp: is_space_def)
  ultimately have "split_lines (?l @ 10 # s) = ?l # split_lines s" by (intro split_lines_line) simp_all
  moreover have "trim ?l = ?l"
    using l ne is_type_chars [OF t] by (intro trim_id) simp
  ultimately show ?thesis using ne by (simp add: body_lines_def)
qed

lemma body_lines_Nil: "body_lines (Some []) = []"
proof -
  have "trim [] = []" by (rule trim_id) simp
  then show ?thesis by (simp add: body_lines_def)
qed

lemma parse_line_ok:
  "line_fields_ok t es \<Longrightarrow> parse_line env (t @ more_fields es) =
     Some (event_object env (t @ more_fields es) t (fields_map es))"
  by (cases es) (simp_all add: line_fields_ok_def fields_map_def parse_line_fields)

text \<open>Reading the event: the computed keys, the type, and the fields of the line.\<close>

lemma event_object_simps:
  "event_object env line t f (js ''time'') = Some (str_or Null (normalize_timestamp (env_date env) (f (js ''time''))))"
  "event_object env line t f (js ''raw_time'') = Some (str_or Undefined (f (js ''time'')))"
  "event_object env line t f (js ''host_pid'') = Some (num_field env (f (js ''host_pid'')))"
  "event_object env line t f (js ''ppid'') = Some (num_field env (f (js ''ppid'')))"
  "event_object env line t f (js ''tid'') = Some (num_field env (f (js ''tid'')))"
  "event_object env line t f (js ''uid'') = Some (num_field env (f (js ''uid'')))"
  "f (js ''type'') = None \<Longrightarrow> event_object env line t f (js ''type'') = Some (Str t)"
  "f (js k) = Some v \<Longrightarrow> k \<notin> {''time'', ''raw_time'', ''host_pid'', ''ppid'', ''tid'', ''uid''} \<Longrightarrow>
     event_object env line t f (js k) = Some (Str v)"
  by (simp_all add: event_object_def map_add_def)

definition connect_map :: "(u64 \<Rightarrow> string) \<Rightarrow> connect_line \<Rightarrow> (jstr \<rightharpoonup> jstr)" where
  "connect_map wall l = fields_map (map js_field (connect_fields wall l))"

lemma connect_map_simps:
  assumes "line_ok wall l"
  shows "connect_map wall l (js ''time'') = Some (js (wall (cl_timestamp_ns l)))"
    "connect_map wall l (js ''timestamp_ns'') = Some (js (show_nat (unat (cl_timestamp_ns l))))"
    "connect_map wall l (js ''host_pid'') = Some (js (show_nat (unat (cl_pid l))))"
    "connect_map wall l (js ''tid'') = Some (js (show_nat (unat (cl_tid l))))"
    "connect_map wall l (js ''uid'') = Some (js (show_nat (unat (cl_uid l))))"
    "connect_map wall l (js ''comm'') = Some (trim (js (cl_comm l)))"
    "connect_map wall l (js ''protocol'') = Some (js (cl_protocol l))"
    "connect_map wall l (js ''dst'') = Some (js (cl_destination l @ '':'' @ show_nat (unat (cl_port l))))"
    "connect_map wall l (js ''hostnames'') = Some (js (join '','' (cl_hostnames l)))"
    "connect_map wall l (js ''ppid'') = None" "connect_map wall l (js ''type'') = None"
  using assms [unfolded line_ok_def] connect_fields_ok(3) [OF assms]
  by (simp_all add: connect_map_def fields_map_def connect_fields_def js_field_def del: js_simps)

lemma num_field_u32: "num_field env (Some (js (show_nat (unat (w :: u32))))) = Num (of_nat (unat w))"
proof (rule num_field_show_nat)
  show "unat w < 2 ^ 53" by (rule order_less_trans [OF unsigned_less]) simp
qed

lemma js_fields_ok:
  assumes "is_type t" and "es \<noteq> []" and "list_all (\<lambda>e. is_identifier (js (fst e)) \<and> plain (snd e)) es"
    and "solid (snd (last es))" and "list_all (\<lambda>e. fst e \<noteq> ''__proto__'') es"
  shows "line_fields_ok t (map js_field es)"
proof -
  have "list_all wf_field (map js_field es)" and "\<forall>e\<in>set (map js_field es). 10 \<notin> set (snd e)"
    using assms(3) by (auto simp: list_all_iff wf_field_def js_field_def dest: plain_js)
  then show ?thesis
    using assms by (auto simp: line_fields_ok_def last_map js_field_def solid_js list_all_iff)
qed

lemma parse_body_two:
  "line_fields_ok t es \<Longrightarrow> line_fields_ok t' es' \<Longrightarrow>
     parse_body envs (Some (t @ more_fields es @ 10 # t' @ more_fields es' @ 10 # [])) =
     [event_object (envs 0) (t @ more_fields es) t (fields_map es),
      event_object (envs 1) (t' @ more_fields es') t' (fields_map es')]"
  by (simp add: parse_body_def body_lines_Cons body_lines_Nil parse_line_ok List.map_filter_def)

lemmas identifier_simps = is_identifier_def js_literal is_word_def is_ident_start_def

lemma connect_body:
  assumes "line_ok wall l"
  shows "parse_body envs (Some (js (connect_text wall l))) =
    [event_object (envs 0) (js ''CONNECT'' @ more_fields (map js_field (connect_fields wall l))) (js ''CONNECT'')
      (connect_map wall l)]"
proof -
  have "line_fields_ok (js ''CONNECT'') (map js_field (connect_fields wall l))"
  proof (rule js_fields_ok)
    show "is_type (js ''CONNECT'')" by (simp add: is_type_def js_literal)
    show "list_all (\<lambda>e. is_identifier (js (fst e)) \<and> plain (snd e)) (connect_fields wall l)"
      using connect_fields_ok(2) [OF assms] by (simp add: connect_fields_def identifier_simps)
  qed (simp_all add: connect_fields_def connect_fields_ok(3) [OF assms])
  then show ?thesis
    by (simp add: connect_text_fields body_lines_Cons body_lines_Nil parse_line_ok parse_body_def
        List.map_filter_def connect_map_def)
qed

lemma printed_line_fields:
  assumes "print_connection app event = (app', Some l)"
  shows "cl_timestamp_ns l = TimestampNS event" "cl_pid l = PID event" "cl_tid l = TID event"
    "cl_uid l = UID event" "cl_comm l = comm_string (Comm event)"
    "cl_protocol l = (if Protocol event = 6 then ''tcp'' else ''udp'')"
    "cl_destination l = destination_ip (Family event) (Destination event)"
    "cl_port l = DestinationPort event"
  using assms by (auto simp: print_connection_def Let_def split: if_splits)

section \<open>Properties\<close>

text \<open>A connection of a process called \<open>a b\<close>, with nothing in the cache.\<close>

definition sample_env :: surroundings where
  "sample_env = \<lparr>env_id = [], env_now = [], env_date = (\<lambda>s. None), env_number = (\<lambda>s. None)\<rparr>"

definition sample_app :: app where
  "sample_app = \<lparr>app_cache = \<lparr>ca_entries = [], ca_capacity = 4\<rparr>, app_containerID = 7, app_noDNS = False\<rparr>"

definition sample_event :: connectionEvent where
  "sample_event = \<lparr>Kind = 1, Pad = 0, TimestampNS = 5, CgroupID = 7, PID = 10, TID = 11, UID = 12, Family = 2,
     Protocol = 6, Pad2 = 0, DestinationPort = 443, Pad3 = 0, Destination = [192, 0, 2, 1] @ replicate 12 0,
     Comm = [97, 32, 98] @ replicate 13 0\<rparr>"

text \<open>
  The condition on comm is needed: a process that names itself with a line feed in it makes the
  server see a second event of a type and with fields of its choice.
\<close>

definition forged_line :: connect_line where
  "forged_line = \<lparr>cl_timestamp_ns = 5, cl_pid = 10, cl_tid = 11, cl_uid = 12,
     cl_comm = ''a'' @ [char_of (10 :: nat)] @ ''EXEC file=/x'', cl_protocol = ''tcp'',
     cl_destination = ''192.0.2.1'', cl_port = 443, cl_hostnames = []\<rparr>"

lemma forged_comm:
  "comm_string [97, 10, 69, 88, 69, 67, 32, 102, 105, 108, 101, 61, 47, 120, 0, 0] = cl_comm forged_line"
  by (simp add: forged_line_def comm_string_def char_of_def bit_0)

lemma forged_event:
  assumes "cl_comm l = a @ [char_of (10 :: nat)] @ ''EXEC file='' @ p" and "solid a" and "solid p"
    and "solid (wall (cl_timestamp_ns l))" and "list_all solid (cl_hostnames l)"
    and "solid (cl_protocol l)" and "solid (cl_destination l)"
  shows "map (\<lambda>e. e (js ''type'')) (parse_body envs (Some (js (connect_text wall l)))) =
    [Some (Str (js ''CONNECT'')), Some (Str (js ''EXEC''))]"
proof -
  have t: "js (connect_text wall l) = js ''CONNECT'' @ more_fields (map js_field (take 5 (connect_fields wall l) @ [(''comm'', a)])) @
      10 # js ''EXEC'' @ more_fields (map js_field ((''file'', p) # drop 6 (connect_fields wall l))) @ 10 # []"
    by (simp add: connect_text_def assms(1) connect_fields_def more_fields_def field_text_def js_field_def js_literal newline)
  note ok = assms(2-7) solid_join [OF assms(5)]
  have 1: "line_fields_ok (js ''CONNECT'') (map js_field (take 5 (connect_fields wall l) @ [(''comm'', a)]))"
  proof (rule js_fields_ok)
    show "is_type (js ''CONNECT'')" by (simp add: is_type_def js_literal)
  qed (use ok in \<open>simp_all add: connect_fields_def identifier_simps solid_plain\<close>)
  have 2: "line_fields_ok (js ''EXEC'') (map js_field ((''file'', p) # drop 6 (connect_fields wall l)))"
  proof (rule js_fields_ok)
    show "is_type (js ''EXEC'')" by (simp add: is_type_def js_literal)
  qed (use ok in \<open>simp_all add: connect_fields_def identifier_simps solid_plain\<close>)
  show ?thesis
    unfolding t parse_body_two [OF 1 2]
    by (simp add: event_object_simps fields_map_def connect_fields_def js_field_def)
qed

text \<open>
  A CONNECT line printed by netmon and posted to the server becomes exactly one event with the
  fields of the line: numbers as numbers, texts as printed, no ppid; comm without the blanks at
  its ends. Time, comm and hostnames must hold no = and no line end.
\<close>

theorem connect_line_arrives:
  assumes "print_connection app event = (app', Some l)"
    and "wall (TimestampNS event) \<noteq> []" and "solid (wall (TimestampNS event))"
    and "plain (comm_string (Comm event))" and "list_all solid (cl_hostnames l)"
  shows "\<exists>e. parse_body envs (Some (js (connect_text wall l))) = [e] \<and>
    e (js ''type'') = Some (Str (js ''CONNECT'')) \<and>
    e (js ''raw_time'') = Some (Str (js (wall (TimestampNS event)))) \<and>
    e (js ''time'') = Some (case env_date (envs 0) (millisecond_iso (js (wall (TimestampNS event)))) of
       None \<Rightarrow> Null | Some t \<Rightarrow> Str t) \<and>
    e (js ''timestamp_ns'') = Some (Str (js (show_nat (unat (TimestampNS event))))) \<and>
    e (js ''host_pid'') = Some (Num (of_nat (unat (PID event)))) \<and>
    e (js ''tid'') = Some (Num (of_nat (unat (TID event)))) \<and>
    e (js ''uid'') = Some (Num (of_nat (unat (UID event)))) \<and>
    e (js ''ppid'') = Some Undefined \<and>
    e (js ''comm'') = Some (Str (trim (js (comm_string (Comm event))))) \<and>
    e (js ''protocol'') = Some (Str (js (if Protocol event = 6 then ''tcp'' else ''udp''))) \<and>
    e (js ''dst'') = Some (Str (js (destination_ip (Family event) (Destination event) @ '':'' @
       show_nat (unat (DestinationPort event))))) \<and>
    e (js ''hostnames'') = Some (Str (js (join '','' (cl_hostnames l))))"
proof -
  note l = printed_line_fields [OF assms(1)]
  have ok: "line_ok wall l" using assms(2-5) by (simp add: line_ok_def l solid_destination)
  note f = connect_map_simps [OF ok]
  show ?thesis
    unfolding connect_body [OF ok]
    using assms(2)
    by (simp add: event_object_simps f num_field_u32 l)
      (simp add: num_field_def str_or_def normalize_timestamp_def split: option.split)
qed

theorem connect_line_arrives_witness:
  "\<exists>e. parse_body (\<lambda>i. sample_env)
      (Some (js (connect_text (\<lambda>t. ''T'') (the (snd (print_connection sample_app sample_event)))))) = [e] \<and>
    e (js ''comm'') = Some (Str (trim (js ''a b'')))"
proof -
  have c: "comm_string (Comm sample_event) = ''a b''"
    by (simp add: sample_event_def comm_string_def char_of_def bit_0)
  obtain app' l where l: "print_connection sample_app sample_event = (app', Some l)" and h: "cl_hostnames l = []"
    by (simp add: print_connection_def sample_app_def sample_event_def destination_ip_def show_ip_nonempty
        cache_prune_def cache_find_def cache_find_index_def Let_def addr_size_def DnsCache.compact.simps)
  show ?thesis
    using connect_line_arrives [OF l, of "\<lambda>t. ''T''" "\<lambda>i. sample_env"] by (auto simp: l h c)
qed

end
