(* ===== verification/WallTime.thy ===== *)
theory WallTime
  imports VisFields NetmonStartup
begin

text \<open>
  The time on a CONNECT line: \<open>wallTime\<close> of src/src/netmon-go/cmd/netmon/main.go to its text, with what
  it uses of Go's time package, and what the server's \<open>normalizeTimestamp\<close> makes of it.
\<close>

section \<open>Dates\<close>

text \<open>The proleptic Gregorian calendar; days count from 1 January of year 1.\<close>

definition is_leap :: "int \<Rightarrow> bool" where
  "is_leap y \<longleftrightarrow> y mod 4 = 0 \<and> (y mod 100 \<noteq> 0 \<or> y mod 400 = 0)"

definition days_before :: "int \<Rightarrow> int" where
  "days_before y = 365 * (y - 1) + (y - 1) div 4 - (y - 1) div 100 + (y - 1) div 400"

text \<open>Year and day of the year, by cycles of 400, 100, 4 and 1 years.\<close>

definition year_and_day :: "int \<Rightarrow> int \<times> int" where
  "year_and_day d =
     (let n400 = d div 146097; d = d mod 146097;
          n100 = d div 36524; n100 = n100 - n100 div 4; d = d - 36524 * n100;
          n4 = d div 1461; d = d - 1461 * n4;
          n1 = d div 365; n1 = n1 - n1 div 4; d = d - 365 * n1
      in (400 * n400 + 100 * n100 + 4 * n4 + n1 + 1, d))"

definition month_lengths :: "int \<Rightarrow> int list" where
  "month_lengths y = [31, if is_leap y then 29 else 28, 31, 30, 31, 30, 31, 31, 30, 31, 30, 31]"

fun month_and_day :: "int list \<Rightarrow> int \<Rightarrow> int \<Rightarrow> int \<times> int" where
  "month_and_day [] m n = (m, n + 1)"
| "month_and_day (l # ls) m n = (if n < l then (m, n + 1) else month_and_day ls (m + 1) (n - l))"

lemma mod_multiple:
  fixes x k :: int
  assumes "0 < x" and "x \<le> k"
  shows "x mod k = 0 \<longleftrightarrow> x = k"
  using assms by (cases "x = k") auto

lemma days_before_cycles:
  assumes "0 \<le> b" "b \<le> 3" "0 \<le> c" "c \<le> 24" "0 \<le> e" "e \<le> (3 :: int)"
  shows "days_before (400 * a + 100 * b + 4 * c + e + 1) = 146097 * a + 36524 * b + 1461 * c + 365 * e"
    and "is_leap (400 * a + 100 * b + 4 * c + e + 1) \<longleftrightarrow> e = 3 \<and> (c \<noteq> 24 \<or> b = 3)"
proof -
  let ?z = "400 * a + 100 * b + 4 * c + e"
  have "?z div 4 = 100 * a + 25 * b + c" using assms by (intro int_div_pos_eq [of _ _ _ e]) simp_all
  moreover have "?z div 100 = 4 * a + b" using assms by (intro int_div_pos_eq [of _ _ _ "4 * c + e"]) simp_all
  moreover have "?z div 400 = a" using assms by (intro int_div_pos_eq [of _ _ _ "100 * b + 4 * c + e"]) simp_all
  ultimately show "days_before (?z + 1) = 146097 * a + 36524 * b + 1461 * c + 365 * e" by (simp add: days_before_def)
  have ends: "4 * c + e + 1 = 100 \<longleftrightarrow> e = 3 \<and> c = 24" "100 * b + 4 * c + e + 1 = 400 \<longleftrightarrow> e = 3 \<and> c = 24 \<and> b = 3"
    using assms by linarith+
  have "(?z + 1) mod 4 = (4 * (100 * a + 25 * b + c) + (e + 1)) mod 4" by (simp add: algebra_simps)
  also have "\<dots> = (e + 1) mod 4" by (rule mod_mult_self4)
  finally have 4: "(?z + 1) mod 4 = 0 \<longleftrightarrow> e = 3" using assms mod_multiple [of "e + 1" 4] by auto
  have "(?z + 1) mod 100 = (100 * (4 * a + b) + (4 * c + e + 1)) mod 100" by (simp add: algebra_simps)
  also have "\<dots> = (4 * c + e + 1) mod 100" by (rule mod_mult_self4)
  finally have 100: "(?z + 1) mod 100 = 0 \<longleftrightarrow> e = 3 \<and> c = 24"
    using mod_multiple [of "4 * c + e + 1" 100] assms ends(1) by simp
  have "(?z + 1) mod 400 = (400 * a + (100 * b + 4 * c + e + 1)) mod 400" by (simp add: algebra_simps)
  also have "\<dots> = (100 * b + 4 * c + e + 1) mod 400" by (rule mod_mult_self4)
  finally have 400: "(?z + 1) mod 400 = 0 \<longleftrightarrow> e = 3 \<and> c = 24 \<and> b = 3"
    using mod_multiple [of "100 * b + 4 * c + e + 1" 400] assms ends(2) by simp
  show "is_leap (?z + 1) \<longleftrightarrow> e = 3 \<and> (c \<noteq> 24 \<or> b = 3)" unfolding is_leap_def 4 100 400 by auto
qed

text \<open>Four cycles of \<open>s\<close> days, the last one day longer.\<close>

lemma four_cycles:
  fixes r s :: int
  assumes "0 < s" and "0 \<le> r" and "r \<le> 4 * s" and b: "b = r div s - r div s div 4"
  shows "0 \<le> b" "b \<le> 3" "0 \<le> r - s * b" "r - s * b \<le> s" "b \<noteq> 3 \<Longrightarrow> r - s * b < s"
proof -
  define q where "q = r div s"
  have q: "s * q \<le> r" "r < s * q + s"
    using assms(1) mult_div_mod_eq [of s r] pos_mod_sign [of s r] pos_mod_bound [of s r] unfolding q_def by linarith+
  have "0 \<le> q" using assms(1,2) by (simp add: q_def pos_imp_zdiv_nonneg_iff)
  moreover have "q \<le> 4"
  proof (rule ccontr)
    assume "\<not> q \<le> 4"
    then have "s * 5 \<le> s * q" using assms(1) by (intro mult_left_mono) simp_all
    then show False using q assms(1,3) by linarith
  qed
  ultimately have "q \<in> {0, 1, 2, 3, 4}" by auto
  moreover have "b = q - q div 4" using b by (simp add: q_def)
  ultimately show "0 \<le> b" "b \<le> 3" "0 \<le> r - s * b" "r - s * b \<le> s" "b \<noteq> 3 \<Longrightarrow> r - s * b < s"
    using q assms(3) by auto
qed

lemma year_and_day_correct:
  assumes "year_and_day d = (y, n)"
  shows "d = days_before y + n \<and> 0 \<le> n \<and> n < (if is_leap y then 366 else 365) \<and>
    400 * (d div 146097) < y \<and> y \<le> 400 * (d div 146097) + 400"
proof -
  define a r where ar: "a = d div 146097" "r = d mod 146097"
  define b where b: "b = r div 36524 - r div 36524 div 4"
  define r1 where r1: "r1 = r - 36524 * b"
  define c r2 where cr: "c = r1 div 1461" "r2 = r1 - 1461 * c"
  define e where e: "e = r2 div 365 - r2 div 365 div 4"
  have "year_and_day d = (400 * a + 100 * b + 4 * c + e + 1, r2 - 365 * e)"
    by (simp only: year_and_day_def Let_def ar b r1 cr e)
  then have y: "y = 400 * a + 100 * b + 4 * c + e + 1" and n: "n = r2 - 365 * e" using assms by simp_all
  have r: "0 \<le> r" "r < 146097" "d = 146097 * a + r" by (simp_all add: ar)
  note bb = four_cycles [of 36524, OF _ r(1) _ b]
  have r1b: "0 \<le> r1" "r1 \<le> 36524" "b \<noteq> 3 \<Longrightarrow> r1 < 36524" "0 \<le> b" "b \<le> 3"
    using bb r by (auto simp: r1)
  have "r1 = 1461 * c + r1 mod 1461" by (simp add: cr)
  then have r2: "0 \<le> r2" "r2 \<le> 1460" using pos_mod_bound [of 1461 r1] pos_mod_sign [of 1461 r1] cr(2) by linarith+
  have c: "0 \<le> c" "c \<le> 24" using r1b r2 cr(2) by linarith+
  note ee = four_cycles [of 365, OF _ r2(1) _ e]
  have nb: "0 \<le> n" "n \<le> 365" "e \<noteq> 3 \<Longrightarrow> n < 365" "0 \<le> e" "e \<le> 3" using ee r2 by (auto simp: n)
  have "e = 3 \<and> (c \<noteq> 24 \<or> b = 3)" if "n = 365"
  proof -
    have e3: "e = 3" using nb(3) that by auto
    then have "r1 = 1461 * c + 1460" using that n cr(2) by simp
    then show ?thesis using e3 r1b(3) by auto
  qed
  then have "n < (if is_leap y then 366 else 365)"
    using nb(2) unfolding y days_before_cycles(2) [OF r1b(4,5) c nb(4,5)] by (cases "n = 365") simp_all
  moreover have "d = days_before y + n"
    unfolding y days_before_cycles(1) [OF r1b(4,5) c nb(4,5)] using r by (simp add: n r1 cr)
  moreover have "400 * a < y" "y \<le> 400 * a + 400" using r1b(4,5) c nb(4,5) by (simp_all add: y)
  ultimately show ?thesis using nb(1) unfolding ar(1) by blast
qed

text \<open>The month and the day of the month are the place of the day among the lengths of the months.\<close>

lemma month_and_day_correct:
  assumes "month_and_day ls m n = (m', k)" and "0 \<le> n" and "n < sum_list ls"
  shows "\<exists>i<length ls. m' = m + int i \<and> n + 1 = sum_list (take i ls) + k \<and> 1 \<le> k \<and> k \<le> ls ! i"
  using assms
proof (induction ls m n rule: month_and_day.induct)
  case (2 l ls m n)
  show ?case
  proof (cases "n < l")
    case True
    then show ?thesis using "2.prems" by (intro exI [of _ 0]) auto
  next
    case False
    then obtain i where "i < length ls" "m' = m + 1 + int i" "n - l + 1 = sum_list (take i ls) + k" "1 \<le> k" "k \<le> ls ! i"
      using "2.IH" "2.prems" by auto
    then show ?thesis by (intro exI [of _ "Suc i"]) auto
  qed
qed simp

section \<open>Texts\<close>

text \<open>A number with leading zeros up to a width, as Go's time package appends it.\<close>

definition pad :: "nat \<Rightarrow> int \<Rightarrow> string" where
  "pad w x =
     (let s = show_nat (nat \<bar>x\<bar>) in (if x < 0 then ''-'' else []) @ replicate (w - length s) (CHR ''0'') @ s)"

text \<open>\<open>2006-01-02T15:04:05\<close> of a number of seconds since 1970.\<close>

definition date_text :: "int \<Rightarrow> string" where
  "date_text sec =
     (let s = sec mod 86400; (y, n) = year_and_day (sec div 86400 + 719162);
          (m, k) = month_and_day (month_lengths y) 1 n
      in pad 4 y @ ''-'' @ pad 2 m @ ''-'' @ pad 2 k @ ''T'' @
         pad 2 (s div 3600) @ '':'' @ pad 2 (s mod 3600 div 60) @ '':'' @ pad 2 (s mod 60))"

definition wall_text :: "int \<Rightarrow> string" where
  "wall_text ns = date_text (ns div 1000000000) @ ''.'' @ pad 9 (ns mod 1000000000) @ ''Z''"

text \<open>JavaScript's \<open>toISOString\<close> of a number of milliseconds, in the years 0 to 9999.\<close>

definition millis_text :: "int \<Rightarrow> string" where
  "millis_text ms = date_text (ms div 1000) @ ''.'' @ pad 3 (ms mod 1000) @ ''Z''"

section \<open>Fixed width\<close>

fun digits :: "nat \<Rightarrow> nat \<Rightarrow> string" where
  "digits 0 x = []"
| "digits (Suc w) x = digits w (x div 10) @ [char_of (48 + x mod 10)]"

lemma length_digits [simp]: "length (digits w x) = w"
  by (induction w arbitrary: x) simp_all

lemma digits_0: "digits w 0 = replicate w (CHR ''0'')"
proof (induction w)
  case (Suc w)
  have "(char_of (48 :: nat)) = CHR ''0''" by (simp add: char_of_def bit_0)
  then show ?case using Suc by (simp add: replicate_append_same)
qed simp

lemma show_nat_digits_pad:
  "x < 10 ^ w \<Longrightarrow> 0 < w \<Longrightarrow> replicate (w - length (show_nat x)) (CHR ''0'') @ show_nat x = digits w x"
proof (induction w arbitrary: x)
  case (Suc w)
  show ?case
  proof (cases "x < 10")
    case True
    then show ?thesis by (simp add: show_nat.simps [of x] digits_0)
  next
    case False
    then have "x div 10 < 10 ^ w" and "0 < w" using Suc.prems by (cases w; simp)+
    then show ?thesis using Suc.IH [of "x div 10"] False by (simp add: show_nat.simps [of x])
  qed
qed simp

lemma pad_digits: "0 \<le> x \<Longrightarrow> x < 10 ^ w \<Longrightarrow> 0 < w \<Longrightarrow> pad w x = digits w (nat x)"
  by (simp add: pad_def Let_def show_nat_digits_pad nat_less_iff)

lemma take_digits: "take n (digits (n + k) x) = digits n (x div 10 ^ k)"
proof (induction k arbitrary: x)
  case (Suc k)
  then show ?case by (simp add: div_mult2_eq [symmetric])
qed simp

lemma pad_shorter:
  assumes "0 \<le> x" and "x < 1000000000"
  shows "take 3 (pad 9 x) = pad 3 (x div 1000000)"
  using take_digits [of 3 6 "nat x"] assms by (simp add: pad_digits nat_div_distrib)

lemma solid_pad [simp]: "solid (pad w x)"
proof -
  have "solid (replicate n (CHR ''0''))" for n by (simp add: solid_def plain_def list_all_iff)
  moreover have "solid ''-''" by (simp add: solid_def plain_def)
  ultimately show ?thesis by (simp add: pad_def Let_def)
qed

lemma pad_nonempty [simp]: "pad w x \<noteq> []"
  by (simp add: pad_def Let_def)

lemma solid_date_text [simp]: "solid (date_text s)"
proof -
  have "solid ''-''" "solid ''T''" "solid '':''" by (simp_all add: solid_def plain_def)
  then show ?thesis by (simp add: date_text_def Let_def split: prod.split)
qed

text \<open>What the theorems on lines ask of the time's text holds for every time.\<close>

lemma wall_text_solid: "wall_text t \<noteq> [] \<and> solid (wall_text t)"
proof -
  have "solid ''.''" "solid ''Z''" by (simp_all add: solid_def plain_def)
  then show ?thesis by (simp add: wall_text_def)
qed

section \<open>The server's milliseconds\<close>

lemma millisecond_cut:
  assumes "46 \<notin> set p" and "list_all is_digit ds" and "4 \<le> length ds"
  shows "millisecond_iso (p @ 46 # ds @ [90]) = p @ 46 # take 3 ds @ [90]"
  using assms(1)
proof (induction p)
  case Nil
  have z: "\<not> is_digit 90" by (simp add: is_digit_def)
  have "takeWhile is_digit (ds @ [90]) = ds" "dropWhile is_digit (ds @ [90]) = [90]"
    using assms(2) z by (simp_all add: list_all_iff takeWhile_append2 dropWhile_append2)
  then show ?case using assms(3) by (simp add: Let_def is_zone_def)
next
  case (Cons c p)
  then have "c \<noteq> 46" by auto
  then show ?case using Cons by (simp add: Let_def)
qed

lemma digit_not_dot: "is_digit c \<Longrightarrow> c \<noteq> 46"
  by (auto simp: is_digit_def)

lemma pad_chars: "c \<in> set (js (pad w x)) \<Longrightarrow> is_digit c \<or> c = 45 \<and> x < 0"
proof -
  have "is_digit (of_char CHR ''0'')" "of_char CHR ''-'' = (45 :: unit16)" by (simp_all add: is_digit_def)
  moreover have "list_all is_digit (js (show_nat n))" for n using digits_show_nat [of n] by simp
  moreover assume "c \<in> set (js (pad w x))"
  ultimately show ?thesis
    by (auto simp: pad_def Let_def js_def list_all_iff split: if_splits)
qed

lemma date_text_no_dot: "46 \<notin> set (js (date_text s))"
proof -
  have "46 \<notin> set (js (pad w x))" for w x using pad_chars [of 46 w x] digit_not_dot by auto
  then show ?thesis by (simp add: date_text_def Let_def js_literal split: prod.split)
qed

theorem wall_text_milliseconds: "millisecond_iso (js (wall_text t)) = js (millis_text (t div 1000000))"
proof -
  let ?f = "t mod 1000000000"
  have f: "0 \<le> ?f" "?f < 1000000000" by simp_all
  have digits: "list_all is_digit (js (pad 9 ?f))"
    using pad_chars [of _ 9 ?f] f by (auto simp: list_all_iff)
  have len: "length (pad 9 ?f) = 9" using f by (simp add: pad_digits)
  have "t mod (1000000 * 1000) = 1000000 * (t div 1000000 mod 1000) + t mod 1000000"
    by (rule zmod_zmult2_eq) simp
  then have ms: "t div 1000000 mod 1000 = ?f div 1000000" by simp
  have sec: "t div 1000000 div 1000 = t div 1000000000" by (simp add: zdiv_zmult2_eq [symmetric])
  have "js (take 3 (pad 9 ?f)) = take 3 (js (pad 9 ?f))" by (simp add: js_def take_map)
  then have "millis_text (t div 1000000) = date_text (t div 1000000000) @ ''.'' @ take 3 (pad 9 ?f) @ ''Z''"
    using pad_shorter [OF f] by (simp add: millis_text_def ms sec)
  moreover have "js (wall_text t) = js (date_text (t div 1000000000)) @ 46 # js (pad 9 ?f) @ [90]"
    by (simp add: wall_text_def js_literal)
  ultimately show ?thesis
    using millisecond_cut [OF date_text_no_dot digits, of "t div 1000000000"] len
    by (simp add: js_literal \<open>js (take 3 (pad 9 ?f)) = take 3 (js (pad 9 ?f))\<close>)
qed

section \<open>Reading a time back\<close>

definition text_value :: "string \<Rightarrow> int" where
  "text_value s = foldl (\<lambda>n c. 10 * n + (int (of_char c) - 48)) 0 s"

definition read_time :: "string \<Rightarrow> int" where
  "read_time s =
     (let part = (\<lambda>i w. text_value (take w (drop i s))); y = part 0 4; m = part 5 2 in
      ((days_before y + sum_list (take (nat (m - 1)) (month_lengths y)) + part 8 2 - 1 - 719162) * 86400 +
       part 11 2 * 3600 + part 14 2 * 60 + part 17 2) * 1000000000 + part 20 9)"

lemma value_digits: "x < 10 ^ w \<Longrightarrow> text_value (digits w x) = int x"
proof (induction w arbitrary: x)
  case (Suc w)
  then have "text_value (digits w (x div 10)) = int (x div 10)" by simp
  moreover have "int (of_char (char_of (48 + x mod 10) :: char)) = 48 + int (x mod 10)" by simp
  moreover have "10 * int (x div 10) + int (x mod 10) = int x"
    by (metis mult_div_mod_eq of_nat_add of_nat_mult of_nat_numeral)
  ultimately show ?case by (simp add: text_value_def)
qed (simp add: text_value_def)

lemma pad_value:
  assumes "0 \<le> x" and "x < 10 ^ w" and "0 < w"
  shows "length (pad w x) = w" and "text_value (pad w x) = x"
proof -
  have "nat x < 10 ^ w" using assms by (simp add: nat_less_iff)
  then show "length (pad w x) = w" "text_value (pad w x) = x"
    using assms by (simp_all add: pad_digits value_digits)
qed

lemma year_range:
  assumes "0 \<le> d" and "d < 3652059" and "year_and_day d = (y, n)"
  shows "1 \<le> y \<and> y \<le> 9999"
proof -
  note c = year_and_day_correct [OF assms(3)]
  have "0 \<le> d div 146097" using assms(1) by (simp add: pos_imp_zdiv_nonneg_iff)
  moreover have "d div 146097 \<le> 24" using zdiv_mono1 [of d 3652058 146097] assms(2) by simp
  moreover have "y \<noteq> 10000"
  proof
    assume "y = 10000"
    then have "d = 3652059 + n \<and> 0 \<le> n" using c by (simp add: days_before_def)
    then show False using assms(2) by simp
  qed
  ultimately show ?thesis using c by linarith
qed

lemma sum_month_lengths: "sum_list (month_lengths y) = (if is_leap y then 366 else 365)"
  by (simp add: month_lengths_def)

lemma clock_parts:
  fixes s :: int
  assumes "0 \<le> s" and "s < 86400"
  shows "0 \<le> s div 3600" "s div 3600 < 100" "0 \<le> s mod 3600 div 60" "s mod 3600 div 60 < 100"
    "s = s div 3600 * 3600 + s mod 3600 div 60 * 60 + s mod 60"
proof -
  have r: "0 \<le> s mod 3600" "s mod 3600 < 3600" by simp_all
  show "0 \<le> s div 3600" "0 \<le> s mod 3600 div 60" using assms(1) r(1) by (simp_all add: pos_imp_zdiv_nonneg_iff)
  have "3600 * (s div 3600) + s mod 3600 = s" by (rule mult_div_mod_eq)
  moreover have "60 * (s mod 3600 div 60) + s mod 3600 mod 60 = s mod 3600" by (rule mult_div_mod_eq)
  moreover have "s mod 3600 mod 60 = s mod 60" by (rule mod_mod_cancel) simp
  moreover have "0 \<le> s mod 60" by simp
  ultimately show "s = s div 3600 * 3600 + s mod 3600 div 60 * 60 + s mod 60"
    and "s div 3600 < 100" "s mod 3600 div 60 < 100" using r assms by linarith+
qed

text \<open>In the years 1 to 9999 the text determines the time to the nanosecond.\<close>

theorem read_wall_text:
  assumes "- 62135596800 * 1000000000 \<le> t" and "t < 253402300800 * 1000000000"
  shows "read_time (wall_text t) = t"
proof -
  define sec where "sec = t div 1000000000"
  define d where "d = sec div 86400 + 719162"
  define s where "s = sec mod 86400"
  have t: "t = sec * 1000000000 + t mod 1000000000" by (simp add: sec_def)
  have sec: "- 62135596800 \<le> sec" "sec < 253402300800"
    using assms pos_mod_bound [of 1000000000 t] pos_mod_sign [of 1000000000 t] t by linarith+
  have s: "0 \<le> s" "s < 86400" "sec = (d - 719162) * 86400 + s" by (simp_all add: s_def d_def)
  have "sec = 86400 * d + s - 62135596800" using s(3) by simp
  then have d: "0 \<le> d" "d < 3652059" using sec s(1,2) by simp_all
  obtain y n where yn: "year_and_day d = (y, n)" by (metis surj_pair)
  note y = year_range [OF d yn] and c = year_and_day_correct [OF yn]
  obtain m k where mk: "month_and_day (month_lengths y) 1 n = (m, k)" by (metis surj_pair)
  obtain i where i: "i < length (month_lengths y)" "m = 1 + int i"
      "n + 1 = sum_list (take i (month_lengths y)) + k" "1 \<le> k" "k \<le> month_lengths y ! i"
    using month_and_day_correct [OF mk] c by (auto simp: sum_month_lengths)
  have "month_lengths y ! i \<in> set (month_lengths y)" using i(1) by (rule nth_mem)
  then have "month_lengths y ! i \<le> 31" by (auto simp: month_lengths_def split: if_splits)
  then have k: "1 \<le> k" "k \<le> 31" using i by simp_all
  have m: "1 \<le> m" "m \<le> 12" "nat (m - 1) = i" using i(1,2) by (simp_all add: month_lengths_def)
  define hh mi ss fr where parts: "hh = s div 3600" "mi = s mod 3600 div 60" "ss = s mod 60" "fr = t mod 1000000000"
  have h: "0 \<le> hh" "hh < 10 ^ 2" "0 \<le> mi" "mi < 10 ^ 2" "0 \<le> ss" "ss < 10 ^ 2" "0 \<le> fr" "fr < 10 ^ 9"
    unfolding parts using clock_parts(1-4) [OF s(1,2)] pos_mod_bound [of 60 s] by simp_all
  have clock: "s = hh * 3600 + mi * 60 + ss" unfolding parts by (rule clock_parts(5) [OF s(1,2)])
  have v: "length (pad 4 y) = 4" "text_value (pad 4 y) = y" "length (pad 2 m) = 2" "text_value (pad 2 m) = m"
    "length (pad 2 k) = 2" "text_value (pad 2 k) = k" "length (pad 2 hh) = 2" "text_value (pad 2 hh) = hh"
    "length (pad 2 mi) = 2" "text_value (pad 2 mi) = mi" "length (pad 2 ss) = 2" "text_value (pad 2 ss) = ss"
    "length (pad 9 fr) = 9" "text_value (pad 9 fr) = fr"
    using y m k h by (simp_all add: pad_value)
  have "wall_text t = pad 4 y @ ''-'' @ pad 2 m @ ''-'' @ pad 2 k @ ''T'' @ pad 2 hh @ '':'' @ pad 2 mi @ '':'' @
      pad 2 ss @ ''.'' @ pad 9 fr @ ''Z''"
    using yn mk by (simp add: wall_text_def date_text_def Let_def parts sec_def [symmetric] s_def [symmetric] d_def [symmetric])
  then have "read_time (wall_text t) =
      ((days_before y + sum_list (take i (month_lengths y)) + k - 1 - 719162) * 86400 + hh * 3600 + mi * 60 + ss) * 1000000000 + fr"
    by (simp add: read_time_def Let_def v m(3))
  moreover have "days_before y + sum_list (take i (month_lengths y)) + k - 1 = d" using c i(3) by simp
  ultimately have "read_time (wall_text t) = ((d - 719162) * 86400 + s) * 1000000000 + t mod 1000000000"
    using clock by (simp add: parts(4))
  then show ?thesis using t s(3) by simp
qed

section \<open>The age of a record\<close>

lemma wallTime_age:
  assumes "int (unat now_mono) - int (unat event) = age" and "0 \<le> age" and "age < 2 ^ 63"
  shows "wallTime now_real now_mono event = now_real - age"
proof -
  have "event - now_mono = word_of_int (uint event - uint now_mono)" by simp
  also have "uint event - uint now_mono = - age" using assms(1) by simp
  finally have "sint (event - now_mono) = signed_take_bit 63 (- age)" by (simp only: sint_sbintrunc') simp
  also have "\<dots> = - age" using assms(2,3) by (simp add: signed_take_bit_int_eq_self)
  finally have "sint (event - now_mono) = - age" .
  then show ?thesis by (simp add: wallTime_def)
qed

section \<open>Properties\<close>

text \<open>
  C34. Time from the kernel to the dashboard, for a record stamped no later than the clock at
  printing, whose comm is ASCII without an equals sign or a line feed and whose host names have no
  blanks or control characters either: the time on its CONNECT line, read back, is the wall clock
  at printing less the age of the record, to the nanosecond, in the years 1 to 9999; the server
  cuts it to the millisecond. Of Date.parse and toISOString it is used that they give an ISO text
  of those years back unchanged.
\<close>

theorem event_time_exact:
  assumes "print_connection app event = (app', Some l)"
    and "plain (comm_string (Comm event))" and "list_all solid (cl_hostnames l)"
    and age: "int (unat now_mono) - int (unat (TimestampNS event)) = age" "0 \<le> age" "age < 2 ^ 63"
    and range: "- 62135596800 * 1000000000 \<le> now_real - age" "now_real - age < 253402300800 * 1000000000"
    and date: "\<forall>u. - 62135596800000 \<le> u \<and> u < 253402300800000 \<longrightarrow>
      env_date (envs 0) (js (millis_text u)) = Some (js (millis_text u))"
  shows "\<exists>e text. parse_body envs (Some (js (connect_text (\<lambda>ts. wall_text (wallTime now_real now_mono ts)) l))) = [e] \<and>
    e (js ''raw_time'') = Some (Str (js text)) \<and> read_time text = now_real - age \<and>
    e (js ''time'') = Some (Str (js (millis_text ((now_real - age) div 1000000))))"
proof -
  let ?wall = "\<lambda>ts. wall_text (wallTime now_real now_mono ts)"
  have t: "wallTime now_real now_mono (TimestampNS event) = now_real - age" using wallTime_age [OF age] by simp
  have "- 62135596800000 \<le> (now_real - age) div 1000000" and "(now_real - age) div 1000000 < 253402300800000"
    using range by linarith+
  with date have date': "env_date (envs 0) (js (millis_text ((now_real - age) div 1000000))) =
      Some (js (millis_text ((now_real - age) div 1000000)))" by blast
  obtain e where e: "parse_body envs (Some (js (connect_text ?wall l))) = [e]"
    "e (js ''raw_time'') = Some (Str (js (wall_text (now_real - age))))"
    "e (js ''time'') = Some (case env_date (envs 0) (millisecond_iso (js (wall_text (now_real - age)))) of
       None \<Rightarrow> Null | Some t \<Rightarrow> Str t)"
    using connect_line_arrives [OF assms(1), of ?wall envs] assms(2,3) wall_text_solid by (auto simp: t)
  then have "e (js ''time'') = Some (Str (js (millis_text ((now_real - age) div 1000000))))"
    by (simp add: wall_text_milliseconds date')
  then show ?thesis using e(1,2) read_wall_text [OF range] by blast
qed

theorem event_time_exact_witness:
  "\<exists>e text. parse_body (\<lambda>i. sample_env\<lparr>env_date := Some\<rparr>) (Some (js (connect_text
      (\<lambda>ts. wall_text (wallTime 1700000000000000000 (TimestampNS sample_event + 5) ts))
      (the (snd (print_connection sample_app sample_event)))))) = [e] \<and> read_time text = 1699999999999999995 \<and>
    e (js ''raw_time'') = Some (Str (js text))"
proof -
  have c: "comm_string (Comm sample_event) = ''a b''"
    by (simp add: sample_event_def comm_string_def char_of_def bit_0)
  obtain app' l where l: "print_connection sample_app sample_event = (app', Some l)" and h: "cl_hostnames l = []"
    by (simp add: print_connection_def sample_app_def sample_event_def destination_ip_def show_ip_nonempty
        cache_prune_def cache_find_def cache_find_index_def Let_def addr_size_def DnsCache.compact.simps)
  have "int (unat (TimestampNS sample_event + 5)) - int (unat (TimestampNS sample_event)) = 5"
    by (simp add: sample_event_def)
  from event_time_exact [OF l _ _ this, of 1700000000000000000 "\<lambda>i. sample_env\<lparr>env_date := Some\<rparr>"]
  show ?thesis using l h by (auto simp: c plain_def)
qed

end
