(* ===== verification/VisScript.thy ===== *)
theory VisScript
  imports LogScript
begin

text \<open>
  The script src/src/bpf_vis.sh around its forwarding loop (LogFlow has the loop): the log server in
  the background, the pipeline of bpf_log.sh and the loop in the background, and what ends them.
\<close>

section \<open>The run\<close>

text \<open>
  Two background jobs with three processes. \<open>$!\<close> of a pipeline is its last process, and that is the
  one \<open>kill\<close> reaches; \<open>wait\<close> on it waits for the job, that is for all of its processes.
\<close>

datatype vis_process = Server | BpfLog | Loop
datatype vis_job = ServerJob | PipelineJob

fun job_processes :: "vis_job \<Rightarrow> vis_process list" where
  "job_processes ServerJob = [Server]"
| "job_processes PipelineJob = [BpfLog, Loop]"

definition job_pid :: "vis_job \<Rightarrow> vis_process" where
  "job_pid j = last (job_processes j)"

datatype vis_effect = Install | StartServer | StartPipeline string | Kill vis_process | Await vis_job

definition vis_cleanup :: "vis_job list \<Rightarrow> vis_effect list" where
  "vis_cleanup children = map (\<lambda>j. Kill (job_pid j)) children @ map Await children"

text \<open>
  \<open>npm\<close> is the status of \<open>make\<close>, which installs the server's packages. Under \<open>set -e\<close> the script leaves with the status of the
  job that ends first, zero or not; \<open>cleanup\<close> runs on every way out.
\<close>

definition bpf_vis :: "nat \<Rightarrow> wakeup \<Rightarrow> string list \<Rightarrow> vis_effect list \<times> nat" where
  "bpf_vis npm e args = (case args of
     [] \<Rightarrow> (vis_cleanup [], 2)
   | container # _ \<Rightarrow>
       if npm \<noteq> 0 then ([Install] @ vis_cleanup [], npm)
       else ([Install, StartServer, StartPipeline container] @ vis_cleanup [ServerJob, PipelineJob],
             wakeup_status e))"

section \<open>Its end\<close>

text \<open>
  The processes that run after a trace, where the script gets there: a \<open>wait\<close> returns once every
  process of the job has ended, by itself (\<open>ends\<close>) or because it was signalled.
\<close>

fun play :: "(vis_process \<Rightarrow> bool) \<Rightarrow> vis_process list \<Rightarrow> vis_process list \<Rightarrow> vis_effect list \<Rightarrow> vis_process list option" where
  "play ends asked ps [] = Some ps"
| "play ends asked ps (Install # es) = play ends asked ps es"
| "play ends asked ps (StartServer # es) = play ends asked (ps @ job_processes ServerJob) es"
| "play ends asked ps (StartPipeline c # es) = play ends asked (ps @ job_processes PipelineJob) es"
| "play ends asked ps (Kill p # es) = play ends (p # asked) ps es"
| "play ends asked ps (Await j # es) =
     (if \<forall>p \<in> set (job_processes j). ends p \<or> p \<in> set asked
      then play ends asked (filter (\<lambda>p. p \<notin> set (job_processes j)) ps) es else None)"

text \<open>
  The script never leaves a process behind, but once it has started the monitors it returns only
  if bpf_log.sh ends by itself: \<open>cleanup\<close> signals the loop and not bpf_log.sh. That script notices
  a closed pipe when a monitor prints its next line, so a container that stays silent keeps both
  scripts and the monitors running.
\<close>

theorem vis_returns_iff:
  "play ends [] [] (fst (bpf_vis npm e args)) =
    (if args \<noteq> [] \<and> npm = 0 \<and> \<not> ends BpfLog then None else Some [])"
  by (simp add: bpf_vis_def vis_cleanup_def job_pid_def split: list.split)

end
