(* ===== verification/AuditTrace.thy ===== *)
theory AuditTrace
  imports VisFields
begin

text \<open>
  The bpftrace program src/src/audit.bt: the filters of its three probes, the lines they print, and
  what the log server makes of these lines. The builtins (\<open>comm\<close>, \<open>path\<close>, \<open>str\<close>, \<open>pid\<close> and so on) are
  inputs of a probe run; \<open>stamp\<close> is \<open>strftime\<close> with the script's format.
\<close>

unbundle bit_operations_syntax

section \<open>The probes\<close>

definition O_ACCMODE :: u32 where "O_ACCMODE = 3"
definition O_RDONLY :: u32 where "O_RDONLY = 0"
definition O_WRONLY :: u32 where "O_WRONLY = 1"
definition O_RDWR :: u32 where "O_RDWR = 2"

text \<open>The task a probe fires in; \<open>tk_mntns\<close> is \<open>curtask->nsproxy->mnt_ns->ns.inum\<close>.\<close>

record task =
  tk_cgroup :: u64
  tk_mntns :: u64
  tk_nsecs :: u64
  tk_pid :: u32
  tk_ppid :: u32
  tk_uid :: u32
  tk_comm :: string

text \<open>What happens in the kernel: a program is executed, or a \<open>struct file\<close> has been created.\<close>

datatype kernel_event =
    Process_exec task string
  | File_open task u32 string

definition in_container :: "u64 \<Rightarrow> u64 \<Rightarrow> task \<Rightarrow> bool" where
  "in_container cgroup mntns t \<longleftrightarrow> tk_cgroup t = cgroup \<and> tk_mntns t = mntns"

definition exec_text :: "(u64 \<Rightarrow> string) \<Rightarrow> task \<Rightarrow> string \<Rightarrow> string" where
  "exec_text stamp t filename =
     ''EXEC time='' @ stamp (tk_nsecs t) @
     '' host_pid='' @ show_nat (unat (tk_pid t)) @
     '' ppid='' @ show_nat (unat (tk_ppid t)) @
     '' uid='' @ show_nat (unat (tk_uid t)) @
     '' comm='' @ tk_comm t @
     '' file='' @ filename @ [char_of (10 :: nat)]"

definition open_text :: "string \<Rightarrow> (u64 \<Rightarrow> string) \<Rightarrow> task \<Rightarrow> u32 \<Rightarrow> string \<Rightarrow> string" where
  "open_text kind stamp t f_flags path =
     kind @ '' time='' @ stamp (tk_nsecs t) @
     '' host_pid='' @ show_nat (unat (tk_pid t)) @
     '' uid='' @ show_nat (unat (tk_uid t)) @
     '' comm='' @ tk_comm t @
     '' path='' @ path @
     '' flags=0x'' @ show_hex (unat f_flags) @ [char_of (10 :: nat)]"

definition exec_probe :: "u64 \<Rightarrow> u64 \<Rightarrow> (u64 \<Rightarrow> string) \<Rightarrow> task \<Rightarrow> string \<Rightarrow> string list" where
  "exec_probe cgroup mntns stamp t filename =
     (if in_container cgroup mntns t then [exec_text stamp t filename] else [])"

definition read_probe :: "u64 \<Rightarrow> u64 \<Rightarrow> (u64 \<Rightarrow> string) \<Rightarrow> task \<Rightarrow> u32 \<Rightarrow> string \<Rightarrow> string list" where
  "read_probe cgroup mntns stamp t f_flags path =
     (if in_container cgroup mntns t \<and> f_flags AND O_ACCMODE = O_RDONLY
      then [open_text ''RO'' stamp t f_flags path] else [])"

definition write_probe :: "u64 \<Rightarrow> u64 \<Rightarrow> (u64 \<Rightarrow> string) \<Rightarrow> task \<Rightarrow> u32 \<Rightarrow> string \<Rightarrow> string list" where
  "write_probe cgroup mntns stamp t f_flags path =
     (if in_container cgroup mntns t \<and> (f_flags AND O_ACCMODE = O_WRONLY \<or> f_flags AND O_ACCMODE = O_RDWR)
      then [open_text ''RW'' stamp t f_flags path] else [])"

text \<open>What one kernel event makes the script print.\<close>

fun audit_prints :: "u64 \<Rightarrow> u64 \<Rightarrow> (u64 \<Rightarrow> string) \<Rightarrow> kernel_event \<Rightarrow> string list" where
  "audit_prints cgroup mntns stamp (Process_exec t filename) = exec_probe cgroup mntns stamp t filename"
| "audit_prints cgroup mntns stamp (File_open t f_flags path) =
     read_probe cgroup mntns stamp t f_flags path @ write_probe cgroup mntns stamp t f_flags path"

lemmas probe_defs = exec_probe_def read_probe_def write_probe_def O_ACCMODE_def O_RDONLY_def
  O_WRONLY_def O_RDWR_def

section \<open>The access mode\<close>

lemma unat_accmode: "unat (f_flags AND O_ACCMODE) = unat f_flags mod 4"
proof -
  have "f_flags AND O_ACCMODE = take_bit 2 f_flags"
    by (simp add: O_ACCMODE_def take_bit_eq_mask mask_eq_exp_minus_1)
  then have "unat (f_flags AND O_ACCMODE) = take_bit 2 (unat f_flags)"
    by (simp add: unsigned_take_bit_eq)
  then show ?thesis by (simp add: take_bit_eq_mod)
qed

lemma accmode_iff:
  "f_flags AND O_ACCMODE = O_RDONLY \<longleftrightarrow> unat f_flags mod 4 = 0"
  "f_flags AND O_ACCMODE = O_WRONLY \<longleftrightarrow> unat f_flags mod 4 = 1"
  "f_flags AND O_ACCMODE = O_RDWR \<longleftrightarrow> unat f_flags mod 4 = 2"
  by (simp_all add: word_unat_eq_iff unat_accmode) (simp_all add: O_RDONLY_def O_WRONLY_def O_RDWR_def)

lemma audit_prints_open:
  "audit_prints cgroup mntns stamp (File_open t f_flags path) =
     (if \<not> in_container cgroup mntns t then []
      else if unat f_flags mod 4 = 0 then [open_text ''RO'' stamp t f_flags path]
      else if unat f_flags mod 4 \<in> {1, 2} then [open_text ''RW'' stamp t f_flags path]
      else [])"
  by (auto simp: read_probe_def write_probe_def accmode_iff)

section \<open>The lines come back\<close>

definition exec_fields :: "(u64 \<Rightarrow> string) \<Rightarrow> task \<Rightarrow> string \<Rightarrow> (string \<times> string) list" where
  "exec_fields stamp t filename =
     [(''time'', stamp (tk_nsecs t)),
      (''host_pid'', show_nat (unat (tk_pid t))),
      (''ppid'', show_nat (unat (tk_ppid t))),
      (''uid'', show_nat (unat (tk_uid t))),
      (''comm'', tk_comm t),
      (''file'', filename)]"

definition open_fields :: "(u64 \<Rightarrow> string) \<Rightarrow> task \<Rightarrow> u32 \<Rightarrow> string \<Rightarrow> (string \<times> string) list" where
  "open_fields stamp t f_flags path =
     [(''time'', stamp (tk_nsecs t)),
      (''host_pid'', show_nat (unat (tk_pid t))),
      (''uid'', show_nat (unat (tk_uid t))),
      (''comm'', tk_comm t),
      (''path'', path),
      (''flags'', ''0x'' @ show_hex (unat f_flags))]"

text \<open>Type and fields of the line of an event.\<close>

fun audit_line :: "(u64 \<Rightarrow> string) \<Rightarrow> kernel_event \<Rightarrow> string \<times> (string \<times> string) list" where
  "audit_line stamp (Process_exec t filename) = (''EXEC'', exec_fields stamp t filename)"
| "audit_line stamp (File_open t f_flags path) =
     (if unat f_flags mod 4 = 0 then ''RO'' else ''RW'', open_fields stamp t f_flags path)"

text \<open>
  A printed event: it happens in the container, and is not an open with access mode 3. Its texts
  must not be taken for field names or line ends; a file name that ends the line has no blanks.
\<close>

fun audited :: "u64 \<Rightarrow> u64 \<Rightarrow> kernel_event \<Rightarrow> bool" where
  "audited cgroup mntns (Process_exec t filename) \<longleftrightarrow> in_container cgroup mntns t"
| "audited cgroup mntns (File_open t f_flags path) \<longleftrightarrow> in_container cgroup mntns t \<and> unat f_flags mod 4 \<noteq> 3"

fun event_task :: "kernel_event \<Rightarrow> task" where
  "event_task (Process_exec t filename) = t"
| "event_task (File_open t f_flags path) = t"

fun event_path :: "kernel_event \<Rightarrow> string" where
  "event_path (Process_exec t filename) = filename"
| "event_path (File_open t f_flags path) = path"

definition audit_ok :: "(u64 \<Rightarrow> string) \<Rightarrow> kernel_event \<Rightarrow> bool" where
  "audit_ok stamp e \<longleftrightarrow> stamp (tk_nsecs (event_task e)) \<noteq> [] \<and> solid (stamp (tk_nsecs (event_task e))) \<and>
     plain (tk_comm (event_task e)) \<and> plain (event_path e) \<and> (\<forall>t f. e = Process_exec t f \<longrightarrow> solid f)"

lemma not_audited_silent: "\<not> audited cgroup mntns e \<Longrightarrow> audit_prints cgroup mntns stamp e = []"
  by (cases e) (auto simp: exec_probe_def audit_prints_open simp del: audit_prints.simps(2))

lemma audit_line_text:
  "audited cgroup mntns e \<Longrightarrow> \<exists>s. audit_prints cgroup mntns stamp e = [s] \<and>
     js s = js (fst (audit_line stamp e)) @ more_fields (map js_field (snd (audit_line stamp e))) @ [10]"
proof (cases e)
  case (Process_exec t filename)
  then show "audited cgroup mntns e \<Longrightarrow> ?thesis"
    by (simp add: exec_probe_def exec_text_def exec_fields_def more_fields_def field_text_def js_field_def
        js_literal newline)
next
  case (File_open t f_flags path)
  have "unat f_flags mod 4 \<in> {0, 1, 2, 3}" by auto
  then show "audited cgroup mntns e \<Longrightarrow> ?thesis"
    by (auto simp: File_open audit_prints_open open_text_def open_fields_def more_fields_def field_text_def
        js_field_def js_literal newline simp del: audit_prints.simps)
qed

lemma audit_fields_ok:
  assumes "audit_ok stamp e"
  shows "line_fields_ok (js (fst (audit_line stamp e))) (map js_field (snd (audit_line stamp e)))"
proof (rule js_fields_ok)
  show "is_type (js (fst (audit_line stamp e)))" by (cases e) (simp_all add: is_type_def js_literal)
  show "list_all (\<lambda>e. is_identifier (js (fst e)) \<and> plain (snd e)) (snd (audit_line stamp e))"
    using assms by (cases e) (simp_all add: audit_ok_def exec_fields_def open_fields_def identifier_simps solid_plain)
qed (use assms in \<open>cases e; simp add: audit_ok_def exec_fields_def open_fields_def\<close>)+

lemma audit_event:
  assumes "audited cgroup mntns e" and "audit_ok stamp e"
  shows "\<exists>s. audit_prints cgroup mntns stamp e = [s] \<and> parse_body envs (Some (js s)) =
    [event_object (envs 0) (js (fst (audit_line stamp e)) @ more_fields (map js_field (snd (audit_line stamp e))))
      (js (fst (audit_line stamp e))) (fields_map (map js_field (snd (audit_line stamp e))))]"
proof -
  obtain s where s: "audit_prints cgroup mntns stamp e = [s]"
    "js s = js (fst (audit_line stamp e)) @ more_fields (map js_field (snd (audit_line stamp e))) @ [10]"
    using audit_line_text [OF assms(1)] by blast
  have "parse_body envs (Some (js s)) = [event_object (envs 0)
      (js (fst (audit_line stamp e)) @ more_fields (map js_field (snd (audit_line stamp e))))
      (js (fst (audit_line stamp e))) (fields_map (map js_field (snd (audit_line stamp e))))]"
    using audit_fields_ok [OF assms(2)]
    by (simp add: s parse_body_def body_lines_Cons body_lines_Nil parse_line_ok List.map_filter_def)
  with s show ?thesis by blast
qed

section \<open>Properties\<close>

definition sample_task :: task where
  "sample_task = \<lparr>tk_cgroup = 7, tk_mntns = 9, tk_nsecs = 5, tk_pid = 10, tk_ppid = 11, tk_uid = 0, tk_comm = ''a b''\<rparr>"

definition sample_surroundings :: surroundings where
  "sample_surroundings = \<lparr>env_id = [], env_now = [], env_date = (\<lambda>s. None), env_number = (\<lambda>s. None)\<rparr>"

text \<open>
  C35. An exec or open in the container with an access mode other than 3 makes audit.bt print
  exactly one line, and anything else none. If its time text, comm and path are ASCII without an
  equals sign or a line feed, and the time text and the file of an exec have no blanks or control
  characters either, the server turns that line into one event of type EXEC, RO (read only) or RW
  with the pid, uid, comm and path of the event, the last two trimmed. Without these conditions
  the texts can set other fields, as forged_event of VisFields shows.
\<close>

theorem audit_event_arrives:
  "length (audit_prints cgroup mntns stamp e) = (if audited cgroup mntns e then 1 else 0) \<and>
    (audit_ok stamp e \<longrightarrow> audited cgroup mntns e \<longrightarrow> (\<exists>s ev. audit_prints cgroup mntns stamp e = [s] \<and>
       parse_body envs (Some (js s)) = [ev] \<and>
       ev (js ''type'') = Some (Str (js (case e of Process_exec t f \<Rightarrow> ''EXEC''
         | File_open t f p \<Rightarrow> if unat f mod 4 = 0 then ''RO'' else ''RW''))) \<and>
       ev (js ''host_pid'') = Some (Num (of_nat (unat (tk_pid (event_task e))))) \<and>
       ev (js ''uid'') = Some (Num (of_nat (unat (tk_uid (event_task e))))) \<and>
       ev (js ''ppid'') = Some (case e of Process_exec t f \<Rightarrow> Num (of_nat (unat (tk_ppid t))) | _ \<Rightarrow> Undefined) \<and>
       ev (js ''comm'') = Some (Str (trim (js (tk_comm (event_task e))))) \<and>
       ev (js (case e of Process_exec t f \<Rightarrow> ''file'' | _ \<Rightarrow> ''path'')) = Some (Str (trim (js (event_path e))))))"
proof (cases "audited cgroup mntns e")
  case True
  have one: "length (audit_prints cgroup mntns stamp e) = 1" using audit_line_text [OF True, of stamp] by auto
  show ?thesis
  proof (cases "audit_ok stamp e")
    case ok: True
    obtain s where s: "audit_prints cgroup mntns stamp e = [s]"
      and ev: "parse_body envs (Some (js s)) =
        [event_object (envs 0) (js (fst (audit_line stamp e)) @ more_fields (map js_field (snd (audit_line stamp e))))
          (js (fst (audit_line stamp e))) (fields_map (map js_field (snd (audit_line stamp e))))]"
      using audit_event [OF True ok] by blast
    show ?thesis
      using True one
      by (simp add: s ev, cases e)
        (simp_all add: event_object_simps fields_map_def exec_fields_def open_fields_def js_field_def
          num_field_u32 [unfolded js_def] num_field_u32 num_field_def [of _ None])
  qed (simp add: one True)
qed (simp add: not_audited_silent)

theorem audit_event_arrives_witness:
  "\<exists>s ev. audit_prints 7 9 (\<lambda>t. ''T'') (File_open sample_task 0x8001 ''/a'') = [s] \<and>
     parse_body (\<lambda>i. sample_surroundings) (Some (js s)) = [ev] \<and> ev (js ''type'') = Some (Str (js ''RW''))"
proof -
  let ?e = "File_open sample_task 0x8001 ''/a''"
  have "audit_ok (\<lambda>t. ''T'') ?e" by (simp add: audit_ok_def sample_task_def)
  moreover have "audited 7 9 ?e" by (simp add: in_container_def sample_task_def)
  ultimately show ?thesis
    using audit_event_arrives [of 7 9 "\<lambda>t. ''T''" ?e "\<lambda>i. sample_surroundings"] by fastforce
qed

end
