(* ===== verification/VisDashboard.thy ===== *)
theory VisDashboard
  imports VisServer
begin

text \<open>
  The state of a dashboard (src/src/visualization/public/app.js) and how it follows the server:
  the event list, the queue filled while the display is paused, the handlers of the stream's
  frames, and the system of a server and one dashboard, in which frames travel in order and the
  browser reconnects by itself.
\<close>

section \<open>The dashboard\<close>

text \<open>\<open>state\<close>; \<open>eventsRevision\<close> counts the changes that invalidate derived data.\<close>

record dash =
  d_events :: "event list"
  d_paused :: bool
  d_queued :: "event list"
  d_revision :: nat

definition initial_dash :: dash where
  "initial_dash = \<lparr>d_events = [], d_paused = False, d_queued = [], d_revision = 0\<rparr>"

definition trim_events :: "dash \<Rightarrow> dash" where
  "trim_events d =
     (if length (d_events d) > 5000 then d\<lparr>d_events := drop (length (d_events d) - 5000) (d_events d)\<rparr> else d)"

definition mark_changed :: "dash \<Rightarrow> dash" where
  "mark_changed d = d\<lparr>d_revision := d_revision d + 1\<rparr>"

definition toggle_pause :: "dash \<Rightarrow> dash" where
  "toggle_pause d =
     (let d = d\<lparr>d_paused := \<not> d_paused d\<rparr> in
      if \<not> d_paused d \<and> d_queued d \<noteq> []
      then mark_changed (trim_events (d\<lparr>d_events := d_events d @ d_queued d, d_queued := []\<rparr>))
      else d)"

definition load_snapshot :: "event list \<Rightarrow> dash \<Rightarrow> dash" where
  "load_snapshot es d = d\<lparr>d_events := es\<rparr>"

definition on_snapshot :: "event list \<Rightarrow> dash \<Rightarrow> dash" where
  "on_snapshot es d = mark_changed (trim_events (d\<lparr>d_events := es\<rparr>))"

definition on_events :: "event list \<Rightarrow> dash \<Rightarrow> dash" where
  "on_events es d =
     trim_events (if d_paused d then d\<lparr>d_queued := d_queued d @ es\<rparr>
       else mark_changed (d\<lparr>d_events := d_events d @ es\<rparr>))"

definition on_clear :: "dash \<Rightarrow> dash" where
  "on_clear d = mark_changed (d\<lparr>d_events := [], d_queued := []\<rparr>)"

text \<open>An \<open>EventSource\<close> dispatches named events and drops comments.\<close>

fun receive :: "frame \<Rightarrow> dash \<Rightarrow> dash" where
  "receive (Snapshot es) d = on_snapshot es d"
| "receive (Events es) d = on_events es d"
| "receive Clear d = on_clear d"
| "receive Keepalive d = d"

section \<open>What a dashboard holds\<close>

text \<open>Displayed and queued events; a running display has no queue.\<close>

definition d_held :: "dash \<Rightarrow> event list" where
  "d_held d = d_events d @ d_queued d"

definition d_inv :: "dash \<Rightarrow> bool" where
  "d_inv d \<longleftrightarrow> d_paused d \<or> d_queued d = []"

lemma trim_events_simps [simp]:
  "d_events (trim_events d) = lastn 5000 (d_events d)"
  "d_queued (trim_events d) = d_queued d" "d_paused (trim_events d) = d_paused d"
  "d_revision (trim_events d) = d_revision d"
  by (simp_all add: trim_events_def lastn_def)

lemma mark_changed_simps [simp]:
  "d_events (mark_changed d) = d_events d" "d_queued (mark_changed d) = d_queued d"
  "d_paused (mark_changed d) = d_paused d" "d_revision (mark_changed d) = d_revision d + 1"
  by (simp_all add: mark_changed_def)

lemmas dash_defs = toggle_pause_def on_snapshot_def on_events_def on_clear_def d_held_def d_inv_def Let_def

lemma receive_inv [inv_intros]: "d_inv d \<Longrightarrow> d_inv (receive f d)"
  by (cases f) (auto simp: dash_defs)

lemma toggle_inv [inv_intros]: "d_inv d \<Longrightarrow> d_inv (toggle_pause d)"
  by (auto simp: dash_defs)

lemma toggle_held: "d_inv d \<Longrightarrow> lastn 5000 (d_held (toggle_pause d)) = lastn 5000 (d_held d)"
  by (auto simp: dash_defs lastn_lastn)

text \<open>Between snapshots a dashboard is a log of the newest 5000 events.\<close>

interpretation dash_log: bounded_log d_inv d_held on_events on_clear 5000
proof
  fix d es assume d: "d_inv d"
  show "d_inv (on_events es d)" using receive_inv [OF d, of "Events es"] by simp
  show "d_inv (on_clear d)" using receive_inv [OF d, of Clear] by simp
  show "lastn 5000 (d_held (on_events es d)) = lastn 5000 (d_held d @ es)"
    using d by (auto simp: dash_defs lastn_lastn lastn_append_lastn)
  show "d_held (on_clear d) = []" by (simp add: dash_defs)
qed

text \<open>What a frame makes of the events that should be held.\<close>

fun frame_effect :: "event list \<Rightarrow> frame \<Rightarrow> event list" where
  "frame_effect es (Snapshot es') = es'"
| "frame_effect es (Events es') = es @ es'"
| "frame_effect es Clear = []"
| "frame_effect es Keepalive = es"

lemma receive_held:
  assumes "d_inv d" and "\<forall>es. f = Snapshot es \<longrightarrow> d_queued d = []"
  shows "lastn 5000 (d_held (receive f d)) = lastn 5000 (frame_effect (d_held d) f)"
proof (cases f)
  case (Snapshot es)
  then show ?thesis using assms(2) by (simp add: on_snapshot_def d_held_def lastn_lastn)
next
  case (Events es)
  then show ?thesis using dash_log.push_contents [OF assms(1)] by simp
next
  case Clear
  then show ?thesis using dash_log.clear_contents [OF assms(1)] by simp
qed simp

lemma frame_effect_cong: "lastn k xs = lastn k ys \<Longrightarrow> lastn k (frame_effect xs f) = lastn k (frame_effect ys f)"
  by (cases f) (simp_all add: lastn_append_cong [of k xs ys])

lemma frames_effect_cong:
  "lastn k xs = lastn k ys \<Longrightarrow> lastn k (foldl frame_effect xs fs) = lastn k (foldl frame_effect ys fs)"
proof (induction fs arbitrary: xs ys)
  case (Cons f fs)
  from Cons.IH [OF frame_effect_cong [OF Cons.prems, of f]] show ?case by simp
qed simp

section \<open>A server and a dashboard\<close>

text \<open>
  The dashboard reads the frames written to stream \<open>v_client\<close>; \<open>v_seen\<close> of them have been
  dispatched. A lost connection is replaced by a new stream, and what was still under way is lost.
\<close>

record vis =
  v_server :: server
  v_client :: nat
  v_seen :: nat
  v_dash :: dash

definition v_pending :: "vis \<Rightarrow> frame list" where
  "v_pending v = (case sv_clients (v_server v) (v_client v) of None \<Rightarrow> [] | Some fs \<Rightarrow> drop (v_seen v) fs)"

datatype vis_op = Serve request | Deliver | Toggle | Reconnect nat

definition vis_do :: "int option \<Rightarrow> vis_op \<Rightarrow> vis \<Rightarrow> vis" where
  "vis_do limit op v = (case op of
     Serve r \<Rightarrow> v\<lparr>v_server := fst (serve limit r (v_server v))\<rparr>
   | Deliver \<Rightarrow>
       (case v_pending v of
          [] \<Rightarrow> v
        | f # _ \<Rightarrow> v\<lparr>v_seen := v_seen v + 1, v_dash := receive f (v_dash v)\<rparr>)
   | Toggle \<Rightarrow> v\<lparr>v_dash := toggle_pause (v_dash v)\<rparr>
   | Reconnect c \<Rightarrow>
       v\<lparr>v_server := fst (open_stream c (fst (close_stream (v_client v) (v_server v)))),
         v_client := c, v_seen := 0\<rparr>)"

fun vis_run :: "int option \<Rightarrow> vis_op list \<Rightarrow> vis \<Rightarrow> vis" where
  "vis_run limit [] v = v"
| "vis_run limit (op # ops) v = vis_run limit ops (vis_do limit op v)"

text \<open>
  A step that neither uses the dashboard's stream number for another client nor reconnects while
  events are queued.
\<close>

fun calm_op :: "vis_op \<Rightarrow> vis \<Rightarrow> bool" where
  "calm_op (Serve (Stream c)) v \<longleftrightarrow> c \<noteq> v_client v"
| "calm_op (Serve (Close c)) v \<longleftrightarrow> c \<noteq> v_client v"
| "calm_op (Reconnect c) v \<longleftrightarrow> d_queued (v_dash v) = []"
| "calm_op _ v \<longleftrightarrow> True"

fun calm :: "int option \<Rightarrow> vis_op list \<Rightarrow> vis \<Rightarrow> bool" where
  "calm limit [] v \<longleftrightarrow> True"
| "calm limit (op # ops) v \<longleftrightarrow> calm_op op v \<and> calm limit ops (vis_do limit op v)"

text \<open>A freshly opened page: the listing has been fetched and the stream opened.\<close>

definition open_page :: "nat \<Rightarrow> server \<Rightarrow> vis" where
  "open_page c s =
     \<lparr>v_server = fst (open_stream c s), v_client = c, v_seen = 0,
      v_dash = load_snapshot (case snd (get_events s) of Listing es \<Rightarrow> es | _ \<Rightarrow> []) initial_dash\<rparr>"

section \<open>Following the server\<close>

text \<open>How much of the server's buffer a dashboard can show.\<close>

definition view_cap :: "int option \<Rightarrow> nat" where
  "view_cap limit = (case limit of None \<Rightarrow> 5000 | Some m \<Rightarrow> min (nat m) 5000)"

text \<open>
  What will be held once the frames under way are in is what the server has; only the first frame
  under way can be a snapshot, and none is queued then.
\<close>

definition v_inv :: "int option \<Rightarrow> vis \<Rightarrow> bool" where
  "v_inv limit v \<longleftrightarrow>
     d_inv (v_dash v) \<and>
     (\<exists>fs. sv_clients (v_server v) (v_client v) = Some fs \<and> v_seen v \<le> length fs) \<and>
     lastn (view_cap limit) (foldl frame_effect (d_held (v_dash v)) (v_pending v)) =
       lastn (view_cap limit) (sv_events (v_server v)) \<and>
     (\<forall>es. Snapshot es \<in> set (v_pending v) \<longrightarrow>
        d_queued (v_dash v) = [] \<and> (\<forall>es. Snapshot es \<notin> set (tl (v_pending v))))"

lemma view_cap_le [simp]: "view_cap limit \<le> 5000"
  by (simp add: view_cap_def split: option.split)

lemma lastn_view: "lastn 5000 xs = lastn 5000 ys \<Longrightarrow> lastn (view_cap limit) xs = lastn (view_cap limit) ys"
  by (metis lastn_lastn min.absorb1 view_cap_le)

lemma lastn_trim_log: "lastn (view_cap limit) (trim_log limit es) = lastn (view_cap limit) es"
  by (cases limit) (simp_all add: view_cap_def trim_log_lastn lastn_lastn, simp add: trim_log_def)

text \<open>A request appends at most one frame to the stream, whose effect is the request's.\<close>

lemma serve_stream:
  assumes "calm_op (Serve r) v"
  obtains fs where
    "sv_clients (fst (serve limit r s)) (v_client v) = map_option (\<lambda>gs. gs @ fs) (sv_clients s (v_client v))"
    "\<forall>es. Snapshot es \<notin> set fs"
    "lastn (view_cap limit) (foldl frame_effect (sv_events s) fs) =
       lastn (view_cap limit) (sv_events (fst (serve limit r s)))"
proof (cases r)
  case (Post envs body)
  show thesis
  proof (cases "parse_body envs body = []")
    case True
    then show thesis by (intro that [of "[]"]) (simp_all add: Post post_events_def map_option.id [unfolded id_def])
  next
    case False
    then show thesis
      by (intro that [of "[Events (parse_body envs body)]"])
        (simp_all add: Post post_events_def Let_def store_def broadcast_def lastn_trim_log)
  qed
next
  case Delete
  show thesis by (intro that [of "[Clear]"]) (simp_all add: Delete delete_events_def wipe_def broadcast_def)
next
  case Get
  show thesis by (intro that [of "[]"]) (simp_all add: Get get_events_def map_option.id [unfolded id_def])
next
  case (Stream c)
  show thesis using assms
    by (intro that [of "[]"]) (simp_all add: Stream open_stream_def map_option.id [unfolded id_def])
next
  case (Tick c)
  show thesis
    by (intro that [of "if c = v_client v then [Keepalive] else []"])
      (simp_all add: Tick keepalive_def map_option.id [unfolded id_def])
next
  case (Close c)
  show thesis using assms
    by (intro that [of "[]"]) (simp_all add: Close close_stream_def map_option.id [unfolded id_def])
qed

lemma v_invE:
  assumes "v_inv limit v"
  obtains fs where "sv_clients (v_server v) (v_client v) = Some fs" and "v_seen v \<le> length fs"
    and "v_pending v = drop (v_seen v) fs" and "d_inv (v_dash v)"
    and "lastn (view_cap limit) (foldl frame_effect (d_held (v_dash v)) (v_pending v)) =
       lastn (view_cap limit) (sv_events (v_server v))"
    and "\<forall>es. Snapshot es \<in> set (v_pending v) \<longrightarrow>
        d_queued (v_dash v) = [] \<and> (\<forall>es. Snapshot es \<notin> set (tl (v_pending v)))"
  using assms by (auto simp: v_inv_def v_pending_def)

lemma serve_inv:
  assumes v: "v_inv limit v" and c: "calm_op (Serve r) v"
  shows "v_inv limit (vis_do limit (Serve r) v)"
proof -
  from v obtain fs where fs: "sv_clients (v_server v) (v_client v) = Some fs" "v_seen v \<le> length fs"
      "v_pending v = drop (v_seen v) fs" "d_inv (v_dash v)"
    and eff: "lastn (view_cap limit) (foldl frame_effect (d_held (v_dash v)) (v_pending v)) =
       lastn (view_cap limit) (sv_events (v_server v))"
    and snap: "\<forall>es. Snapshot es \<in> set (v_pending v) \<longrightarrow>
        d_queued (v_dash v) = [] \<and> (\<forall>es. Snapshot es \<notin> set (tl (v_pending v)))"
    by (rule v_invE)
  from serve_stream [OF c, of limit "v_server v"] obtain gs where
    gs: "sv_clients (fst (serve limit r (v_server v))) (v_client v) = Some (fs @ gs)" "\<forall>es. Snapshot es \<notin> set gs"
      "lastn (view_cap limit) (foldl frame_effect (sv_events (v_server v)) gs) =
       lastn (view_cap limit) (sv_events (fst (serve limit r (v_server v))))"
    by (metis fs(1) option.simps(9))
  let ?v = "vis_do limit (Serve r) v"
  have pend: "v_pending ?v = v_pending v @ gs"
    using fs gs(1) by (simp add: vis_do_def v_pending_def)
  have "lastn (view_cap limit) (foldl frame_effect (d_held (v_dash v)) (v_pending ?v)) =
      lastn (view_cap limit) (sv_events (v_server ?v))"
    using frames_effect_cong [OF eff, of gs] gs(3) unfolding pend by (simp add: vis_do_def)
  moreover have "\<forall>es. Snapshot es \<in> set (v_pending ?v) \<longrightarrow>
      d_queued (v_dash v) = [] \<and> (\<forall>es. Snapshot es \<notin> set (tl (v_pending ?v)))"
    using snap gs(2) by (cases "v_pending v") (auto simp: pend)
  ultimately show ?thesis
    using fs gs(1) by (simp add: v_inv_def) (simp add: vis_do_def)
qed

lemma deliver_inv:
  assumes v: "v_inv limit v"
  shows "v_inv limit (vis_do limit Deliver v)"
proof (cases "v_pending v")
  case Nil
  then show ?thesis using v by (simp add: vis_do_def)
next
  case (Cons f rest)
  from v obtain fs where fs: "sv_clients (v_server v) (v_client v) = Some fs"
      "v_pending v = drop (v_seen v) fs" and d: "d_inv (v_dash v)"
    and eff: "lastn (view_cap limit) (foldl frame_effect (d_held (v_dash v)) (v_pending v)) =
       lastn (view_cap limit) (sv_events (v_server v))"
    and snap: "\<forall>es. Snapshot es \<in> set (v_pending v) \<longrightarrow>
        d_queued (v_dash v) = [] \<and> (\<forall>es. Snapshot es \<notin> set (tl (v_pending v)))"
    by (rule v_invE)
  let ?v = "vis_do limit Deliver v"
  have v': "?v = v\<lparr>v_seen := v_seen v + 1, v_dash := receive f (v_dash v)\<rparr>"
    using Cons by (simp add: vis_do_def)
  have len: "v_seen v < length fs" using Cons fs(2) by (metis drop_eq_Nil2 leI list.distinct(1))
  have pend: "v_pending ?v = rest"
    using Cons fs by (simp add: v' v_pending_def drop_Suc tl_drop [symmetric])
  have "lastn 5000 (d_held (receive f (v_dash v))) = lastn 5000 (frame_effect (d_held (v_dash v)) f)"
    using snap Cons by (intro receive_held [OF d]) auto
  from frames_effect_cong [OF lastn_view [OF this], of limit rest] eff
  have "lastn (view_cap limit) (foldl frame_effect (d_held (v_dash ?v)) (v_pending ?v)) =
      lastn (view_cap limit) (sv_events (v_server ?v))"
    unfolding pend by (simp add: v' Cons)
  moreover have "Snapshot es \<notin> set rest" for es
    using snap Cons by (cases f) auto
  ultimately show ?thesis
    using fs(1) len receive_inv [OF d, of f] unfolding v_inv_def pend by (simp add: v')
qed

lemma toggle_v_inv:
  assumes v: "v_inv limit v"
  shows "v_inv limit (vis_do limit Toggle v)"
proof -
  let ?d = "v_dash v"
  have v': "vis_do limit Toggle v = v\<lparr>v_dash := toggle_pause ?d\<rparr>" by (simp add: vis_do_def)
  have p: "v_pending (vis_do limit Toggle v) = v_pending v" by (simp add: v' v_pending_def split: option.split)
  have q: "d_queued ?d = [] \<Longrightarrow> d_queued (toggle_pause ?d) = []" by (auto simp: dash_defs)
  have d: "d_inv ?d" using v by (simp add: v_inv_def)
  from v frames_effect_cong [OF lastn_view [OF toggle_held [OF d]], of limit "v_pending v"] toggle_inv [OF d] q
  show ?thesis unfolding v_inv_def p by (simp add: v')
qed

lemma vis_do_inv: "v_inv limit v \<Longrightarrow> calm_op op v \<Longrightarrow> v_inv limit (vis_do limit op v)"
proof (cases op)
  case (Reconnect c)
  assume "v_inv limit v" "calm_op op v"
  then have "d_inv (v_dash v)" and "d_queued (v_dash v) = []" using Reconnect by (simp_all add: v_inv_def)
  then show ?thesis
    by (simp add: Reconnect vis_do_def v_inv_def v_pending_def open_stream_def close_stream_def)
qed (simp_all add: serve_inv deliver_inv toggle_v_inv)

lemma vis_run_inv: "v_inv limit v \<Longrightarrow> calm limit ops v \<Longrightarrow> v_inv limit (vis_run limit ops v)"
  by (induction limit ops v rule: vis_run.induct) (simp_all add: vis_do_inv)

lemma open_page_inv: "v_inv limit (open_page c s)"
  by (simp add: v_inv_def v_pending_def open_page_def open_stream_def get_events_def load_snapshot_def
      initial_dash_def dash_defs)

text \<open>Dispatching all frames under way.\<close>

lemma vis_run_append [simp]: "vis_run limit (ops @ ops') v = vis_run limit ops' (vis_run limit ops v)"
  by (induction limit ops v rule: vis_run.induct) simp_all

lemma calm_deliver: "calm limit (replicate n Deliver) v"
  by (induction n arbitrary: v) simp_all

lemma pending_deliver: "v_pending (vis_do limit Deliver v) = tl (v_pending v)"
  by (auto simp: vis_do_def v_pending_def drop_Suc tl_drop [symmetric] split: option.split list.split)

lemma pending_delivered: "v_pending (vis_run limit (replicate n Deliver) v) = drop n (v_pending v)"
  by (induction n arbitrary: v) (simp_all add: pending_deliver drop_Suc)

lemma deliver_server: "v_server (vis_run limit (replicate n Deliver) v) = v_server v"
proof (induction n arbitrary: v)
  case (Suc n)
  moreover have "v_server (vis_do limit Deliver v) = v_server v" by (simp add: vis_do_def split: list.split)
  ultimately show ?case by simp
qed simp

lemma deliver_paused: "d_paused (v_dash (vis_run limit (replicate n Deliver) v)) = d_paused (v_dash v)"
proof (induction n arbitrary: v)
  case (Suc n)
  moreover have "d_paused (receive f d) = d_paused d" for f d by (cases f) (auto simp: dash_defs)
  then have "d_paused (v_dash (vis_do limit Deliver v)) = d_paused (v_dash v)"
    by (simp add: vis_do_def split: list.split)
  ultimately show ?case by simp
qed simp

section \<open>Properties\<close>

text \<open>
  Why reconnecting while events are queued is excluded: the snapshot of the new stream already holds
  the queued events, and resuming appends them a second time.
\<close>

lemma reconnect_while_paused_duplicates:
  assumes "parse_body envs body = [e]"
  shows "d_events (v_dash (vis_run (Some 5000)
      [Deliver, Toggle, Serve (Post envs body), Deliver, Reconnect 1, Deliver, Toggle] (open_page 0 new_server))) = [e, e]"
  by (simp add: vis_do_def v_pending_def open_page_def open_stream_def close_stream_def new_server_def
      post_events_def store_def broadcast_def trim_log_def assms get_events_def load_snapshot_def
      initial_dash_def dash_defs lastn_def)

text \<open>
  C30. A dashboard refines the server's buffer: after any requests, pauses, resumes and reconnects
  (none while events are queued), once the frames under way are in, what it displays and has
  queued ends in the same newest events as the buffer, up to its limit of 5000; a running display
  has nothing queued.
\<close>

theorem dashboard_follows_server:
  assumes "calm limit ops (open_page c s)" and "v = vis_run limit ops (open_page c s)"
    and "w = vis_run limit (replicate (length (v_pending v)) Deliver) v"
  shows "v_pending w = [] \<and> v_server w = v_server v \<and>
    lastn (view_cap limit) (d_events (v_dash w) @ d_queued (v_dash w)) =
      lastn (view_cap limit) (sv_events (v_server v)) \<and>
    (d_paused (v_dash v) \<or> d_queued (v_dash w) = [])"
proof -
  have "v_inv limit v" using vis_run_inv [OF open_page_inv assms(1)] by (simp add: assms(2))
  then have w: "v_inv limit w" unfolding assms(3) by (rule vis_run_inv [OF _ calm_deliver])
  moreover have p: "v_pending w = []" by (simp add: assms(3) pending_delivered)
  moreover have "v_server w = v_server v" by (simp add: assms(3) deliver_server)
  moreover have "d_paused (v_dash w) = d_paused (v_dash v)" by (simp add: assms(3) deliver_paused)
  ultimately show ?thesis by (simp add: v_inv_def d_held_def d_inv_def)
qed

theorem dashboard_follows_server_witness:
  "let v = vis_run (Some 5000) [Toggle, Serve Delete, Deliver, Toggle] (open_page 0 (new_server\<lparr>sv_events := [Map.empty]\<rparr>));
       w = vis_run (Some 5000) (replicate (length (v_pending v)) Deliver) v
   in lastn (view_cap (Some 5000)) (d_events (v_dash w) @ d_queued (v_dash w)) =
      lastn (view_cap (Some 5000)) (sv_events (v_server v))"
proof -
  let ?ops = "[Toggle, Serve Delete, Deliver, Toggle]"
  have "calm (Some 5000) ?ops (open_page 0 (new_server\<lparr>sv_events := [Map.empty]\<rparr>))" by simp
  from dashboard_follows_server [OF this refl refl] show ?thesis unfolding Let_def by blast
qed

end
