(* ===== verification/LogFlow.thy ===== *)
theory LogFlow
  imports NetmonPoll AuditTrace VisDashboard
begin

text \<open>
  From the two monitors to the dashboards: src/src/bpf_log.sh lets netmon and bpftrace write whole
  lines to one stream, src/src/bpf_vis.sh reads it line by line and posts each line to the server.
  The interleaving of the two writers, the decoding of request bodies (\<open>utf8\<close>) and what each
  request's surroundings supply are parameters.
\<close>

section \<open>The script\<close>

definition nul_char :: char where "nul_char = char_of (0 :: nat)"
definition lf_char :: char where "lf_char = char_of (10 :: nat)"

text \<open>
  \<open>while IFS= read -r line\<close>: the shell drops NUL bytes, and a last line without its line feed makes
  \<open>read\<close> fail, so that it is not processed.
\<close>

fun read_lines :: "string \<Rightarrow> string \<Rightarrow> string list" where
  "read_lines line [] = []"
| "read_lines line (c # s) =
     (if c = lf_char then line # read_lines [] s
      else if c = nul_char then read_lines line s
      else read_lines (line @ [c]) s)"

text \<open>
  The loop's body: empty lines are skipped, any other is posted with its line feed. \<open>up i\<close> is
  whether the \<open>i\<close>th call of curl reaches the server; where one does not, \<open>set -e\<close> and \<open>pipefail\<close>
  end the loop.
\<close>

fun forward :: "(nat \<Rightarrow> bool) \<Rightarrow> nat \<Rightarrow> string list \<Rightarrow> string list" where
  "forward up i [] = []"
| "forward up i (line # ls) =
     (if line = [] then forward up i ls
      else if up i then (line @ [lf_char]) # forward up (Suc i) ls
      else [])"

definition vis_bodies :: "(nat \<Rightarrow> bool) \<Rightarrow> string \<Rightarrow> string list" where
  "vis_bodies up stream = forward up 0 (read_lines [] stream)"

definition vis_posts :: "(nat \<Rightarrow> nat \<Rightarrow> surroundings) \<Rightarrow> (string \<Rightarrow> jstr) \<Rightarrow> string list \<Rightarrow> request list" where
  "vis_posts envs utf8 bodies = map (\<lambda>(i, b). Post (envs i) (Some (utf8 b))) (enumerate 0 bodies)"

text \<open>Decoding a body as UTF-8: on ASCII text every byte is its character.\<close>

definition decodes_ascii :: "(string \<Rightarrow> jstr) \<Rightarrow> bool" where
  "decodes_ascii utf8 \<longleftrightarrow> (\<forall>s. list_all (\<lambda>c. of_char c < (128 :: nat)) s \<longrightarrow> utf8 s = js s)"

section \<open>Whole lines\<close>

definition whole_line :: "string \<Rightarrow> bool" where
  "whole_line s \<longleftrightarrow> (\<exists>t. s = t @ [lf_char] \<and> t \<noteq> [] \<and> lf_char \<notin> set t \<and> nul_char \<notin> set t)"

lemma read_line:
  "lf_char \<notin> set t \<Longrightarrow> nul_char \<notin> set t \<Longrightarrow> read_lines line (t @ lf_char # s) = (line @ t) # read_lines [] s"
  by (induction t arbitrary: line) auto

lemma bodies_of_lines:
  "list_all whole_line ls \<Longrightarrow> forward (\<lambda>_. True) i (read_lines [] (concat ls)) = ls"
  by (induction ls arbitrary: i) (auto simp: whole_line_def read_line)

lemma vis_bodies_lines: "list_all whole_line ls \<Longrightarrow> vis_bodies (\<lambda>_. True) (concat ls) = ls"
  by (simp add: vis_bodies_def bodies_of_lines)

text \<open>As long as curl succeeds, what has been posted is a prefix of the lines.\<close>

lemma forward_prefix: "list_all whole_line ls \<Longrightarrow> \<exists>n. forward up i (read_lines [] (concat ls)) = take n ls"
proof (induction ls arbitrary: i)
  case (Cons s ls)
  then obtain t where t: "s = t @ [lf_char]" "t \<noteq> []" "lf_char \<notin> set t" "nul_char \<notin> set t"
    by (auto simp: whole_line_def)
  obtain n where "forward up (Suc i) (read_lines [] (concat ls)) = take n ls" using Cons by auto
  then show ?case
    using t by (cases "up i") (auto simp: read_line intro: exI [of _ "Suc n"] exI [of _ 0])
qed simp

section \<open>Lines that stand for one event\<close>

text \<open>\<open>s\<close> is a line which the server turns into one event, and the event satisfies \<open>P\<close>.\<close>

definition posts_event :: "(event \<Rightarrow> bool) \<Rightarrow> string \<Rightarrow> bool" where
  "posts_event P s \<longleftrightarrow> list_all (\<lambda>c. of_char c < (128 :: nat)) s \<and> whole_line s \<and>
     (\<forall>envs. \<exists>e. parse_body envs (Some (js s)) = [e] \<and> P e)"

lemma posts_event_mono: "posts_event P s \<Longrightarrow> (\<And>e. P e \<Longrightarrow> Q e) \<Longrightarrow> posts_event Q s"
  unfolding posts_event_def by blast

definition line_events :: "(nat \<Rightarrow> nat \<Rightarrow> surroundings) \<Rightarrow> nat \<Rightarrow> string list \<Rightarrow> event list" where
  "line_events envs k ls = concat (map (\<lambda>(i, s). parse_body (envs i) (Some (js s))) (enumerate k ls))"

lemma posts_history:
  "\<forall>s\<in>set ls. utf8 s = js s \<Longrightarrow>
     log_history hs (log_ops (map (\<lambda>(i, b). Post (envs i) (Some (utf8 b))) (enumerate k ls))) =
       hs @ line_events envs k ls"
  by (induction ls arbitrary: hs k) (simp_all add: line_events_def)

lemma list_all2_events:
  "list_all2 posts_event Ps ls \<Longrightarrow> list_all2 (\<lambda>P e. P e) Ps (line_events envs k ls)"
proof (induction ls arbitrary: k Ps)
  case (Cons s ls)
  then obtain P Qs where Ps: "Ps = P # Qs" "posts_event P s" "list_all2 posts_event Qs ls"
    by (auto simp: list_all2_Cons2)
  then obtain e where "parse_body (envs k) (Some (js s)) = [e]" "P e" by (auto simp: posts_event_def)
  with Cons.IH [OF Ps(3)] Ps(1) show ?case by (simp add: line_events_def)
qed (simp add: line_events_def)

text \<open>All lines together: what the posts add to an empty log.\<close>

lemma vis_posts_events:
  assumes "decodes_ascii utf8" and "list_all2 posts_event Ps ls"
  shows "list_all2 (\<lambda>P e. P e) Ps (log_history [] (log_ops (vis_posts envs utf8 (vis_bodies (\<lambda>_. True) (concat ls)))))"
proof -
  have s: "whole_line s \<and> utf8 s = js s" if "s \<in> set ls" for s
    using assms that by (auto simp: list_all2_conv_all_nth in_set_conv_nth posts_event_def decodes_ascii_def)
  then have "vis_bodies (\<lambda>_. True) (concat ls) = ls" by (intro vis_bodies_lines) (simp add: list_all_iff)
  then show ?thesis
    using s list_all2_events [OF assms(2), of envs 0] posts_history [of ls utf8 "[]" envs 0]
    by (simp add: vis_posts_def)
qed

section \<open>The lines of the monitors\<close>

definition is_connect :: "event \<Rightarrow> bool" where
  "is_connect e \<longleftrightarrow> e (js ''type'') = Some (Str (js ''CONNECT''))"

text \<open>What an event shows of a connection, and what the printed line says of it.\<close>

definition event_view :: "event \<Rightarrow> jsval option list" where
  "event_view e = map (\<lambda>k. e (js k)) [''timestamp_ns'', ''host_pid'', ''tid'', ''uid'', ''comm'', ''protocol'', ''dst'']"

definition line_view :: "connect_line \<Rightarrow> jsval option list" where
  "line_view l =
     [Some (Str (js (show_nat (unat (cl_timestamp_ns l))))), Some (Num (of_nat (unat (cl_pid l)))),
      Some (Num (of_nat (unat (cl_tid l)))), Some (Num (of_nat (unat (cl_uid l)))),
      Some (Str (trim (js (cl_comm l)))), Some (Str (js (cl_protocol l))),
      Some (Str (js (cl_destination l @ '':'' @ show_nat (unat (cl_port l)))))]"

definition shows_line :: "connect_line \<Rightarrow> event \<Rightarrow> bool" where
  "shows_line l e \<longleftrightarrow> is_connect e \<and> event_view e = line_view l \<and>
     e (js ''hostnames'') = Some (Str (js (join '','' (cl_hostnames l))))"

text \<open>Text that passes the shell and the decoder unchanged, within one line.\<close>

definition clean :: "string \<Rightarrow> bool" where
  "clean s \<longleftrightarrow> list_all (\<lambda>c. of_char c < (128 :: nat) \<and> c \<noteq> lf_char \<and> c \<noteq> nul_char) s"

lemma clean_simps [simp]:
  "clean []" "clean (s @ t) \<longleftrightarrow> clean s \<and> clean t"
  "clean (c # s) \<longleftrightarrow> of_char c < (128 :: nat) \<and> c \<noteq> lf_char \<and> c \<noteq> nul_char \<and> clean s"
  by (simp_all add: clean_def)

lemma special_chars [simp]:
  "of_char lf_char = (10 :: nat)" "of_char nul_char = (0 :: nat)" "(of_char lf_char :: unit16) = 10"
  by (simp_all add: lf_char_def nul_char_def newline)

lemma plain_clean: "plain s \<Longrightarrow> nul_char \<notin> set s \<Longrightarrow> clean s"
  unfolding plain_def clean_def list_all_iff by (metis special_chars(1))

lemma solid_clean: "solid s \<Longrightarrow> clean s"
proof (rule plain_clean)
  assume s: "solid s"
  then show "plain s" by (rule solid_plain)
  from s show "nul_char \<notin> set s" by (auto simp: solid_def list_all_iff)
qed

definition fields_text :: "(string \<times> string) list \<Rightarrow> string" where
  "fields_text es = concat (map (\<lambda>e. '' '' @ fst e @ ''='' @ snd e) es)"

lemma js_fields_text: "js (fields_text es) = more_fields (map js_field es)"
  by (induction es) (simp_all add: fields_text_def more_fields_def field_text_def js_field_def js_literal)

lemma clean_fields_text:
  "list_all (\<lambda>e. clean (fst e) \<and> clean (snd e)) es \<Longrightarrow> clean (fields_text es)"
  by (induction es) (simp_all add: fields_text_def, simp add: lf_char_def nul_char_def char_of_def bit_0)

lemma whole_field_line:
  assumes "js s = js t @ more_fields (map js_field es) @ [10]" and "clean t" and "t \<noteq> []"
    and "list_all (\<lambda>e. clean (fst e) \<and> clean (snd e)) es"
  shows "list_all (\<lambda>c. of_char c < (128 :: nat)) s \<and> whole_line s"
proof -
  have "js s = js (t @ fields_text es @ [lf_char])" by (simp add: assms(1) js_fields_text) (simp add: js_def)
  then have s: "s = t @ fields_text es @ [lf_char]" by (simp only: js_eq)
  have "clean (t @ fields_text es)" using assms(2) clean_fields_text [OF assms(4)] by simp
  then show ?thesis
    using assms(3) unfolding s whole_line_def
    by (auto simp: clean_def list_all_iff intro!: exI [of _ "t @ fields_text es"])
qed

lemma connect_posts:
  assumes ok: "line_ok wall l" and nul: "nul_char \<notin> set (cl_comm l)"
  shows "posts_event (shows_line l) (connect_text wall l)"
proof -
  have h: "solid (join '','' (cl_hostnames l))" by (rule connect_fields_ok(3) [OF ok])
  note texts = ok [unfolded line_ok_def]
  have "list_all (\<lambda>e. clean (fst e) \<and> clean (snd e)) (connect_fields wall l)"
    using texts h nul plain_clean [of "cl_comm l"]
    by (simp add: connect_fields_def solid_clean) (simp add: lf_char_def nul_char_def char_of_def bit_0)
  then have "list_all (\<lambda>c. of_char c < (128 :: nat)) (connect_text wall l) \<and> whole_line (connect_text wall l)"
    by (intro whole_field_line [OF connect_text_fields])
      (simp_all add: lf_char_def nul_char_def char_of_def bit_0)
  moreover have "shows_line l (event_object env r (js ''CONNECT'') (connect_map wall l))" for env r
    using connect_map_simps [OF ok]
    by (simp add: shows_line_def is_connect_def event_view_def line_view_def event_object_simps num_field_u32)
  ultimately show ?thesis using connect_body [OF ok] by (simp add: posts_event_def)
qed

definition audit_clean :: "(u64 \<Rightarrow> string) \<Rightarrow> kernel_event \<Rightarrow> bool" where
  "audit_clean stamp e \<longleftrightarrow> audit_ok stamp e \<and> nul_char \<notin> set (tk_comm (event_task e)) \<and> nul_char \<notin> set (event_path e)"

lemma audit_posts:
  assumes e: "audited cgroup mntns e" and ok: "audit_clean stamp e" and s: "s \<in> set (audit_prints cgroup mntns stamp e)"
  shows "posts_event (\<lambda>e. \<not> is_connect e) s"
proof -
  have a: "audit_ok stamp e" using ok by (simp add: audit_clean_def)
  obtain s' where s': "audit_prints cgroup mntns stamp e = [s']"
    "js s' = js (fst (audit_line stamp e)) @ more_fields (map js_field (snd (audit_line stamp e))) @ [10]"
    using audit_line_text [OF e] by blast
  have js_s: "js s = js (fst (audit_line stamp e)) @ more_fields (map js_field (snd (audit_line stamp e))) @ [10]"
    using s s' by simp
  have "list_all (\<lambda>e. clean (fst e) \<and> clean (snd e)) (snd (audit_line stamp e))"
    using ok plain_clean
    by (cases e; simp add: audit_clean_def audit_ok_def exec_fields_def open_fields_def solid_clean)
      (simp_all add: lf_char_def nul_char_def char_of_def bit_0)
  then have "list_all (\<lambda>c. of_char c < (128 :: nat)) s \<and> whole_line s"
    by (intro whole_field_line [OF js_s]) (cases e; simp add: lf_char_def nul_char_def char_of_def bit_0)+
  moreover have "\<exists>ev. parse_body envs (Some (js s)) = [ev] \<and> \<not> is_connect ev" for envs
  proof -
    let ?f = "fields_map (map js_field (snd (audit_line stamp e)))"
    let ?ev = "event_object (envs 0) (js (fst (audit_line stamp e)) @ more_fields (map js_field (snd (audit_line stamp e))))
      (js (fst (audit_line stamp e))) ?f"
    have "?f (js ''type'') = None"
      by (cases e) (simp_all add: fields_map_def exec_fields_def open_fields_def js_field_def)
    then have "?ev (js ''type'') = Some (Str (js (fst (audit_line stamp e))))" by (rule event_object_simps)
    moreover have "fst (audit_line stamp e) \<noteq> ''CONNECT''" by (cases e) simp_all
    ultimately have "\<not> is_connect ?ev" by (simp add: is_connect_def)
    then show ?thesis using audit_event [OF e a, of envs] s s' by auto
  qed
  ultimately show ?thesis by (simp add: posts_event_def)
qed

section \<open>One stream from two monitors\<close>

lemma shows_connect: "shows_line l e \<Longrightarrow> is_connect e"
  by (simp add: shows_line_def)

text \<open>
  However whole lines of the two are mixed, the events of the stream contain one CONNECT event per
  CONNECT line, in order, and no other CONNECT event.
\<close>

lemma shuffled_posts:
  "zs \<in> shuffles xs ys \<Longrightarrow> list_all2 (\<lambda>l. posts_event (shows_line l)) ls xs \<Longrightarrow>
   \<forall>s\<in>set ys. posts_event (\<lambda>e. \<not> is_connect e) s \<Longrightarrow>
   \<exists>Ps. list_all2 posts_event Ps zs \<and>
     (\<forall>es. list_all2 (\<lambda>P e. P e) Ps es \<longrightarrow> list_all2 shows_line ls (filter is_connect es))"
proof (induction zs arbitrary: ls xs ys)
  case Nil
  then show ?case by (intro exI [of _ "[]"]) simp
next
  case (Cons z zs)
  from Cons.prems(1,2) consider
      (connect) l ls' xs' where "ls = l # ls'" "xs = z # xs'" "posts_event (shows_line l) z"
        "list_all2 (\<lambda>l. posts_event (shows_line l)) ls' xs'" "zs \<in> shuffles xs' ys"
    | (audit) ys' where "ys = z # ys'" "zs \<in> shuffles xs ys'"
    by (cases xs; cases ys) (auto simp: Cons_in_shuffles_iff list_all2_Cons2)
  then show ?case
  proof cases
    case connect
    with Cons.IH [OF connect(5,4)] Cons.prems obtain Ps where "list_all2 posts_event Ps zs"
      "\<forall>es. list_all2 (\<lambda>P e. P e) Ps es \<longrightarrow> list_all2 shows_line ls' (filter is_connect es)" by auto
    then show ?thesis using connect
      by (intro exI [of _ "shows_line l # Ps"]) (auto simp: list_all2_Cons1 dest: shows_connect)
  next
    case audit
    with Cons.IH [OF audit(2) Cons.prems(2)] Cons.prems(3) obtain Ps where "list_all2 posts_event Ps zs"
      "\<forall>es. list_all2 (\<lambda>P e. P e) Ps es \<longrightarrow> list_all2 shows_line ls (filter is_connect es)" by auto
    then show ?thesis using audit Cons.prems
      by (intro exI [of _ "(\<lambda>e. \<not> is_connect e) # Ps"]) (auto simp: list_all2_Cons1)
  qed
qed

text \<open>The CONNECT lines as texts; each is formatted with the wall clock of its own moment.\<close>

definition connect_texts :: "(nat \<Rightarrow> u64 \<Rightarrow> string) \<Rightarrow> connect_line list \<Rightarrow> string list" where
  "connect_texts walls ls = map (\<lambda>(i, l). connect_text (walls i) l) (enumerate 0 ls)"

lemma shown_lines:
  "list_all2 shows_line ls es \<Longrightarrow> map event_view es = map line_view ls \<and>
     map (\<lambda>e. e (js ''hostnames'')) es = map (\<lambda>l. Some (Str (js (join '','' (cl_hostnames l))))) ls"
  by (induction rule: list_all2_induct) (simp_all add: shows_line_def)

text \<open>What the printed lines of a reachable state satisfy by construction.\<close>

lemma comm_no_nul: "nul_char \<notin> set (comm_string c)"
proof -
  have "w = 0" if "char_of (unat w) = nul_char" for w :: u8
  proof -
    have "unat w < 2 ^ LENGTH(8)" by (rule unsigned_less)
    then have "of_char (char_of (unat w)) = unat w" by simp
    with that have "unat w = 0" by simp
    then show ?thesis by (simp add: unat_eq_0)
  qed
  then show ?thesis by (auto simp: comm_string_def dest: set_takeWhileD)
qed

lemma explained_line_ok:
  assumes "line_explained unpack uf cid noDNS ms l" and "\<forall>t. wall t \<noteq> [] \<and> solid (wall t)"
    and "plain (cl_comm l)" and "list_all solid (cl_hostnames l)"
  shows "line_ok wall l \<and> nul_char \<notin> set (cl_comm l)"
proof -
  from assms(1) obtain e ns where l: "l = line_for ns e" by (auto simp: line_explained_def)
  have "solid (cl_protocol l)" and "solid (cl_destination l)" and "nul_char \<notin> set (cl_comm l)"
    by (simp_all add: l line_for_def plain_line_def solid_destination comm_no_nul)
  with assms show ?thesis by (simp add: line_ok_def)
qed

lemma view_without_names: "line_view (without_names l) = line_view l"
  by (simp add: line_view_def without_names_def)

lemma views_of_lines:
  assumes "map without_names ls = map plain_line rs"
  shows "map line_view ls = map (\<lambda>r. line_view (plain_line r)) rs"
proof -
  have "map line_view ls = map line_view (map without_names ls)" by (simp add: view_without_names)
  then show ?thesis by (simp only: assms map_map comp_def)
qed

lemma texts_post:
  assumes "\<forall>i t. walls i t \<noteq> [] \<and> solid (walls i t)"
    and "\<forall>l\<in>set ls. line_explained unpack uf cid noDNS ms l \<and> plain (cl_comm l) \<and> list_all solid (cl_hostnames l)"
  shows "list_all2 (\<lambda>l. posts_event (shows_line l)) ls (connect_texts walls ls)"
proof -
  have "posts_event (shows_line l) (connect_text (walls i) l)" if "l \<in> set ls" for i l
    using explained_line_ok [of unpack uf cid noDNS ms l "walls i"] that assms connect_posts by blast
  then show ?thesis by (simp add: connect_texts_def list_all2_conv_all_nth nth_enumerate_eq)
qed

section \<open>The server while dashboards come and go\<close>

fun requests :: "vis_op list \<Rightarrow> request list" where
  "requests [] = []"
| "requests (Serve r # ops) = r # requests ops"
| "requests (_ # ops) = requests ops"

fun is_post :: "request \<Rightarrow> bool" where
  "is_post (Post envs body) = True"
| "is_post _ = False"

lemma log_ops_posts: "Delete \<notin> set rs \<Longrightarrow> log_ops rs = log_ops (filter is_post rs)"
  by (induction rs rule: log_ops.induct) auto

lemma serve_events_cong:
  "sv_events s = sv_events s' \<Longrightarrow> sv_events (fst (serve limit r s)) = sv_events (fst (serve limit r s'))"
  by (cases r) (simp_all only: serve_events)

lemma serve_all_cong:
  "sv_events s = sv_events s' \<Longrightarrow> sv_events (serve_all limit rs s) = sv_events (serve_all limit rs s')"
proof (induction rs arbitrary: s s')
  case (Cons r rs)
  from Cons.IH [OF serve_events_cong [OF Cons.prems]] show ?case by simp
qed simp

lemma vis_run_events: "sv_events (v_server (vis_run limit ops v)) = sv_events (serve_all limit (requests ops) (v_server v))"
proof (induction limit ops v rule: vis_run.induct)
  case (2 limit op ops v)
  have "sv_events (v_server (vis_do limit op v)) = sv_events (v_server v)" if "\<And>r. op \<noteq> Serve r"
    using that by (cases op) (auto simp: vis_do_def open_stream_def close_stream_def split: list.split)
  then have keep: "sv_events (serve_all limit (requests ops) (v_server (vis_do limit op v))) =
      sv_events (serve_all limit (requests ops) (v_server v))" if "\<And>r. op \<noteq> Serve r"
    using that by (intro serve_all_cong) blast
  have serve: "v_server (vis_do limit (Serve r) v) = fst (serve limit r (v_server v))" for r
    by (simp add: vis_do_def)
  show ?case using 2 keep by (cases op) (simp_all add: serve)
qed simp

lemma page_events:
  assumes "Delete \<notin> set (requests ops)" and "v = vis_run (Some m) ops (open_page c new_server)"
  shows "sv_events (v_server v) = lastn (nat m) (log_history [] (log_ops (filter is_post (requests ops))))"
proof -
  have "sv_events (v_server (open_page c new_server)) = []"
    by (simp add: open_page_def open_stream_def new_server_def)
  then show ?thesis
    using serve_all_log [of "v_server (open_page c new_server)" m "requests ops"] log_ops_posts [OF assms(1)]
    by (simp add: assms(2) vis_run_events)
qed

text \<open>A page once all frames under way are in.\<close>

definition settle :: "int option \<Rightarrow> vis \<Rightarrow> vis" where
  "settle limit v = vis_run limit (replicate (length (v_pending v)) Deliver) v"

lemma settled:
  assumes "calm limit ops (open_page c s)" and "v = vis_run limit ops (open_page c s)"
  shows "lastn (view_cap limit) (d_held (v_dash (settle limit v))) = lastn (view_cap limit) (sv_events (v_server v))"
proof -
  have "v_inv limit v" using vis_run_inv [OF open_page_inv assms(1)] by (simp add: assms(2))
  then have "v_inv limit (settle limit v)" unfolding settle_def by (rule vis_run_inv [OF _ calm_deliver])
  moreover have "v_pending (settle limit v) = []" by (simp add: settle_def pending_delivered)
  moreover have "v_server (settle limit v) = v_server v" by (simp add: settle_def deliver_server)
  ultimately show ?thesis by (simp add: v_inv_def)
qed

lemma calm_posts: "calm limit (map Serve (vis_posts envs utf8 bodies)) v"
proof -
  have "calm limit (map Serve (map (\<lambda>(i, b). Post (envs i) (Some (utf8 b))) (enumerate k bodies))) v" for k v
    by (induction bodies arbitrary: k v) simp_all
  then show ?thesis by (simp add: vis_posts_def)
qed

lemma requests_serve [simp]: "requests (map Serve rs) = rs"
  by (induction rs) simp_all

lemma filter_posts [simp]: "filter is_post (vis_posts envs utf8 bodies) = vis_posts envs utf8 bodies"
  by (rule filter_True) (auto simp: vis_posts_def)

lemma posts_no_delete [simp]: "Delete \<notin> set (vis_posts envs utf8 bodies)"
  by (auto simp: vis_posts_def)

text \<open>
  The conditions on host names are needed: a DNS answer for a name with a blank in it (which the
  wire decoder writes as backslash and blank) sets fields of the CONNECT line it appears on.
\<close>

lemma hostname_sets_uid:
  assumes "cl_hostnames l = [h @ '' uid='' @ u]" and "solid h" and "solid u"
    and "solid (wall (cl_timestamp_ns l))" and "plain (cl_comm l)"
    and "solid (cl_protocol l)" and "solid (cl_destination l)"
  shows "map (\<lambda>e. e (js ''uid'')) (parse_body envs (Some (js (connect_text wall l)))) =
    [Some (num_field (envs 0) (Some (js u)))]"
proof -
  let ?es = "take 8 (connect_fields wall l) @ [(''hostnames'', h), (''uid'', u)]"
  have t: "js (connect_text wall l) = js ''CONNECT'' @ more_fields (map js_field ?es) @ 10 # []"
    by (simp add: connect_text_def assms(1) connect_fields_def more_fields_def field_text_def js_field_def js_literal newline)
  have ok: "line_fields_ok (js ''CONNECT'') (map js_field ?es)"
  proof (rule js_fields_ok)
    show "is_type (js ''CONNECT'')" by (simp add: is_type_def js_literal)
  qed (use assms(2-7) in \<open>simp_all add: connect_fields_def identifier_simps solid_plain\<close>)
  then have "parse_body envs (Some (js (connect_text wall l))) =
      [event_object (envs 0) (js ''CONNECT'' @ more_fields (map js_field ?es)) (js ''CONNECT'') (fields_map (map js_field ?es))]"
    unfolding t by (simp add: body_lines_Cons body_lines_Nil parse_line_ok parse_body_def List.map_filter_def)
  moreover have "fields_map (map js_field ?es) (js ''uid'') = Some (js u)"
    using assms(3) by (simp add: fields_map_def connect_fields_def js_field_def)
  ultimately show ?thesis by (simp add: event_object_simps)
qed

section \<open>Properties\<close>

text \<open>
  C36. From the kernel to the screen, when every curl succeeds and nothing else posts to the
  server or empties its log: however the lines of netmon and bpftrace mix on the stream, and
  whatever a page does meanwhile (its stream stays open, and it reconnects only when no events are
  queued), the server holds the newest events of the stream and the page, once its frames are in,
  the newest of those. The CONNECT events of the stream are exactly the connection records read,
  in order, each with its own fields and host names. All texts on the lines are supposed to be
  ASCII without an equals sign or a line feed, time texts, host names and the files of exec events
  also without blanks, and those of audit events without NUL; forged_event (VisFields) and
  hostname_sets_uid show what happens otherwise.
\<close>

theorem connections_reach_dashboard:
  assumes x: "reachable unpack uf cid noDNS x"
    and texts: "\<forall>i t. walls i t \<noteq> [] \<and> solid (walls i t)"
      "\<forall>l\<in>set (sy_printed x). plain (cl_comm l) \<and> list_all solid (cl_hostnames l)"
      "\<forall>e\<in>set kevs. audit_clean stamp e"
    and mixed: "lines \<in> shuffles (connect_texts walls (sy_printed x)) (concat (map (audit_prints cgroup mntns stamp) kevs))"
    and utf8: "decodes_ascii utf8"
    and page: "calm (Some m) ops (open_page c new_server)" "v = vis_run (Some m) ops (open_page c new_server)"
    and posted: "filter is_post (requests ops) = vis_posts envs utf8 (vis_bodies (\<lambda>i. True) (concat lines))"
      "Delete \<notin> set (requests ops)"
  shows "\<exists>es. length es = length lines \<and> sv_events (v_server v) = lastn (nat m) es \<and>
    lastn (view_cap (Some m)) (d_held (v_dash (settle (Some m) v))) = lastn (view_cap (Some m)) es \<and>
    map event_view (filter is_connect es) =
      map (\<lambda>r. line_view (plain_line r)) (List.map_filter connection_of_record (consumed x)) \<and>
    map (\<lambda>e. e (js ''hostnames'')) (filter is_connect es) =
      map (\<lambda>l. Some (Str (js (join '','' (cl_hostnames l))))) (sy_printed x)"
proof -
  note inv = reachable_inv [OF x, unfolded sys_inv_def]
  have "list_all2 (\<lambda>l. posts_event (shows_line l)) (sy_printed x) (connect_texts walls (sy_printed x))"
    using inv texts(2) by (intro texts_post [OF texts(1)]) blast
  moreover have "posts_event (\<lambda>e. \<not> is_connect e) s"
    if "s \<in> set (concat (map (audit_prints cgroup mntns stamp) kevs))" for s
  proof -
    from that obtain e where e: "e \<in> set kevs" "s \<in> set (audit_prints cgroup mntns stamp e)" by auto
    then have "audited cgroup mntns e" using not_audited_silent [of cgroup mntns e stamp] by force
    with e texts(3) show ?thesis by (intro audit_posts) auto
  qed
  ultimately obtain Ps where Ps: "list_all2 posts_event Ps lines"
    and lines: "\<And>es. list_all2 (\<lambda>P e. P e) Ps es \<Longrightarrow> list_all2 shows_line (sy_printed x) (filter is_connect es)"
    using shuffled_posts [OF mixed] by blast
  let ?es = "log_history [] (log_ops (filter is_post (requests ops)))"
  have es: "list_all2 (\<lambda>P e. P e) Ps ?es" unfolding posted(1) by (rule vis_posts_events [OF utf8 Ps])
  have sv: "sv_events (v_server v) = lastn (nat m) ?es" by (rule page_events [OF posted(2) page(2)])
  have "length ?es = length lines" using Ps es by (auto dest!: list_all2_lengthD)
  moreover have "lastn (view_cap (Some m)) (d_held (v_dash (settle (Some m) v))) = lastn (view_cap (Some m)) ?es"
    unfolding settled [OF page] sv by (simp add: lastn_lastn view_cap_def)
  moreover have "map line_view (sy_printed x) =
      map (\<lambda>r. line_view (plain_line r)) (List.map_filter connection_of_record (consumed x))"
    using inv by (intro views_of_lines) simp
  ultimately show ?thesis using shown_lines [OF lines [OF es]] sv by auto
qed

theorem connections_reach_dashboard_witness:
  "\<exists>es. map event_view (filter is_connect es) = [line_view (plain_line run_connection)] \<and>
     lastn 10 (d_held (v_dash (settle (Some 10) (vis_run (Some 10)
       (map Serve (vis_posts (\<lambda>i j. sample_surroundings) js (vis_bodies (\<lambda>i. True) (connect_text (\<lambda>t. ''T'') run_line))))
       (open_page 0 new_server))))) = lastn 10 es"
proof -
  let ?x = "run_state run_kernel2 (Suc 1) run_learned [run_line]"
  let ?lines = "[connect_text (\<lambda>t. ''T'') run_line]"
  let ?ops = "map Serve (vis_posts (\<lambda>i j. sample_surroundings) js (vis_bodies (\<lambda>i. True) (concat ?lines)))"
  have printed: "sy_printed (run_state k n c' ls) = ls" for k n c' ls by (simp add: run_state_def)
  have "cl_comm run_line = replicate 16 (char_of (65 :: nat))"
    by (simp add: run_line_def plain_line_def run_connection_def connect_record_def NetmonBpfEvents.sample_env_def
        comm_string_def)
  then have "plain (cl_comm run_line) \<and> list_all solid (cl_hostnames run_line)"
    by (simp add: plain_def list_all_iff) (simp add: run_line_def)
  then have p: "\<forall>l\<in>set (sy_printed ?x). plain (cl_comm l) \<and> list_all solid (cl_hostnames l)" by (simp add: printed)
  have sh: "?lines \<in> shuffles (connect_texts (\<lambda>i t. ''T'') (sy_printed ?x)) (concat (map (audit_prints 7 9 (\<lambda>t. ''T'')) []))"
    by (simp add: printed connect_texts_def)
  have d: "decodes_ascii js" by (simp add: decodes_ascii_def)
  have t: "\<forall>(i::nat) t::u64. ''T'' \<noteq> [] \<and> solid ''T''" by simp
  have k: "\<forall>e\<in>set []. audit_clean (\<lambda>t. ''T'') e" by simp
  have dl: "Delete \<notin> set (requests ?ops)" and f: "filter is_post (requests ?ops) =
      vis_posts (\<lambda>i j. sample_surroundings) js (vis_bodies (\<lambda>i. True) (concat ?lines))" by simp_all
  from connections_reach_dashboard [OF run_reachable t p k sh d calm_posts refl f dl, where m = 10 and c = 0] obtain es where
    1: "lastn (view_cap (Some 10)) (d_held (v_dash (settle (Some 10) (vis_run (Some 10) ?ops (open_page 0 new_server))))) =
        lastn (view_cap (Some 10)) es"
    and 2: "map event_view (filter is_connect es) =
        map (\<lambda>r. line_view (plain_line r)) (List.map_filter connection_of_record (consumed ?x))"
    by blast
  have "List.map_filter connection_of_record (consumed ?x) = [run_connection]"
    unfolding run_consumed using connection_of_connection [OF run_connection_ok] connection_of_dns [OF run_dns_ok]
    by (simp add: map_filter_simps)
  from 1 2 [unfolded this] show ?thesis by (intro exI [of _ es]) (simp add: view_cap_def)
qed

end
