(* ===== verification/VisPaths.thy ===== *)
theory VisPaths
  imports JsText "HOL-Library.List_Lexorder"
begin

text \<open>
  Paths in src/src/visualization/public/app.js: base name, parent directory, and the roll-up of the
  files one process accesses into at most \<open>MAX_ACCESS_TARGETS_PER_PROCESS\<close> directories, with the
  promotion of single files where few directories are left.
\<close>

section \<open>Parent directories\<close>

definition strip_slashes :: "jstr \<Rightarrow> jstr" where
  "strip_slashes s = rev (dropWhile (\<lambda>c. c = 47) (rev s))"

text \<open>\<open>replace(/\/+/g, '/')\<close>.\<close>

fun squeeze_slashes :: "jstr \<Rightarrow> jstr" where
  "squeeze_slashes [] = []"
| "squeeze_slashes (c # s) =
     (if c = 47 \<and> s \<noteq> [] \<and> hd s = 47 then squeeze_slashes s else c # squeeze_slashes s)"

definition last_slash :: "jstr \<Rightarrow> nat option" where
  "last_slash s =
     (if 47 \<in> set s then Some (length s - 1 - length (takeWhile (\<lambda>c. c \<noteq> 47) (rev s))) else None)"

definition basename :: "jstr \<Rightarrow> jstr" where
  "basename filePath =
     (let normalized = strip_slashes filePath in
      case last_slash normalized of None \<Rightarrow> normalized | Some i \<Rightarrow> drop (i + 1) normalized)"

definition root_dir :: jstr where "root_dir = js ''/''"
definition dot_dir :: jstr where "dot_dir = js ''.''"
definition unknown_dir :: jstr where "unknown_dir = js ''unknown directory''"

definition parent_directory_for :: "jstr \<Rightarrow> jstr" where
  "parent_directory_for filePath =
     (if filePath = [] then unknown_dir
      else
        let normalized = strip_slashes (squeeze_slashes filePath) in
        case last_slash normalized of
          Some i \<Rightarrow> if i > 0 then take i normalized else root_dir
        | None \<Rightarrow> dot_dir)"

section \<open>Rolling directories up\<close>

definition MAX_ACCESS_TARGETS_PER_PROCESS :: nat where "MAX_ACCESS_TARGETS_PER_PROCESS = 12"
definition ACCESS_FILE_DETAIL_TARGET :: nat where "ACCESS_FILE_DETAIL_TARGET = 8"

text \<open>One directory in one round of the loop.\<close>

definition raise_dir :: "jstr \<Rightarrow> jstr" where
  "raise_dir current =
     (let candidate = parent_directory_for current
      in if current \<noteq> root_dir \<and> candidate = root_dir then current else candidate)"

definition distinct_targets :: "('a \<times> jstr) list \<Rightarrow> nat" where
  "distinct_targets m = length (remdups (map snd m))"

text \<open>
  The loop over \<open>currentByOriginal\<close>, the map as its list of entries; \<open>None\<close> would be a loop that
  does not end.
\<close>

partial_function (option) roll_up :: "(jstr \<times> jstr) list \<Rightarrow> (jstr \<times> jstr) list option" where
  "roll_up m =
     (if distinct_targets m \<le> MAX_ACCESS_TARGETS_PER_PROCESS then Some m
      else
        let m' = map (\<lambda>(original, current). (original, raise_dir current)) m;
            changed = list_ex (\<lambda>(original, current). raise_dir current \<noteq> current) m
        in if changed then roll_up m' else Some m')"

section \<open>Promoting files\<close>

text \<open>\<open>targetByFile\<close>, again as its entries; \<open>set\<close> on a key that is present keeps its place.\<close>

fun set_entry :: "'k \<Rightarrow> 'v \<Rightarrow> ('k \<times> 'v) list \<Rightarrow> ('k \<times> 'v) list" where
  "set_entry k v [] = [(k, v)]"
| "set_entry k v ((k', v') # m) = (if k' = k then (k, v) # m else (k', v') # set_entry k v m)"

definition promote_file :: "jstr \<Rightarrow> (jstr \<times> jstr) list \<Rightarrow> (jstr \<times> jstr) list" where
  "promote_file file targets =
     (let targets' = set_entry file file targets in
      if distinct_targets targets' > ACCESS_FILE_DETAIL_TARGET then targets else targets')"

definition promote_files :: "jstr list \<Rightarrow> (jstr \<times> jstr) list \<Rightarrow> (jstr \<times> jstr) list" where
  "promote_files files targets = foldl (\<lambda>t f. promote_file f t) targets files"

text \<open>The elements of a \<open>Set\<close> in insertion order.\<close>

definition js_set :: "'a list \<Rightarrow> 'a list" where
  "js_set xs = rev (remdups (rev xs))"

lemma js_set_simps [simp]: "set (js_set xs) = set xs" "distinct (js_set xs)"
  by (simp_all add: js_set_def)

text \<open>
  One group (a process and an access mode): its files give the directories; the result maps
  directories to what they are shown as and lists the files shown by themselves. A file's directory
  is always a key of the roll-up, so the lookup succeeds.
\<close>

definition group_rollup :: "jstr list \<Rightarrow> ((jstr \<times> jstr) list \<times> jstr list) option" where
  "group_rollup accessed =
     (let files = js_set accessed; directories = js_set (map parent_directory_for accessed) in
      case roll_up (map (\<lambda>d. (d, d)) directories) of
        None \<Rightarrow> None
      | Some current \<Rightarrow>
          if distinct_targets current < ACCESS_FILE_DETAIL_TARGET
          then
            let sorted = sort files;
                targets = promote_files sorted
                  (map (\<lambda>f. (f, the (map_of current (parent_directory_for f)))) sorted)
            in Some (current, map fst (filter (\<lambda>(f, t). f = t) targets))
          else Some (current, []))"

text \<open>What \<open>graphTargetFor\<close> makes of one file of the group: its target and whether it stands for a directory.\<close>

definition shown_target :: "(jstr \<times> jstr) list \<times> jstr list \<Rightarrow> jstr \<Rightarrow> jstr \<times> bool" where
  "shown_target r file =
     (if file \<in> set (snd r) then (file, False)
      else case map_of (fst r) (parent_directory_for file) of
        Some d \<Rightarrow> (d, True)
      | None \<Rightarrow> (parent_directory_for file, False))"

section \<open>The loop ends\<close>

lemma squeeze_length: "length (squeeze_slashes s) \<le> length s"
  by (induction s) auto

lemma strip_length: "length (strip_slashes s) \<le> length s"
  unfolding strip_slashes_def by (metis length_dropWhile_le length_rev)

lemma strip_last: "strip_slashes s \<noteq> [] \<Longrightarrow> last (strip_slashes s) \<noteq> 47"
  unfolding strip_slashes_def by (metis (mono_tags, lifting) hd_dropWhile last_rev rev_is_Nil_conv)

lemma last_slash_less: "last_slash s = Some i \<Longrightarrow> i < length s"
  by (cases s) (auto simp: last_slash_def split: if_splits)

lemma last_slash_front: "last_slash s = Some 0 \<Longrightarrow> last s \<noteq> 47 \<Longrightarrow> 2 \<le> length s"
  by (cases s rule: rev_cases) (auto simp: last_slash_def Suc_le_eq split: if_splits)

text \<open>A rank that every round lowers for each directory it changes.\<close>

definition dir_rank :: "jstr \<Rightarrow> nat" where
  "dir_rank d =
     (if d = [] then 100
      else 3 * length d + (if d = root_dir then 2 else if d = dot_dir then 0 else 1))"

lemma parent_rank:
  assumes "parent_directory_for d \<noteq> d"
  shows "dir_rank (parent_directory_for d) < dir_rank d"
proof (cases "d = []")
  case True
  then show ?thesis
    by (simp add: parent_directory_for_def dir_rank_def unknown_dir_def root_dir_def dot_dir_def)
next
  case False
  let ?n = "strip_slashes (squeeze_slashes d)"
  have len: "length ?n \<le> length d" using strip_length squeeze_length by (rule order_trans)
  have low: "dir_rank x \<le> 3 * length x + 2" if "x \<noteq> []" for x using that by (simp add: dir_rank_def)
  have high: "3 * length d \<le> dir_rank d" using False by (simp add: dir_rank_def)
  show ?thesis
  proof (cases "last_slash ?n")
    case None
    then have p: "parent_directory_for d = dot_dir" using False by (simp add: parent_directory_for_def)
    with assms have "d \<noteq> dot_dir" by simp
    then have "3 * length d + 1 \<le> dir_rank d" using False by (simp add: dir_rank_def)
    moreover have "1 \<le> length d" using False by (simp add: Suc_le_eq)
    moreover have "dir_rank dot_dir = 3" by (simp add: dir_rank_def dot_dir_def root_dir_def)
    ultimately show ?thesis by (simp add: p)
  next
    case (Some i)
    show ?thesis
    proof (cases "i = 0")
      case True
      with Some have p: "parent_directory_for d = root_dir" using False by (simp add: parent_directory_for_def)
      have "?n \<noteq> []" using Some by (auto simp: last_slash_def split: if_splits)
      then have "2 \<le> length ?n" using last_slash_front strip_last Some True by blast
      then have "2 \<le> length d" using len by linarith
      then show ?thesis using high by (simp add: p dir_rank_def root_dir_def)
    next
      case False
      with Some have p: "parent_directory_for d = take i ?n"
        using \<open>d \<noteq> []\<close> by (simp add: parent_directory_for_def)
      have i: "i < length ?n" using Some by (rule last_slash_less)
      then have "?n \<noteq> []" by auto
      then have "dir_rank (take i ?n) \<le> 3 * i + 2" and "i < length d"
        using low [of "take i ?n"] False len i by auto
      then show ?thesis using high by (simp add: p)
    qed
  qed
qed

lemma raise_rank: "raise_dir d \<noteq> d \<Longrightarrow> dir_rank (raise_dir d) < dir_rank d"
  by (auto simp: raise_dir_def Let_def parent_rank split: if_splits)

definition total_rank :: "('a \<times> jstr) list \<Rightarrow> nat" where
  "total_rank m = sum_list (map (\<lambda>e. dir_rank (snd e)) m)"

lemma raise_total_rank:
  "list_ex (\<lambda>(original, current). raise_dir current \<noteq> current) m \<Longrightarrow>
     total_rank (map (\<lambda>(original, current). (original, raise_dir current)) m) < total_rank m"
proof -
  have le: "total_rank (map (\<lambda>(original, current). (original, raise_dir current)) m) \<le> total_rank m"
    for m :: "('a \<times> jstr) list"
  proof (induction m)
    case (Cons e m)
    have "dir_rank (raise_dir (snd e)) \<le> dir_rank (snd e)"
      by (cases "raise_dir (snd e) = snd e") (simp_all add: raise_rank less_imp_le)
    with Cons show ?case by (auto simp: total_rank_def split: prod.split)
  qed (simp add: total_rank_def)
  show "list_ex (\<lambda>(original, current). raise_dir current \<noteq> current) m \<Longrightarrow> ?thesis"
  proof (induction m)
    case (Cons e m)
    obtain a b where e: "e = (a, b)" by (cases e)
    show ?case
    proof (cases "raise_dir b = b")
      case True
      then show ?thesis using Cons by (simp add: e total_rank_def)
    next
      case False
      then have "dir_rank (raise_dir b) < dir_rank b" by (rule raise_rank)
      with le [of m] show ?thesis by (simp add: e total_rank_def)
    qed
  qed simp
qed

text \<open>
  The loop ends for every map, keeps its keys, raises all entries equally often, and stops only
  when few targets are left or none can be raised.
\<close>

lemma raise_again:
  "map (\<lambda>(original, current). (original, raise_dir current)) (map (\<lambda>(a, b). (a, f b)) m) =
     map (\<lambda>(a, b). (a, (raise_dir \<circ> f) b)) m"
  by (auto simp: comp_def)

lemma roll_up_end:
  "\<exists>n r. roll_up m = Some r \<and> r = map (\<lambda>(a, b). (a, (raise_dir ^^ n) b)) m \<and>
     (distinct_targets r \<le> MAX_ACCESS_TARGETS_PER_PROCESS \<or> (\<forall>e\<in>set r. raise_dir (snd e) = snd e))"
proof (induction m rule: measure_induct_rule [where f = total_rank])
  case (less m)
  let ?m' = "map (\<lambda>(original, current). (original, raise_dir current)) m"
  let ?c = "list_ex (\<lambda>(original, current). raise_dir current \<noteq> current) m"
  show ?case
  proof (cases "distinct_targets m \<le> MAX_ACCESS_TARGETS_PER_PROCESS")
    case True
    then show ?thesis by (intro exI [of _ 0] exI [of _ m]) (auto simp: roll_up.simps)
  next
    case big: False
    show ?thesis
    proof (cases ?c)
      case True
      from less [OF raise_total_rank [OF True]] obtain n r where
        r: "roll_up ?m' = Some r" "r = map (\<lambda>(a, b). (a, (raise_dir ^^ n) b)) ?m'"
          "distinct_targets r \<le> MAX_ACCESS_TARGETS_PER_PROCESS \<or> (\<forall>e\<in>set r. raise_dir (snd e) = snd e)"
        by blast
      have "r = map (\<lambda>(a, b). (a, (raise_dir ^^ Suc n) b)) m"
        by (simp add: r(2) case_prod_beta funpow_swap1 del: funpow.simps add: funpow_Suc_right)
      then show ?thesis using r(1,3) big True
        by (intro exI [of _ "Suc n"] exI [of _ r]) (simp add: roll_up.simps [of m] del: funpow.simps)
    next
      case False
      then have m: "?m' = m" by (auto simp: list_ex_iff intro!: map_idI)
      with False have "\<forall>e\<in>set m. raise_dir (snd e) = snd e" by (auto simp: list_ex_iff)
      then show ?thesis using big False m
        by (intro exI [of _ 0] exI [of _ m]) (simp add: roll_up.simps [of m])
    qed
  qed
qed

section \<open>How many targets a group has\<close>

lemma distinct_targets_card: "distinct_targets m = card (snd ` set m)"
  by (simp add: distinct_targets_def length_remdups_card_conv)

lemma set_entry_keys: "k \<in> set (map fst m) \<Longrightarrow> map fst (set_entry k v m) = map fst m"
proof (induction m)
  case (Cons e m)
  then show ?case by (cases e) auto
qed simp

lemma set_entry_set: "e \<in> set (set_entry k v m) \<Longrightarrow> e = (k, v) \<or> e \<in> set m"
proof (induction m)
  case (Cons e' m)
  then show ?case by (cases e') (auto split: if_splits)
qed simp

lemma set_entry_in: "(k, v) \<in> set (set_entry k v m)"
  by (induction k v m rule: set_entry.induct) auto

text \<open>Promotion keeps the keys, the bound on the targets, and every target is the file or its directory.\<close>

definition promoted :: "(jstr \<Rightarrow> jstr) \<Rightarrow> jstr list \<Rightarrow> (jstr \<times> jstr) list \<Rightarrow> bool" where
  "promoted dir_of files targets \<longleftrightarrow> map fst targets = files \<and> distinct_targets targets \<le> ACCESS_FILE_DETAIL_TARGET \<and>
     (\<forall>(f, t)\<in>set targets. t = f \<or> t = dir_of f)"

lemma promote_file_promoted:
  assumes "promoted dir_of files targets" and "f \<in> set files"
  shows "promoted dir_of files (promote_file f targets)"
proof -
  have keys: "map fst targets = files" using assms by (simp add: promoted_def)
  then have "map fst (set_entry f f targets) = files"
    using assms(2) set_entry_keys [of f targets f] by simp
  moreover have "\<forall>(g, t)\<in>set (set_entry f f targets). t = g \<or> t = dir_of g"
    using assms(1) by (auto simp: promoted_def dest!: set_entry_set)
  ultimately show ?thesis using assms(1) by (simp add: promote_file_def promoted_def Let_def)
qed

lemma promote_files_promoted:
  "promoted dir_of files targets \<Longrightarrow> set fs \<subseteq> set files \<Longrightarrow> promoted dir_of files (promote_files fs targets)"
  unfolding promote_files_def
  by (induction fs arbitrary: targets) (simp_all add: promote_file_promoted)

lemma shown_targets_promoted:
  assumes p: "promoted (\<lambda>f. the (map_of current (parent_directory_for f))) files targets"
    and k: "\<forall>f\<in>set files. parent_directory_for f \<in> fst ` set current" and d: "distinct files"
  shows "(\<lambda>f. fst (shown_target (current, map fst (filter (\<lambda>(f, t). f = t) targets)) f)) ` set files = snd ` set targets"
proof -
  have "fst (shown_target (current, map fst (filter (\<lambda>(f, t). f = t) targets)) f) = t" if "(f, t) \<in> set targets" for f t
  proof (cases "t = f")
    case True
    with that have "f \<in> set (map fst (filter (\<lambda>(f, t). f = t) targets))" by force
    with True show ?thesis by (simp add: shown_target_def)
  next
    case False
    have keys: "map fst targets = files" using p by (simp add: promoted_def)
    then have dt: "distinct (map fst targets)" using d by simp
    have "f \<notin> set (map fst (filter (\<lambda>(f, t). f = t) targets))"
      using that False eq_key_imp_eq_value [OF dt] by force
    moreover have "t = the (map_of current (parent_directory_for f))"
      using p that False by (auto simp: promoted_def)
    moreover have "f \<in> set files" using that keys by force
    then obtain x where "map_of current (parent_directory_for f) = Some x"
      using k by (metis map_of_eq_None_iff not_None_eq)
    ultimately show ?thesis by (simp add: shown_target_def)
  qed
  moreover have "set files = fst ` set targets" using p by (auto simp: promoted_def simp flip: set_map)
  ultimately show ?thesis by (force simp: image_image)
qed

text \<open>Few directories are not raised, and few files in few directories are all promoted.\<close>

lemma roll_up_few: "distinct_targets m \<le> MAX_ACCESS_TARGETS_PER_PROCESS \<Longrightarrow> roll_up m = Some m"
  by (subst roll_up.simps) simp

lemma own_targets: "distinct_targets (map (\<lambda>d. (d, d)) (js_set xs)) = card (set xs)"
  by (simp add: distinct_targets_card image_image)

lemma few_directories_kept:
  assumes "group_rollup accessed = Some r"
    and "card (parent_directory_for ` set accessed) \<le> MAX_ACCESS_TARGETS_PER_PROCESS"
  shows "fst r = map (\<lambda>d. (d, d)) (js_set (map parent_directory_for accessed))"
proof -
  have "roll_up (map (\<lambda>d. (d, d)) (js_set (map parent_directory_for accessed))) =
      Some (map (\<lambda>d. (d, d)) (js_set (map parent_directory_for accessed)))"
    using assms(2) by (intro roll_up_few) (simp add: own_targets)
  then show ?thesis using assms(1) by (auto simp: group_rollup_def Let_def split: if_splits)
qed

lemma promote_files_all:
  assumes "length targets \<le> ACCESS_FILE_DETAIL_TARGET" and "distinct (map fst targets)" and "set fs \<subseteq> fst ` set targets"
  shows "length (promote_files fs targets) = length targets \<and> map fst (promote_files fs targets) = map fst targets \<and>
    (\<forall>(f, t) \<in> set (promote_files fs targets). f \<in> set fs \<longrightarrow> t = f)"
  using assms
proof (induction fs arbitrary: targets rule: rev_induct)
  case Nil
  then show ?case by (simp add: promote_files_def)
next
  case (snoc f fs)
  let ?t = "promote_files fs targets"
  from snoc have IH: "length ?t = length targets" "map fst ?t = map fst targets"
    "\<forall>(g, t) \<in> set ?t. g \<in> set fs \<longrightarrow> t = g" by auto
  have f: "f \<in> set (map fst ?t)" using snoc.prems(3) IH(2) by simp
  have keys: "map fst (set_entry f f ?t) = map fst ?t" by (rule set_entry_keys [OF f])
  then have len: "length (set_entry f f ?t) = length targets" using IH(1) by (metis length_map)
  then have "distinct_targets (set_entry f f ?t) \<le> ACCESS_FILE_DETAIL_TARGET"
    using snoc.prems(1) length_remdups_leq [of "map snd (set_entry f f ?t)"] by (simp add: distinct_targets_def)
  then have step: "promote_files (fs @ [f]) targets = set_entry f f ?t"
    by (simp add: promote_files_def promote_file_def Let_def)
  have d: "distinct (map fst (set_entry f f ?t))" using keys IH(2) snoc.prems(2) by simp
  have "(f, f) \<in> set (set_entry f f ?t)" by (rule set_entry_in)
  then have "t = g" if "(g, t) \<in> set (set_entry f f ?t)" "g \<in> set (fs @ [f])" for g t
    using that IH(3) eq_key_imp_eq_value [OF d] by (auto dest: set_entry_set)
  then show ?case using keys len IH(2) by (auto simp: step)
qed

lemma few_files_shown:
  assumes r: "group_rollup accessed = Some r"
    and dirs: "card (parent_directory_for ` set accessed) < ACCESS_FILE_DETAIL_TARGET"
      "card (parent_directory_for ` set accessed) \<le> MAX_ACCESS_TARGETS_PER_PROCESS"
    and files: "card (set accessed) \<le> ACCESS_FILE_DETAIL_TARGET"
  shows "(\<lambda>f. fst (shown_target r f)) ` set accessed = set accessed"
proof -
  let ?current = "map (\<lambda>d. (d, d)) (js_set (map parent_directory_for accessed))"
  let ?files = "sort (js_set accessed)"
  let ?init = "map (\<lambda>f. (f, the (map_of ?current (parent_directory_for f)))) ?files"
  have up: "roll_up ?current = Some ?current" using dirs(2) by (intro roll_up_few) (simp add: own_targets)
  have "length ?init \<le> ACCESS_FILE_DETAIL_TARGET"
    using files distinct_card [of "js_set accessed"] by simp
  from promote_files_all [OF this, of ?files]
  have all: "map fst (promote_files ?files ?init) = ?files" "\<forall>(f, t) \<in> set (promote_files ?files ?init). f \<in> set ?files \<longrightarrow> t = f"
    by (simp_all add: comp_def image_image)
  have "distinct_targets ?current < ACCESS_FILE_DETAIL_TARGET" using dirs(1) by (simp add: own_targets)
  then have "group_rollup accessed = Some (?current, map fst (filter (\<lambda>(f, t). f = t) (promote_files ?files ?init)))"
    unfolding group_rollup_def Let_def up option.case if_P by simp
  then have "snd r = map fst (filter (\<lambda>(f, t). f = t) (promote_files ?files ?init))" using r by simp
  moreover have "filter (\<lambda>(f, t). f = t) (promote_files ?files ?init) = promote_files ?files ?init"
  proof (intro filter_True ballI)
    fix x assume x: "x \<in> set (promote_files ?files ?init)"
    then have "fst x \<in> set (map fst (promote_files ?files ?init))" by simp
    then have k: "fst x \<in> set ?files" by (simp only: all(1))
    obtain f t where ft: "x = (f, t)" by (cases x)
    with bspec [OF all(2) x] k have "t = f" by (simp only: ft prod.case fst_conv)
    then show "case x of (f, t) \<Rightarrow> f = t" by (simp only: ft prod.case)
  qed
  ultimately have "snd r = ?files" using all(1) by simp
  then show ?thesis by (simp add: shown_target_def)
qed

text \<open>The two outcomes for a group.\<close>

lemma group_rollup_shown:
  obtains r n where "group_rollup accessed = Some r"
    and "fst r = map (\<lambda>d. (d, (raise_dir ^^ n) d)) (js_set (map parent_directory_for accessed))"
    and "distinct_targets (fst r) \<le> MAX_ACCESS_TARGETS_PER_PROCESS \<or> (\<forall>e\<in>set (fst r). raise_dir (snd e) = snd e)"
    and "distinct_targets (fst r) < ACCESS_FILE_DETAIL_TARGET \<Longrightarrow>
      card ((\<lambda>f. fst (shown_target r f)) ` set accessed) \<le> ACCESS_FILE_DETAIL_TARGET"
    and "\<not> distinct_targets (fst r) < ACCESS_FILE_DETAIL_TARGET \<Longrightarrow>
      snd r = [] \<and> (\<lambda>f. fst (shown_target r f)) ` set accessed = snd ` set (fst r)"
proof -
  let ?dirs = "js_set (map parent_directory_for accessed)"
  obtain n c where c: "roll_up (map (\<lambda>d. (d, d)) ?dirs) = Some c"
      and cm: "c = map (\<lambda>d. (d, (raise_dir ^^ n) d)) ?dirs"
      and stop: "distinct_targets c \<le> MAX_ACCESS_TARGETS_PER_PROCESS \<or> (\<forall>e\<in>set c. raise_dir (snd e) = snd e)"
    using roll_up_end [of "map (\<lambda>d. (d, d)) ?dirs"] by (auto simp: comp_def)
  have look: "map_of c (parent_directory_for f) = Some ((raise_dir ^^ n) (parent_directory_for f))"
    if "f \<in> set accessed" for f
    using that by (simp add: cm map_of_map_restrict)
  show thesis
  proof (cases "distinct_targets c < ACCESS_FILE_DETAIL_TARGET")
    case False
    then have r: "group_rollup accessed = Some (c, [])" by (simp add: group_rollup_def c)
    have "(\<lambda>f. fst (shown_target (c, []) f)) ` set accessed = snd ` set c"
      using look by (auto simp: shown_target_def cm image_image)
    with False show thesis by (intro that [of "(c, [])" n]) (simp_all add: r cm [symmetric] stop)
  next
    case True
    let ?files = "sort (js_set accessed)"
    let ?init = "map (\<lambda>f. (f, the (map_of c (parent_directory_for f)))) ?files"
    let ?t = "promote_files ?files ?init"
    have r: "group_rollup accessed = Some (c, map fst (filter (\<lambda>(f, t). f = t) ?t))"
      using True by (simp add: group_rollup_def c Let_def)
    have "snd ` set ?init \<subseteq> snd ` set c" using look by (auto simp: cm image_image)
    then have "distinct_targets ?init \<le> distinct_targets c"
      unfolding distinct_targets_card by (intro card_mono) simp_all
    with True have "promoted (\<lambda>f. the (map_of c (parent_directory_for f))) ?files ?init"
      by (simp add: promoted_def comp_def case_prod_beta)
    then have p: "promoted (\<lambda>f. the (map_of c (parent_directory_for f))) ?files ?t"
      by (rule promote_files_promoted) simp
    have "(\<lambda>f. fst (shown_target (c, map fst (filter (\<lambda>(f, t). f = t) ?t)) f)) ` set ?files = snd ` set ?t"
      using p by (rule shown_targets_promoted) (auto simp: cm image_image)
    moreover have "card (snd ` set ?t) \<le> ACCESS_FILE_DETAIL_TARGET"
      using p by (simp add: promoted_def distinct_targets_card)
    ultimately show thesis using True
      by (intro that [of "(c, map fst (filter (\<lambda>(f, t). f = t) ?t))" n]) (simp_all add: r cm [symmetric] stop)
  qed
qed

section \<open>Properties\<close>

text \<open>
  The test in \<open>raise_dir\<close> means to keep what would become the root directory, but the root directory
  itself is raised to the current directory.
\<close>

lemma root_raised_to_dot: "raise_dir root_dir = dot_dir"
  by (simp add: raise_dir_def parent_directory_for_def root_dir_def dot_dir_def strip_slashes_def
      last_slash_def js_literal)

text \<open>
  C32. The loop that rolls the directories of a group up always ends, whatever the paths. The
  group then has at most 12 targets unless no remaining directory can be raised, and at most 8
  where files were promoted. Up to 12 directories are left as they are, and a group of at most 8
  files in fewer than 8 directories shows every file by itself.
\<close>

theorem rollup_terminates:
  "\<exists>r. group_rollup accessed = Some r \<and>
     (let targets = (\<lambda>f. fst (shown_target r f)) ` set accessed; dirs = parent_directory_for ` set accessed in
      (card targets \<le> 12 \<or> (\<forall>t\<in>targets. raise_dir t = t)) \<and>
      (snd r \<noteq> [] \<longrightarrow> card targets \<le> 8) \<and>
      (card dirs \<le> 12 \<longrightarrow> (\<forall>d\<in>dirs. map_of (fst r) d = Some d)) \<and>
      (card dirs < 8 \<longrightarrow> card (set accessed) \<le> 8 \<longrightarrow> targets = set accessed))"
proof (rule group_rollup_shown [of accessed])
  fix r n
  let ?targets = "(\<lambda>f. fst (shown_target r f)) ` set accessed"
  let ?dirs = "parent_directory_for ` set accessed"
  assume r: "group_rollup accessed = Some r"
    and stop: "distinct_targets (fst r) \<le> MAX_ACCESS_TARGETS_PER_PROCESS \<or> (\<forall>e\<in>set (fst r). raise_dir (snd e) = snd e)"
    and few: "distinct_targets (fst r) < ACCESS_FILE_DETAIL_TARGET \<Longrightarrow> card ?targets \<le> ACCESS_FILE_DETAIL_TARGET"
    and many: "\<not> distinct_targets (fst r) < ACCESS_FILE_DETAIL_TARGET \<Longrightarrow> snd r = [] \<and> ?targets = snd ` set (fst r)"
  have "card ?targets \<le> 12 \<or> (\<forall>t\<in>?targets. raise_dir t = t)"
    using few many stop
    by (cases "distinct_targets (fst r) < ACCESS_FILE_DETAIL_TARGET")
      (auto simp: MAX_ACCESS_TARGETS_PER_PROCESS_def ACCESS_FILE_DETAIL_TARGET_def distinct_targets_card)
  moreover have "snd r \<noteq> [] \<longrightarrow> card ?targets \<le> 8"
    using few many by (auto simp: ACCESS_FILE_DETAIL_TARGET_def)
  moreover have "\<forall>d\<in>?dirs. map_of (fst r) d = Some d" if "card ?dirs \<le> 12"
    using few_directories_kept [OF r] that by (simp add: MAX_ACCESS_TARGETS_PER_PROCESS_def map_of_map_restrict)
  moreover have "?targets = set accessed" if "card ?dirs < 8" "card (set accessed) \<le> 8"
    using few_files_shown [OF r] that by (simp add: ACCESS_FILE_DETAIL_TARGET_def MAX_ACCESS_TARGETS_PER_PROCESS_def)
  ultimately show ?thesis using r unfolding Let_def by blast
qed

theorem rollup_terminates_witness:
  "\<exists>r. group_rollup [js ''/etc/passwd'', js ''/x''] = Some r \<and>
     (\<lambda>f. fst (shown_target r f)) ` set [js ''/etc/passwd'', js ''/x''] = {js ''/etc/passwd'', js ''/x''}"
proof -
  have c: "card (f ` set [a, b]) < 8" "card (set [a, b]) \<le> 8" for a b :: jstr and f :: "jstr \<Rightarrow> jstr"
    using card_length [of "map f [a, b]"] card_length [of "[a, b]"] by simp_all
  let ?a = "[js ''/etc/passwd'', js ''/x'']"
  from rollup_terminates [of ?a, unfolded Let_def] obtain r where "group_rollup ?a = Some r"
    and "card (parent_directory_for ` set ?a) < 8 \<longrightarrow> card (set ?a) \<le> 8 \<longrightarrow> (\<lambda>f. fst (shown_target r f)) ` set ?a = set ?a"
    by (elim exE conjE) (rule that)
  then have "group_rollup ?a = Some r" and "(\<lambda>f. fst (shown_target r f)) ` set ?a = set ?a"
    using c by (blast, blast)
  then show ?thesis by (intro exI [of _ r] conjI) (simp_all only: list.set insert_code)
qed

end
