(* ===== verification/VisSelect.thy ===== *)
theory VisSelect
  imports VisServer VisPaths "HOL-Library.Sublist"
begin

text \<open>
  Which events src/src/visualization/public/app.js displays: process identities, the relationship an
  event stands for, the selection of a diverse subset within the window limit, and the filters.
\<close>

section \<open>Values\<close>

text \<open>
  A property read, truthiness and \<open>String(v)\<close>. \<open>te_number\<close> prints numbers that are not small
  naturals; case mapping outside ASCII is \<open>te_upper\<close> and \<open>te_lower\<close>.
\<close>

record text_env =
  te_number :: "rat \<Rightarrow> jstr"
  te_upper :: "jstr \<Rightarrow> jstr"
  te_lower :: "jstr \<Rightarrow> jstr"

definition attr :: "event \<Rightarrow> string \<Rightarrow> jsval" where
  "attr e k = (case e (js k) of None \<Rightarrow> Undefined | Some v \<Rightarrow> v)"

fun truthy :: "jsval \<Rightarrow> bool" where
  "truthy (Str s) = (s \<noteq> [])"
| "truthy (Num n) = (n \<noteq> 0)"
| "truthy Null = False"
| "truthy Undefined = False"

definition or_else :: "jsval \<Rightarrow> jsval \<Rightarrow> jsval" where
  "or_else a b = (if truthy a then a else b)"

definition number_text :: "text_env \<Rightarrow> rat \<Rightarrow> jstr" where
  "number_text te n =
     (if n = of_int \<lfloor>n\<rfloor> \<and> 0 \<le> n \<and> n < 10 ^ 21 then js (show_nat (nat \<lfloor>n\<rfloor>)) else te_number te n)"

fun to_text :: "text_env \<Rightarrow> jsval \<Rightarrow> jstr" where
  "to_text te (Str s) = s"
| "to_text te (Num n) = number_text te n"
| "to_text te Null = js ''null''"
| "to_text te Undefined = js ''undefined''"

definition is_ascii :: "jstr \<Rightarrow> bool" where
  "is_ascii s \<longleftrightarrow> list_all (\<lambda>c. c < 128) s"

definition to_upper :: "text_env \<Rightarrow> jstr \<Rightarrow> jstr" where
  "to_upper te s = (if is_ascii s then map (\<lambda>c. if 97 \<le> c \<and> c \<le> 122 then c - 32 else c) s else te_upper te s)"

definition to_lower :: "text_env \<Rightarrow> jstr \<Rightarrow> jstr" where
  "to_lower te s = (if is_ascii s then map (\<lambda>c. if 65 \<le> c \<and> c \<le> 90 then c + 32 else c) s else te_lower te s)"

section \<open>Process identities\<close>

record identity =
  id_key :: jstr
  id_label :: jstr

definition command_from_args :: "text_env \<Rightarrow> jsval \<Rightarrow> jstr" where
  "command_from_args te args = takeWhile (\<lambda>c. \<not> is_space c) (trim (to_text te (or_else args (Str []))))"

definition executable_path_score :: "text_env \<Rightarrow> event \<Rightarrow> int" where
  "executable_path_score te e =
     (let path = to_text te (or_else (attr e ''file'') (Str []));
          command = basename (command_from_args te (attr e ''args''));
          starts = (\<lambda>p. prefix (js p) path);
          score = (if basename path = command then 10 else 0)
        + (if starts ''/usr/bin/'' then 50 else if starts ''/bin/'' then 45
           else if starts ''/usr/local/bin/'' then 40 else if starts ''/usr/sbin/'' then 35
           else if starts ''/sbin/'' then 30 else if starts ''/usr/local/sbin/'' then 25 else 0)
      in if starts ''/tmp/'' then score - 20 else score)"

text \<open>The best EXEC record and the first name seen for each process id.\<close>

definition index_step ::
  "text_env \<Rightarrow> (jsval \<rightharpoonup> jsval \<times> int) \<times> (jsval \<rightharpoonup> jsval) \<Rightarrow> event \<Rightarrow>
     (jsval \<rightharpoonup> jsval \<times> int) \<times> (jsval \<rightharpoonup> jsval)" where
  "index_step te st e =
     (let (best, names) = st; pid = attr e ''host_pid''; file' = attr e ''file''; comm = attr e ''comm'';
          best' = (if attr e ''type'' = Str (js ''EXEC'') \<and> truthy pid \<and> truthy file' then
             let score = executable_path_score te e in
             case best pid of
               None \<Rightarrow> best(pid \<mapsto> (file', score))
             | Some (_, current) \<Rightarrow> if score > current then best(pid \<mapsto> (file', score)) else best
           else best);
          names' = (if truthy pid \<and> truthy comm \<and> names pid = None then names(pid \<mapsto> comm) else names)
      in (best', names'))"

definition build_process_identity_index :: "text_env \<Rightarrow> event list \<Rightarrow> jsval \<rightharpoonup> identity" where
  "build_process_identity_index te es =
     (let (best, names) = foldl (index_step te) (Map.empty, Map.empty) es in
      (\<lambda>pid. case best pid of
         Some (f, _) \<Rightarrow> Some \<lparr>id_key = js ''path:'' @ to_text te f, id_label = to_text te f\<rparr>
       | None \<Rightarrow> map_option (\<lambda>c. \<lparr>id_key = js ''comm:'' @ to_text te c, id_label = to_text te c\<rparr>) (names pid)))"

definition process_identity_for :: "text_env \<Rightarrow> (jsval \<rightharpoonup> identity) \<Rightarrow> event \<Rightarrow> identity" where
  "process_identity_for te index e =
     (let pid = attr e ''host_pid''; comm = attr e ''comm'' in
      case (if truthy pid then index pid else None) of
        Some i \<Rightarrow> i
      | None \<Rightarrow>
          if truthy comm then \<lparr>id_key = js ''comm:'' @ to_text te comm, id_label = to_text te comm\<rparr>
          else
            let first = command_from_args te (attr e ''args'');
                command = (if first \<noteq> [] then first
                  else basename (to_text te (or_else (attr e ''file'') (Str []))))
            in if command \<noteq> [] then \<lparr>id_key = js ''command:'' @ command, id_label = command\<rparr>
               else \<lparr>id_key = js ''pid:'' @ to_text te (or_else pid (Str (js ''unknown''))),
                     id_label = js ''unknown process''\<rparr>)"

section \<open>Relationships\<close>

text \<open>\<open>match(/:(\d+)$/)?.[1]\<close>.\<close>

definition destination_port :: "text_env \<Rightarrow> jsval \<Rightarrow> jsval" where
  "destination_port te dst =
     (if \<not> truthy dst then Str []
      else
        let r = rev (to_text te dst); ds = takeWhile is_digit r; rest = dropWhile is_digit r
        in if ds \<noteq> [] \<and> rest \<noteq> [] \<and> hd rest = 58 then Str (rev ds) else Undefined)"

definition target_for :: "text_env \<Rightarrow> event \<Rightarrow> jsval" where
  "target_for te e =
     (if attr e ''type'' = Str (js ''CONNECT'') then
        (if truthy (attr e ''hostnames'')
         then Str (to_text te (attr e ''hostnames'') @ js '':'' @ to_text te (destination_port te (attr e ''dst'')))
         else or_else (attr e ''dst'') (Str (js ''unknown destination'')))
      else or_else (attr e ''path'') (or_else (attr e ''file'') (or_else (attr e ''args'') (Str (js ''empty path'')))))"

definition accessed_file :: "text_env \<Rightarrow> event \<Rightarrow> jstr" where
  "accessed_file te e =
     to_text te (or_else (attr e ''path'') (or_else (attr e ''file'') (Str (js ''unknown file''))))"

definition is_access :: "event \<Rightarrow> bool" where
  "is_access e \<longleftrightarrow> attr e ''type'' = Str (js ''RO'') \<or> attr e ''type'' = Str (js ''RW'')"

definition protocol_text :: "text_env \<Rightarrow> event \<Rightarrow> jstr" where
  "protocol_text te e = to_upper te (to_text te (or_else (attr e ''protocol'') (Str (js ''unknown''))))"

definition event_relationship_key :: "text_env \<Rightarrow> (jsval \<rightharpoonup> identity) \<Rightarrow> event \<Rightarrow> jstr" where
  "event_relationship_key te index e =
     (let process = id_key (process_identity_for te index e); type = to_text te (attr e ''type'') in
      if type = js ''EXEC'' then
        let ppid = attr e ''ppid'';
            parent = (if truthy ppid then
                (case index ppid of
                   Some i \<Rightarrow> if id_key i \<noteq> [] then id_key i else js ''pid:'' @ to_text te ppid
                 | None \<Rightarrow> js ''pid:'' @ to_text te ppid)
              else js ''none'')
        in js ''EXEC:'' @ parent @ js ''->'' @ process
      else if type = js ''RO'' \<or> type = js ''RW'' then
        type @ js '':'' @ process @ js '':'' @ accessed_file te e
      else if type = js ''CONNECT'' then
        js ''CONNECT:'' @ process @ js '':'' @ protocol_text te e @ js '':'' @ to_text te (target_for te e)
      else type @ js '':'' @ process @ js '':'' @ to_text te (target_for te e))"

section \<open>A diverse selection\<close>

text \<open>
  The first loop of \<open>diverseEvents\<close> over the keys, with \<open>counts\<close> and the removals still to make:
  which events it keeps, and what it leaves to the second loop.
\<close>

fun remove_redundant :: "'k list \<Rightarrow> ('k \<Rightarrow> nat) \<Rightarrow> nat \<Rightarrow> bool list \<times> nat" where
  "remove_redundant [] counts removals = ([], removals)"
| "remove_redundant (k # ks) counts removals =
     (if removals = 0 then (True # map (\<lambda>k. True) ks, 0)
      else if counts k \<le> 1 then
        let (keep, r) = remove_redundant ks counts removals in (True # keep, r)
      else
        let (keep, r) = remove_redundant ks (counts(k := counts k - 1)) (removals - 1) in (False # keep, r))"

fun remove_oldest :: "bool list \<Rightarrow> nat \<Rightarrow> bool list" where
  "remove_oldest [] removals = []"
| "remove_oldest (b # keep) removals =
     (if removals = 0 then b # keep
      else if \<not> b then b # remove_oldest keep removals
      else False # remove_oldest keep (removals - 1))"

definition pick :: "'a list \<Rightarrow> bool list \<Rightarrow> 'a list" where
  "pick xs keep = map fst (filter snd (zip xs keep))"

definition diverse_events :: "('e \<Rightarrow> 'k) \<Rightarrow> nat \<Rightarrow> 'e list \<Rightarrow> 'e list" where
  "diverse_events key limit es =
     (if length es \<le> limit then es
      else
        let keys = map key es;
            (keep, removals) = remove_redundant keys (count_list keys) (length es - limit)
        in pick es (remove_oldest keep removals))"

section \<open>What is selected\<close>

text \<open>Reference: dropping an event while removals are left and a later event has its key.\<close>

fun thin :: "nat \<Rightarrow> 'k list \<Rightarrow> bool list" where
  "thin r [] = []"
| "thin r (k # ks) = (if 0 < r \<and> k \<in> set ks then False # thin (r - 1) ks else True # thin r ks)"

lemma thin_zero [simp]: "thin 0 ks = replicate (length ks) True"
  by (induction ks) simp_all

lemma length_thin [simp]: "length (thin r ks) = length ks"
  by (induction r ks rule: thin.induct) simp_all

lemma remove_redundant_thin:
  "\<forall>k\<in>set ks. counts k = count_list ks k \<Longrightarrow>
     remove_redundant ks counts r = (thin r ks, r - (length ks - card (set ks)))"
proof (induction ks counts r rule: remove_redundant.induct)
  case (2 k ks counts r)
  have le: "card (set ks) \<le> length ks" by (rule card_length)
  have one: "counts k \<le> 1 \<longleftrightarrow> k \<notin> set ks" using "2.prems" by (simp add: count_list_0_iff)
  show ?case
  proof (cases "r = 0")
    case True
    then show ?thesis by (simp add: map_replicate_const)
  next
    case r: False
    show ?thesis
    proof (cases "k \<in> set ks")
      case True
      let ?c = "counts(k := counts k - 1)"
      have c: "\<not> counts k \<le> 1" using one True by simp
      have "\<forall>k'\<in>set ks. ?c k' = count_list ks k'" using "2.prems" by auto
      with "2.IH"(2) [OF r c] have "remove_redundant ks ?c (r - 1) = (thin (r - 1) ks, r - 1 - (length ks - card (set ks)))"
        by blast
      then show ?thesis using True r c le by (simp add: insert_absorb Suc_diff_le)
    next
      case False
      then have "\<forall>k'\<in>set ks. counts k' = count_list ks k'" using "2.prems" by auto
      moreover have c: "counts k \<le> 1" using one False by simp
      ultimately have "remove_redundant ks counts r = (thin r ks, r - (length ks - card (set ks)))"
        using "2.IH"(1) [OF r c] by blast
      then show ?thesis using False r c by simp
    qed
  qed
qed simp

lemma pick_simps [simp]:
  "pick [] bs = []" "pick xs [] = []" "pick (x # xs) (b # bs) = (if b then x # pick xs bs else pick xs bs)"
  by (simp_all add: pick_def)

lemma pick_all [simp]: "pick xs (replicate (length xs) True) = xs"
  by (induction xs) simp_all

lemma pick_subseq: "subseq (pick xs bs) xs"
  by (induction xs bs rule: list_induct2') auto

lemma pick_remove_oldest: "length bs = length xs \<Longrightarrow> pick xs (remove_oldest bs r) = drop r (pick xs bs)"
proof (induction bs xs arbitrary: r rule: list_induct2)
  case (Cons b bs x xs)
  then show ?case by (cases r) auto
qed simp

text \<open>The newest event of every key, in order.\<close>

fun newest_each :: "('e \<Rightarrow> 'k) \<Rightarrow> 'e list \<Rightarrow> 'e list" where
  "newest_each key [] = []"
| "newest_each key (e # es) = (if key e \<in> key ` set es then newest_each key es else e # newest_each key es)"

lemma length_newest_each: "length (newest_each key es) = card (key ` set es)"
  by (induction es) (auto simp: insert_absorb)

lemma newest_each_keys: "key ` set (newest_each key es) = key ` set es"
  by (induction es) auto

lemma newest_each_distinct: "distinct (map key (newest_each key es))"
  by (induction es) (use newest_each_keys [of key] in \<open>auto simp flip: set_map\<close>)

lemma pick_thin_all: "length es - card (key ` set es) \<le> r \<Longrightarrow> pick es (thin r (map key es)) = newest_each key es"
proof (induction es arbitrary: r)
  case (Cons e es)
  have "card (key ` set es) \<le> length es" by (metis card_length length_map set_map)
  with Cons Cons.IH [of 0] show ?case by (auto simp: insert_absorb Suc_diff_le)
qed simp

lemma length_pick_thin:
  "r \<le> length es - card (key ` set es) \<Longrightarrow> length (pick es (thin r (map key es))) = length es - r"
proof (induction es arbitrary: r)
  case (Cons e es)
  have le: "card (key ` set es) \<le> length es" by (metis card_length length_map set_map)
  show ?case
  proof (cases "r = 0")
    case False
    with Cons le show ?thesis by (auto simp: insert_absorb Suc_diff_le)
  qed simp
qed simp

lemma subseq_newest_thin: "subseq (newest_each key es) (pick es (thin r (map key es)))"
proof (induction es arbitrary: r)
  case (Cons e es)
  from Cons.IH [of 0] Cons.IH [of "r - 1"] Cons.IH [of r] show ?case by auto
qed simp

lemma diverse_events_thin:
  "limit < length es \<Longrightarrow> diverse_events key limit es =
     drop (length es - limit - (length es - card (key ` set es))) (pick es (thin (length es - limit) (map key es)))"
  by (simp add: diverse_events_def Let_def remove_redundant_thin pick_remove_oldest)

section \<open>Filters\<close>

text \<open>The inputs of the page: the window limit, the type, and the two trimmed lower-case texts.\<close>

record filters =
  fi_limit :: nat
  fi_type :: jstr
  fi_command :: jstr
  fi_text :: jstr

fun join_spaces :: "jstr list \<Rightarrow> jstr" where
  "join_spaces [] = []"
| "join_spaces [s] = s"
| "join_spaces (s # ss) = s @ 32 # join_spaces ss"

definition passes :: "text_env \<Rightarrow> filters \<Rightarrow> event \<Rightarrow> bool" where
  "passes te f e \<longleftrightarrow>
     (fi_type f = js ''all'' \<or> attr e ''type'' = Str (fi_type f)) \<and>
     (fi_command f = [] \<or> sublist (fi_command f) (to_lower te (to_text te (or_else (attr e ''comm'') (Str []))))) \<and>
     (fi_text f = [] \<or>
        sublist (fi_text f) (to_lower te (join_spaces (map (to_text te)
          (filter truthy (map (attr e) [''path'', ''file'', ''args'', ''dst'', ''hostnames'', ''raw'']))))))"

definition filtered_events :: "text_env \<Rightarrow> filters \<Rightarrow> event list \<Rightarrow> event list" where
  "filtered_events te f es =
     filter (passes te f)
       (diverse_events (event_relationship_key te (build_process_identity_index te es)) (fi_limit f) es)"

section \<open>Properties\<close>

text \<open>
  C31. diverseEvents returns the newest-first thinning it promises: as many events as the limit
  allows, in order; while the relationships fit the limit the newest event of each is kept,
  otherwise exactly the newest events of the most recent relationships.
\<close>

theorem diverse_selection:
  "length (diverse_events key limit es) = min limit (length es) \<and> subseq (diverse_events key limit es) es \<and>
   (if card (key ` set es) \<le> limit then subseq (newest_each key es) (diverse_events key limit es)
    else diverse_events key limit es = lastn limit (newest_each key es))"
proof (cases "limit < length es")
  case False
  have "card (key ` set es) \<le> length es" by (metis card_length length_map set_map)
  with False show ?thesis using subseq_newest_thin [of key es 0] by (simp add: diverse_events_def)
next
  case True
  let ?c = "card (key ` set es)" and ?r = "length es - limit"
  let ?t = "pick es (thin ?r (map key es))"
  note d = diverse_events_thin [OF True, of key]
  have c: "?c \<le> length es" by (metis card_length length_map set_map)
  have sub: "subseq (diverse_events key limit es) es"
    unfolding d using pick_subseq subseq_order.trans by (metis list_emb_append2 append_take_drop_id subseq_order.order_refl)
  show ?thesis
  proof (cases "?c \<le> limit")
    case small: True
    then have "?r - (length es - ?c) = 0" using c by simp
    then have "diverse_events key limit es = ?t" unfolding d by simp
    then show ?thesis using small True c sub subseq_newest_thin [of key es ?r] by (simp add: length_pick_thin)
  next
    case False
    then have t: "?t = newest_each key es" using c by (intro pick_thin_all) simp
    have "diverse_events key limit es = lastn limit (newest_each key es)"
      unfolding d t lastn_def length_newest_each using False True c by simp
    then show ?thesis using False c True sub by (simp add: length_newest_each)
  qed
qed

end
