(* ===== verification/VisGraph.thy ===== *)
theory VisGraph
  imports VisSelect
begin

text \<open>
  The graph of src/src/visualization/public/app.js: nodes and links built from the visible events,
  and the grouping of the nodes into connected components with a union-find structure.
\<close>

section \<open>Targets\<close>

text \<open>
  \<open>buildAccessDirectoryRollups\<close>: groups in the order in which they appear; the entries of all
  groups share one map, a later \<open>set\<close> wins.
\<close>

definition process_id :: "text_env \<Rightarrow> (jsval \<rightharpoonup> identity) \<Rightarrow> event \<Rightarrow> jstr" where
  "process_id te index e = js ''process:'' @ id_key (process_identity_for te index e)"

definition group_id :: "text_env \<Rightarrow> (jsval \<rightharpoonup> identity) \<Rightarrow> event \<Rightarrow> jstr" where
  "group_id te index e = process_id te index e @ js '':'' @ to_text te (attr e ''type'')"

definition rollup_entries :: "jstr \<Rightarrow> (jstr \<times> jstr) list \<times> jstr list \<Rightarrow> (jstr \<times> (jstr \<times> bool)) list" where
  "rollup_entries gid r =
     map (\<lambda>(original, d). (gid @ js '':'' @ original, (d, True))) (fst r) @
     map (\<lambda>f. (js ''file:'' @ gid @ js '':'' @ f, (f, False))) (snd r)"

definition build_access_directory_rollups ::
  "text_env \<Rightarrow> (jsval \<rightharpoonup> identity) \<Rightarrow> event list \<Rightarrow> (jstr \<rightharpoonup> jstr \<times> bool)" where
  "build_access_directory_rollups te index es =
     (let accesses = filter is_access es;
          groups = js_set (map (group_id te index) accesses);
          entries = concat (map (\<lambda>g. case group_rollup
              (map (accessed_file te) (filter (\<lambda>e. group_id te index e = g) accesses)) of
                None \<Rightarrow> []
              | Some r \<Rightarrow> rollup_entries g r) groups)
      in map_of (rev entries))"

definition graph_target_for ::
  "text_env \<Rightarrow> event \<Rightarrow> jstr \<Rightarrow> (jstr \<rightharpoonup> jstr \<times> bool) \<Rightarrow> jstr \<times> jstr" where
  "graph_target_for te e process rollups =
     (let type = to_text te (attr e ''type'') in
      if is_access e then
        let path = accessed_file te e; directory = parent_directory_for path;
            gid = process @ js '':'' @ type;
            rollup = (case rollups (js ''file:'' @ gid @ js '':'' @ path) of
                Some r \<Rightarrow> Some r
              | None \<Rightarrow> rollups (gid @ js '':'' @ directory));
            rolled_up = (case rollup of Some (d, _) \<Rightarrow> if d \<noteq> [] then d else directory | None \<Rightarrow> directory);
            shown = (case rollup of
                Some (_, True) \<Rightarrow> if rolled_up = root_dir then js ''/*'' else rolled_up @ js ''/*''
              | _ \<Rightarrow> rolled_up)
        in (rolled_up, type @ js '' '' @ shown)
      else
        let target = to_text te (target_for te e) in
        if type = js ''CONNECT'' then
          (protocol_text te e @ js '':'' @ target, protocol_text te e @ js '' '' @ target)
        else (target, target))"

definition graph_target_id :: "text_env \<Rightarrow> event \<Rightarrow> jstr \<Rightarrow> jstr \<Rightarrow> jstr" where
  "graph_target_id te e key process =
     (let type = to_text te (attr e ''type'') in
      if type = js ''RO'' \<or> type = js ''RW'' \<or> type = js ''CONNECT''
      then type @ js '':'' @ process @ js '':'' @ key else type @ js '':'' @ key)"

section \<open>Nodes and links\<close>

text \<open>The maps \<open>nodesById\<close> and \<open>linksById\<close> as lists in insertion order.\<close>

record gnode =
  gn_id :: jstr
  gn_label :: jstr
  gn_kind :: jstr
  gn_root :: bool
  gn_count :: nat
  gn_samples :: "jsval list"

record glink =
  gl_id :: jstr
  gl_source :: jstr
  gl_target :: jstr
  gl_type :: jstr
  gl_count :: nat

text \<open>Update the entry with a key, which is appended first where there is none.\<close>

fun upsert :: "('a \<Rightarrow> bool) \<Rightarrow> ('a \<Rightarrow> 'a) \<Rightarrow> 'a \<Rightarrow> 'a list \<Rightarrow> 'a list" where
  "upsert P f new [] = [f new]"
| "upsert P f new (x # xs) = (if P x then f x # xs else x # upsert P f new xs)"

definition touch_node :: "jstr \<Rightarrow> jstr \<Rightarrow> event \<Rightarrow> gnode \<Rightarrow> gnode" where
  "touch_node label kind e n =
     (let n = (if gn_kind n = js ''parent'' \<and> kind = js ''process''
               then n\<lparr>gn_kind := js ''process'', gn_label := label\<rparr> else n)
      in n\<lparr>gn_count := gn_count n + 1,
           gn_samples := (if length (gn_samples n) < 3 then gn_samples n @ [attr e ''raw''] else gn_samples n)\<rparr>)"

definition ensure_node :: "jstr \<Rightarrow> jstr \<Rightarrow> jstr \<Rightarrow> event \<Rightarrow> gnode list \<Rightarrow> gnode list" where
  "ensure_node i label kind e ns =
     upsert (\<lambda>n. gn_id n = i) (touch_node label kind e)
       \<lparr>gn_id = i, gn_label = label, gn_kind = kind, gn_root = False, gn_count = 0, gn_samples = []\<rparr> ns"

definition ensure_link :: "jstr \<Rightarrow> jstr \<Rightarrow> jstr \<Rightarrow> glink list \<Rightarrow> glink list" where
  "ensure_link source target type ls =
     (let i = type @ js '':'' @ source @ js ''->'' @ target in
      upsert (\<lambda>l. gl_id l = i) (\<lambda>l. l\<lparr>gl_count := gl_count l + 1\<rparr>)
        \<lparr>gl_id = i, gl_source = source, gl_target = target, gl_type = type, gl_count = 0\<rparr> ls)"

definition graph_step ::
  "text_env \<Rightarrow> (jsval \<rightharpoonup> identity) \<Rightarrow> (jstr \<rightharpoonup> jstr \<times> bool) \<Rightarrow> gnode list \<times> glink list \<Rightarrow> event \<Rightarrow>
     gnode list \<times> glink list" where
  "graph_step te index rollups g e =
     (let process = process_id te index e;
          type = to_text te (attr e ''type'');
          ns = ensure_node process (id_label (process_identity_for te index e)) (js ''process'') e (fst g);
          (ns, ls) =
            (if type \<noteq> js ''EXEC'' then
               let (key, label) = graph_target_for te e process rollups;
                   target = graph_target_id te e key process
               in (ensure_node target label type e ns, ensure_link process target type (snd g))
             else (ns, snd g));
          ppid = attr e ''ppid''
      in case (if truthy ppid then index ppid else None) of
           None \<Rightarrow> (ns, ls)
         | Some parent \<Rightarrow>
             let parent_id = js ''process:'' @ id_key parent in
             (ensure_node parent_id (id_label parent) (js ''parent'') e ns,
              if parent_id \<noteq> process then ensure_link parent_id process (js ''PPID'') ls else ls))"

text \<open>A node is a root if it is a process none of whose links comes from an observed parent.\<close>

definition mark_roots :: "glink list \<Rightarrow> gnode list \<Rightarrow> gnode list" where
  "mark_roots ls ns = map (\<lambda>n. n\<lparr>gn_root :=
       (gn_kind n = js ''process'' \<or> gn_kind n = js ''parent'') \<and>
       gn_id n \<notin> set (map gl_target (filter (\<lambda>l. gl_type l = js ''PPID'') ls))\<rparr>) ns"

definition build_graph :: "text_env \<Rightarrow> (jsval \<rightharpoonup> identity) \<Rightarrow> event list \<Rightarrow> gnode list \<times> glink list" where
  "build_graph te index es =
     (let (ns, ls) = foldl (graph_step te index (build_access_directory_rollups te index es)) ([], []) es
      in (mark_roots ls ns, ls))"

section \<open>Components\<close>

text \<open>
  \<open>assignComponentCenters\<close>: the parent map of the nodes, \<open>find\<close> with path compression, and the
  union of the ends of every link. \<open>None\<close> is a loop that does not end or a lookup of an absent node.
\<close>

partial_function (option) root_of :: "('n \<rightharpoonup> 'n) \<Rightarrow> 'n \<Rightarrow> 'n option" where
  "root_of parent r =
     (case parent r of None \<Rightarrow> None | Some p \<Rightarrow> if p \<noteq> r then root_of parent p else Some r)"

partial_function (option) compress :: "'n \<Rightarrow> ('n \<rightharpoonup> 'n) \<Rightarrow> 'n \<Rightarrow> ('n \<rightharpoonup> 'n) option" where
  "compress r parent i =
     (case parent i of
        None \<Rightarrow> None
      | Some nxt \<Rightarrow> if nxt \<noteq> i then compress r (parent(i \<mapsto> r)) nxt else Some parent)"

definition find_root :: "('n \<rightharpoonup> 'n) \<Rightarrow> 'n \<Rightarrow> ('n \<times> ('n \<rightharpoonup> 'n)) option" where
  "find_root parent i = (case root_of parent i of
     None \<Rightarrow> None
   | Some r \<Rightarrow> (case compress r parent i of None \<Rightarrow> None | Some parent' \<Rightarrow> Some (r, parent')))"

definition union_link :: "'n \<times> 'n \<Rightarrow> ('n \<rightharpoonup> 'n) \<Rightarrow> ('n \<rightharpoonup> 'n) option" where
  "union_link l parent = (case find_root parent (fst l) of
     None \<Rightarrow> None
   | Some (s, parent) \<Rightarrow> (case find_root parent (snd l) of
        None \<Rightarrow> None
      | Some (t, parent) \<Rightarrow> Some (if s \<noteq> t then parent(t \<mapsto> s) else parent)))"

fun union_links :: "('n \<times> 'n) list \<Rightarrow> ('n \<rightharpoonup> 'n) \<Rightarrow> ('n \<rightharpoonup> 'n) option" where
  "union_links [] parent = Some parent"
| "union_links (l # ls) parent = (case union_link l parent of None \<Rightarrow> None | Some p \<Rightarrow> union_links ls p)"

text \<open>\<open>d3.groups(nodes, node => find(node.id))\<close>: each node with its root, the map changing on the way.\<close>

fun find_all :: "'n list \<Rightarrow> ('n \<rightharpoonup> 'n) \<Rightarrow> ('n \<times> 'n) list option" where
  "find_all [] parent = Some []"
| "find_all (i # is) parent = (case find_root parent i of
     None \<Rightarrow> None
   | Some (r, parent) \<Rightarrow> map_option (\<lambda>rs. (i, r) # rs) (find_all is parent))"

definition own_parents :: "'n list \<Rightarrow> ('n \<rightharpoonup> 'n)" where
  "own_parents nodes = map_of (map (\<lambda>i. (i, i)) nodes)"

definition node_roots :: "'n list \<Rightarrow> ('n \<times> 'n) list \<Rightarrow> ('n \<times> 'n) list option" where
  "node_roots nodes links =
     (case union_links links (own_parents nodes) of None \<Rightarrow> None | Some p \<Rightarrow> find_all nodes p)"

text \<open>The groups, in the order of their first node, then (stably) by falling size.\<close>

definition components :: "'n list \<Rightarrow> ('n \<times> 'n) list \<Rightarrow> 'n list list option" where
  "components nodes links = map_option (\<lambda>rs.
     let groups = map (\<lambda>r. map fst (filter (\<lambda>(i, r'). r' = r) rs)) (js_set (map snd rs))
     in rev (sort_key length (rev groups))) (node_roots nodes links)"

end
