(* ===== verification/VisComponents.thy ===== *)
theory VisComponents
  imports VisGraph "HOL-Library.Multiset"
begin

text \<open>
  Correctness of the union-find of \<open>assignComponentCenters\<close> (src/src/visualization/public/app.js):
  \<open>find\<close> ends and its path compression changes no root, and after all links two nodes have the same
  root exactly if they are connected. The graph built from events satisfies what this needs: every
  link ends in nodes.
\<close>

section \<open>Paths to roots\<close>

inductive path :: "('n \<rightharpoonup> 'n) \<Rightarrow> 'n \<Rightarrow> 'n \<Rightarrow> nat \<Rightarrow> bool" for parent where
  here: "parent r = Some r \<Longrightarrow> path parent r r 0"
| up: "parent x = Some y \<Longrightarrow> y \<noteq> x \<Longrightarrow> path parent y r n \<Longrightarrow> path parent x r (Suc n)"

inductive_cases path_zeroE: "path parent x r 0"
inductive_cases path_SucE: "path parent x r (Suc n)"

definition rooted :: "('n \<rightharpoonup> 'n) \<Rightarrow> 'n \<Rightarrow> 'n \<Rightarrow> bool" where
  "rooted parent x r \<longleftrightarrow> (\<exists>n. path parent x r n)"

lemma path_root: "path parent x r n \<Longrightarrow> parent r = Some r \<and> x \<in> dom parent"
  by (induction rule: path.induct) auto

lemma path_det: "path parent x r n \<Longrightarrow> path parent x s m \<Longrightarrow> r = s"
proof (induction arbitrary: s m rule: path.induct)
  case (here r)
  from here.prems show ?case by (cases) (use here.hyps in auto)
next
  case (up x y r n)
  from up.prems show ?case
  proof cases
    case (up y' m')
    then show ?thesis using up.hyps up.IH \<open>parent x = Some y\<close> by auto
  qed (use up.hyps in auto)
qed

lemma rooted_det: "rooted parent x r \<Longrightarrow> rooted parent x s \<Longrightarrow> r = s"
  by (auto simp: rooted_def dest: path_det)

lemma root_of_path: "path parent x r n \<Longrightarrow> root_of parent x = Some r"
  by (induction rule: path.induct) (simp_all add: root_of.simps)

text \<open>Pointing a node straight at its root keeps every root and lengthens no path.\<close>

lemma path_shortcut:
  assumes "path parent x r k" and "path parent y s n"
  shows "\<exists>n'\<le>n. path (parent(x \<mapsto> r)) y s n'"
  using assms(2)
proof (induction rule: path.induct)
  case (here s)
  show ?case
  proof (cases "s = x")
    case True
    have "path parent x x 0" using here True by (auto intro: path.here)
    with assms(1) have "r = s" using True path_det by metis
    then show ?thesis using True by (intro exI [of _ 0]) (simp add: path.here)
  next
    case False
    then show ?thesis using here by (intro exI [of _ 0]) (simp add: path.here)
  qed
next
  case (up y z s n)
  show ?case
  proof (cases "y = x")
    case True
    have "path parent y s (Suc n)" using up by (auto intro: path.up)
    with assms(1) True have r: "r = s" using path_det by metis
    have root: "parent r = Some r" using path_root [OF assms(1)] by simp
    show ?thesis
    proof (cases "r = x")
      case True
      then show ?thesis using r \<open>y = x\<close> by (intro exI [of _ 0]) (simp add: path.here)
    next
      case False
      then have "path (parent(x \<mapsto> r)) x r (Suc 0)"
        using root by (intro path.up [where y = r] path.here) simp_all
      then show ?thesis unfolding r [symmetric] \<open>y = x\<close> by (intro exI [of _ "Suc 0"] conjI) (simp, assumption)
    qed
  next
    case False
    from up.IH obtain n' where "n' \<le> n" and p: "path (parent(x \<mapsto> r)) z s n'" by blast
    from p have "path (parent(x \<mapsto> r)) y s (Suc n')"
      using up.hyps False by (intro path.up [where y = z]) (simp, assumption+)
    moreover have "Suc n' \<le> Suc n" using \<open>n' \<le> n\<close> by simp
    ultimately show ?thesis by blast
  qed
qed

lemma compress_ends:
  "path parent i r n \<Longrightarrow>
     \<exists>parent'. compress r parent i = Some parent' \<and> dom parent' = dom parent \<and>
       (\<forall>x s. rooted parent x s \<longrightarrow> rooted parent' x s)"
proof (induction n arbitrary: parent i rule: less_induct)
  case (less n)
  show ?case
  proof (cases n)
    case 0
    with less.prems have "parent i = Some i" by (auto elim: path_zeroE)
    then show ?thesis by (intro exI [of _ parent]) (simp add: compress.simps)
  next
    case (Suc m)
    with less.prems obtain y where y: "parent i = Some y" "y \<noteq> i" "path parent y r m"
      by (auto elim: path_SucE)
    let ?p = "parent(i \<mapsto> r)"
    obtain m' where "m' \<le> m" and p: "path ?p y r m'"
      using path_shortcut [OF less.prems y(3)] by blast
    then obtain p' where p': "compress r ?p y = Some p'" "dom p' = dom ?p"
        "\<forall>x s. rooted ?p x s \<longrightarrow> rooted p' x s"
      using less.IH [OF _ p] Suc by (metis less_Suc_eq_le)
    have "dom ?p = dom parent" using y(1) by auto
    moreover have "rooted parent x s \<longrightarrow> rooted p' x s" for x s
      using p'(3) path_shortcut [OF less.prems] by (auto simp: rooted_def) blast
    ultimately show ?thesis using p' y by (intro exI [of _ p']) (simp add: compress.simps)
  qed
qed

section \<open>Forests\<close>

definition forest :: "'n set \<Rightarrow> ('n \<rightharpoonup> 'n) \<Rightarrow> bool" where
  "forest N parent \<longleftrightarrow> dom parent = N \<and> (\<forall>x\<in>N. \<exists>r. rooted parent x r)"

lemma own_parents_forest: "forest (set nodes) (own_parents nodes)"
proof -
  have p: "own_parents nodes x = (if x \<in> set nodes then Some x else None)" for x
    by (induction nodes) (auto simp: own_parents_def)
  have "path (own_parents nodes) x x 0" if "x \<in> set nodes" for x
    using that by (intro path.here) (simp add: p)
  then show ?thesis by (auto simp: forest_def rooted_def p dom_def split: if_splits)
qed

lemma own_parents_root: "x \<in> set nodes \<Longrightarrow> rooted (own_parents nodes) x x"
proof -
  assume "x \<in> set nodes"
  then have "own_parents nodes x = Some x"
    by (induction nodes) (auto simp: own_parents_def)
  then show ?thesis by (auto simp: rooted_def intro: path.here)
qed

lemma find_root_ok:
  assumes "forest N parent" and "rooted parent i r"
  obtains parent' where "find_root parent i = Some (r, parent')" and "forest N parent'"
    and "\<And>x s. rooted parent' x s \<longleftrightarrow> rooted parent x s"
proof -
  from assms(2) obtain n where p: "path parent i r n" by (auto simp: rooted_def)
  from compress_ends [OF p] obtain p' where p': "compress r parent i = Some p'" "dom p' = dom parent"
      "\<And>x s. rooted parent x s \<Longrightarrow> rooted p' x s" by blast
  have "rooted parent x s" if "rooted p' x s" for x s
  proof -
    have "x \<in> dom p'" using that by (auto simp: rooted_def dest: path_root)
    then obtain t where "rooted parent x t" using assms(1) p'(2) by (auto simp: forest_def)
    with p'(3) that show ?thesis using rooted_det by metis
  qed
  with p' assms(1) show thesis
    unfolding forest_def
    by (intro that [of p']) (simp add: find_root_def root_of_path [OF p], metis forest_def, metis)
qed

lemma link_roots:
  assumes "parent s = Some s" and "parent t = Some t" and "s \<noteq> t" and "path parent x r n"
  shows "rooted (parent(t \<mapsto> s)) x (if r = t then s else r)"
  using assms(4)
proof (induction rule: path.induct)
  case (here r)
  have s: "path (parent(t \<mapsto> s)) s s 0" using assms by (intro path.here) simp
  have "path (parent(t \<mapsto> s)) t s (Suc 0)" using assms s by (intro path.up [where y = s]) simp_all
  moreover have "path (parent(t \<mapsto> s)) r r 0" if "r \<noteq> t" using here that by (intro path.here) simp
  ultimately show ?case unfolding rooted_def by (cases "r = t") metis+
next
  case (up x y r n)
  then have "x \<noteq> t" using assms(2) by auto
  with up(1) have "(parent(t \<mapsto> s)) x = Some y" by simp
  moreover obtain m where "path (parent(t \<mapsto> s)) y (if r = t then s else r) m"
    using up.IH unfolding rooted_def by blast
  ultimately show ?case using up(2) unfolding rooted_def by (blast intro: path.up)
qed

definition linked :: "('n \<times> 'n) set \<Rightarrow> ('n \<times> 'n) set" where
  "linked L = (L \<union> L\<inverse>)\<^sup>*"

lemma linked_sym: "(x, y) \<in> linked L \<Longrightarrow> (y, x) \<in> linked L"
proof -
  have "sym ((L \<union> L\<inverse>)\<^sup>*)" by (intro sym_rtrancl) (auto simp: sym_def)
  then show "(x, y) \<in> linked L \<Longrightarrow> (y, x) \<in> linked L" by (simp add: linked_def sym_def)
qed

lemma linked_trans: "(x, y) \<in> linked L \<Longrightarrow> (y, z) \<in> linked L \<Longrightarrow> (x, z) \<in> linked L"
  by (simp add: linked_def)

lemma linked_refl [simp]: "(x, x) \<in> linked L"
  by (simp add: linked_def)

text \<open>One more link joins the two components of its ends.\<close>

lemma linked_insert:
  "(x, y) \<in> linked (insert (a, b) L) \<longleftrightarrow>
     (x, y) \<in> linked L \<or> (x, a) \<in> linked L \<and> (b, y) \<in> linked L \<or>
     (x, b) \<in> linked L \<and> (a, y) \<in> linked L"
  (is "?l \<longleftrightarrow> ?r y")
proof
  assume ?l
  then show "?r y" unfolding linked_def [of "insert (a, b) L"]
  proof (induction rule: rtrancl_induct)
    case (step y z)
    then consider "(y, z) \<in> L \<union> L\<inverse>" | "y = a" "z = b" | "y = b" "z = a" by auto
    then show ?case
    proof cases
      case 1
      then have "(y, z) \<in> linked L" by (auto simp: linked_def)
      with step.IH show ?thesis using linked_trans by metis
    qed (use step.IH linked_sym linked_trans linked_refl in metis)+
  qed simp
next
  have mono: "(u, v) \<in> linked L \<Longrightarrow> (u, v) \<in> linked (insert (a, b) L)" for u v
    unfolding linked_def by (rule rtrancl_mono [THEN subsetD]) auto
  have "(a, b) \<in> linked (insert (a, b) L)" by (auto simp: linked_def)
  then show "?r y \<Longrightarrow> ?l" using mono linked_sym linked_trans by metis
qed

section \<open>All links\<close>

text \<open>Same root means connected by the links handled so far.\<close>

definition joins :: "'n set \<Rightarrow> ('n \<times> 'n) set \<Rightarrow> ('n \<rightharpoonup> 'n) \<Rightarrow> bool" where
  "joins N L parent \<longleftrightarrow> forest N parent \<and>
     (\<forall>x r y s. rooted parent x r \<and> rooted parent y s \<longrightarrow> (r = s \<longleftrightarrow> (x, y) \<in> linked L))"

lemma joinsD:
  "joins N L parent \<Longrightarrow> rooted parent x r \<Longrightarrow> rooted parent y s \<Longrightarrow> r = s \<longleftrightarrow> (x, y) \<in> linked L"
  by (simp add: joins_def)

lemma union_link_joins:
  assumes j: "joins N L parent" and "fst l \<in> N" and "snd l \<in> N"
  shows "\<exists>parent'. union_link l parent = Some parent' \<and> joins N (insert l L) parent'"
proof -
  obtain a b where l: "l = (a, b)" by (cases l)
  have f: "forest N parent" using j by (simp add: joins_def)
  then obtain s t where s: "rooted parent a s" and t: "rooted parent b t"
    using assms(2,3) unfolding forest_def l fst_conv snd_conv by blast
  from find_root_ok [OF f s] obtain p1 where
    p1: "find_root parent a = Some (s, p1)" "forest N p1" "\<And>x u. rooted p1 x u \<longleftrightarrow> rooted parent x u" by metis
  from find_root_ok [OF p1(2), of b t] t p1(3) obtain p2 where
    p2: "find_root p1 b = Some (t, p2)" "forest N p2" "\<And>x u. rooted p2 x u \<longleftrightarrow> rooted parent x u" by metis
  let ?p = "if s \<noteq> t then p2(t \<mapsto> s) else p2"
  have roots: "p2 s = Some s" "p2 t = Some t"
    using s t p2(3) by (auto simp: rooted_def dest: path_root)
  have new: "rooted ?p x (if u = t then s else u)" if "rooted parent x u" for x u
  proof (cases "s = t")
    case True
    then show ?thesis using that p2(3) by auto
  next
    case False
    from that p2(3) obtain n where "path p2 x u n" unfolding rooted_def by blast
    from link_roots [OF roots False this] False show ?thesis by simp
  qed
  have dom: "dom ?p = N" using p2(2) roots(2) by (auto simp: forest_def)
  have ex: "\<exists>u. rooted parent x u \<and> v = (if u = t then s else u)" if "rooted ?p x v" for x v
  proof -
    have "x \<in> N" using that dom by (auto simp: rooted_def dest: path_root)
    then obtain u where u: "rooted parent x u" using f unfolding forest_def by blast
    with rooted_det [OF that new [OF u]] show ?thesis by blast
  qed
  have "forest N ?p" using dom new f unfolding forest_def by blast
  moreover have "v = w \<longleftrightarrow> (x, y) \<in> linked (insert l L)" if v: "rooted ?p x v" and w: "rooted ?p y w" for x v y w
  proof -
    obtain u u' where u: "rooted parent x u" "v = (if u = t then s else u)"
      and u': "rooted parent y u'" "w = (if u' = t then s else u')" using ex [OF v] ex [OF w] by blast
    have iffs: "(x, y) \<in> linked L \<longleftrightarrow> u = u'" "(x, a) \<in> linked L \<longleftrightarrow> u = s" "(b, y) \<in> linked L \<longleftrightarrow> t = u'"
      "(x, b) \<in> linked L \<longleftrightarrow> u = t" "(a, y) \<in> linked L \<longleftrightarrow> s = u'"
      by (rule joinsD [OF j u(1) u'(1), symmetric] joinsD [OF j u(1) s, symmetric] joinsD [OF j t u'(1), symmetric]
          joinsD [OF j u(1) t, symmetric] joinsD [OF j s u'(1), symmetric])+
    show ?thesis unfolding l linked_insert iffs u(2) u'(2) by auto
  qed
  ultimately have "joins N (insert l L) ?p" unfolding joins_def by blast
  then show ?thesis by (intro exI [of _ ?p]) (simp add: union_link_def l p1 p2)
qed

lemma union_links_joins:
  "joins N L parent \<Longrightarrow> set ls \<subseteq> N \<times> N \<Longrightarrow>
     \<exists>parent'. union_links ls parent = Some parent' \<and> joins N (set ls \<union> L) parent'"
proof (induction ls arbitrary: L parent)
  case (Cons l ls)
  then obtain p where p: "union_link l parent = Some p" "joins N (insert l L) p"
    using union_link_joins [of N L parent l] by auto
  with Cons.IH [of "insert l L" p] Cons.prems show ?case by auto
qed simp

lemma find_all_roots:
  "forest N parent \<Longrightarrow> set is \<subseteq> N \<Longrightarrow>
     \<exists>rs. find_all is parent = Some rs \<and> map fst rs = is \<and> (\<forall>(x, r)\<in>set rs. rooted parent x r)"
proof (induction "is" arbitrary: parent)
  case (Cons i "is")
  then obtain r where r: "rooted parent i r" unfolding forest_def by (metis list.set_intros(1) subsetD)
  from find_root_ok [OF Cons.prems(1) r] obtain p where
    p: "find_root parent i = Some (r, p)" "forest N p" "\<And>x s. rooted p x s \<longleftrightarrow> rooted parent x s" by metis
  from Cons.IH [OF p(2)] Cons.prems obtain rs where
    "find_all is p = Some rs" "map fst rs = is" "\<forall>(x, r)\<in>set rs. rooted p x r" by auto
  with p r show ?case by (intro exI [of _ "(i, r) # rs"]) auto
qed simp

lemma node_roots_correct:
  assumes "set links \<subseteq> set nodes \<times> set nodes"
  obtains rs where "node_roots nodes links = Some rs" and "map fst rs = nodes"
    and "\<And>x r y s. (x, r) \<in> set rs \<Longrightarrow> (y, s) \<in> set rs \<Longrightarrow> r = s \<longleftrightarrow> (x, y) \<in> linked (set links)"
proof -
  have "joins (set nodes) {} (own_parents nodes)"
  proof -
    have "r = x \<and> x \<in> set nodes" if "rooted (own_parents nodes) x r" for x r
    proof -
      have "x \<in> set nodes"
        using that own_parents_forest [of nodes] by (auto simp: rooted_def forest_def dest: path_root)
      then show ?thesis using that own_parents_root rooted_det by metis
    qed
    then show ?thesis using own_parents_forest [of nodes] by (auto simp: joins_def linked_def)
  qed
  from union_links_joins [OF this assms] obtain p where
    p: "union_links links (own_parents nodes) = Some p" "joins (set nodes) (set links) p" by auto
  then have "forest (set nodes) p" by (simp add: joins_def)
  from find_all_roots [OF this, of nodes] obtain rs where
    rs: "find_all nodes p = Some rs" "map fst rs = nodes" "\<forall>(x, r)\<in>set rs. rooted p x r" by auto
  have "r = s \<longleftrightarrow> (x, y) \<in> linked (set links)" if "(x, r) \<in> set rs" "(y, s) \<in> set rs" for x r y s
    using rs(3) that by (intro joinsD [OF p(2)]) auto
  with rs p(1) show thesis by (intro that [of rs]) (simp_all add: node_roots_def)
qed

section \<open>The components as groups\<close>

lemma groups_distinct:
  assumes "distinct (map fst rs)"
  shows "distinct (concat (map (\<lambda>r. map fst (filter (\<lambda>(i, r'). r' = r) rs)) (js_set (map snd rs))))"
proof (rule distinct_concat)
  let ?g = "\<lambda>r. map fst (filter (\<lambda>(i, r'). r' = r) rs)"
  have ne: "r \<in> set (map snd rs) \<Longrightarrow> \<exists>x. x \<in> set (?g r)" for r by force
  have disj: "r \<noteq> r' \<Longrightarrow> set (?g r) \<inter> set (?g r') = {}" for r r'
    using eq_key_imp_eq_value [OF assms] by auto
  have "inj_on ?g (set (js_set (map snd rs)))"
  proof (rule inj_onI)
    fix r r' assume "r \<in> set (js_set (map snd rs))" and "?g r = ?g r'"
    then show "r = r'" using ne [of r] disj [of r r'] by auto
  qed
  then show "distinct (map ?g (js_set (map snd rs)))" by (simp add: distinct_map)
  fix ys assume ys: "ys \<in> set (map ?g (js_set (map snd rs)))"
  then show "distinct ys" using distinct_filter [of rs] assms by (auto simp: distinct_map intro: inj_on_subset)
  fix zs assume "zs \<in> set (map ?g (js_set (map snd rs)))" and "ys \<noteq> zs"
  with ys obtain r r' where e: "ys = ?g r" "zs = ?g r'" unfolding set_map by (elim imageE) blast
  with \<open>ys \<noteq> zs\<close> have "r \<noteq> r'" by blast
  then show "set ys \<inter> set zs = {}" unfolding e by (rule disj)
qed

lemma distinct_concat_mset: "mset xss = mset yss \<Longrightarrow> distinct (concat xss) \<Longrightarrow> distinct (concat yss)"
proof -
  assume "mset xss = mset yss"
  then have "mset (concat xss) = mset (concat yss)" by (metis mset_concat mset_map sum_mset_sum_list)
  then show "distinct (concat xss) \<Longrightarrow> distinct (concat yss)" by (metis mset_eq_imp_distinct_iff)
qed

lemma components_correct:
  assumes d: "distinct nodes" and sub: "set links \<subseteq> set nodes \<times> set nodes"
  obtains gs where "components nodes links = Some gs" and "distinct (concat gs)" and "set (concat gs) = set nodes"
    and "\<And>g x. g \<in> set gs \<Longrightarrow> x \<in> set g \<Longrightarrow> set g = {y \<in> set nodes. (x, y) \<in> linked (set links)}"
    and "sorted_wrt (\<lambda>g h. length h \<le> length g) gs"
proof -
  obtain rs where rs: "node_roots nodes links = Some rs" "map fst rs = nodes"
    and eq: "\<And>x r y s. (x, r) \<in> set rs \<Longrightarrow> (y, s) \<in> set rs \<Longrightarrow> r = s \<longleftrightarrow> (x, y) \<in> linked (set links)"
    using node_roots_correct [OF sub] by blast
  let ?g = "\<lambda>r. map fst (filter (\<lambda>(i, r'). r' = r) rs)"
  let ?groups = "map ?g (js_set (map snd rs))"
  let ?gs = "rev (sort_key length (rev ?groups))"
  have c: "components nodes links = Some ?gs" by (simp add: components_def rs(1) Let_def)
  have "distinct (concat ?groups)" using d rs(2) by (intro groups_distinct) simp
  then have dc: "distinct (concat ?gs)" by (rule distinct_concat_mset [rotated]) simp
  have n: "set nodes = fst ` set rs" using rs(2) by (metis set_map)
  have "set (concat ?gs) = set nodes" by (force simp: n)
  moreover have "set g = {y \<in> set nodes. (x, y) \<in> linked (set links)}" if "g \<in> set ?gs" "x \<in> set g" for g x
  proof -
    from that obtain r where g: "g = ?g r" by auto
    with that(2) have x: "(x, r) \<in> set rs" by auto
    show ?thesis
    proof (intro set_eqI)
      fix y
      show "y \<in> set g \<longleftrightarrow> y \<in> {y \<in> set nodes. (x, y) \<in> linked (set links)}"
        using eq [OF x] by (auto simp: g n) force+
    qed
  qed
  moreover have "sorted_wrt (\<lambda>g h. length h \<le> length g) ?gs"
    using sorted_sort_key [of length "rev ?groups"] by (simp add: sorted_wrt_rev sorted_map)
  ultimately show thesis using c dc by (intro that) blast+
qed

section \<open>The links of the graph\<close>

lemma upsert_keys:
  "(\<And>x. key (f x) = key x) \<Longrightarrow> key new = i \<Longrightarrow>
     set (map key (upsert (\<lambda>x. key x = i) f new xs)) = insert i (set (map key xs)) \<and>
     (distinct (map key xs) \<longrightarrow> distinct (map key (upsert (\<lambda>x. key x = i) f new xs)))"
  by (induction xs) (auto simp: image_iff)

lemma touch_node_id [simp]: "gn_id (touch_node label kind e n) = gn_id n"
  by (simp add: touch_node_def Let_def)

lemma ensure_node_ids:
  "set (map gn_id (ensure_node i label kind e ns)) = insert i (set (map gn_id ns))"
  "distinct (map gn_id ns) \<Longrightarrow> distinct (map gn_id (ensure_node i label kind e ns))"
  unfolding ensure_node_def
  using upsert_keys [where key = gn_id and f = "touch_node label kind e" and i = i and xs = ns
      and new = "\<lparr>gn_id = i, gn_label = label, gn_kind = kind, gn_root = False, gn_count = 0, gn_samples = []\<rparr>"]
  by simp_all

definition link_ends :: "glink \<Rightarrow> jstr \<times> jstr" where
  "link_ends l = (gl_source l, gl_target l)"

lemma upsert_set: "x \<in> set (upsert P f new xs) \<Longrightarrow> x = f new \<or> x \<in> set xs \<or> x \<in> f ` set xs"
  by (induction xs) (auto split: if_splits)

lemma ensure_link_ends:
  "set (map link_ends (ensure_link s t type ls)) \<subseteq> insert (s, t) (set (map link_ends ls))"
  by (auto simp: ensure_link_def Let_def link_ends_def dest!: upsert_set)

definition node_ids :: "gnode list \<Rightarrow> jstr set" where
  "node_ids ns = set (map gn_id ns)"

definition graph_inv :: "gnode list \<Rightarrow> glink list \<Rightarrow> bool" where
  "graph_inv ns ls \<longleftrightarrow> distinct (map gn_id ns) \<and> set (map link_ends ls) \<subseteq> node_ids ns \<times> node_ids ns"

lemma node_ids_ensure [simp]: "node_ids (ensure_node i label kind e ns) = insert i (node_ids ns)"
  by (simp only: node_ids_def ensure_node_ids)

lemma graph_inv_node [intro]: "graph_inv ns ls \<Longrightarrow> graph_inv (ensure_node i label kind e ns) ls"
  unfolding graph_inv_def node_ids_ensure by (blast intro: ensure_node_ids(2))

lemma graph_inv_link [intro]:
  "graph_inv ns ls \<Longrightarrow> s \<in> node_ids ns \<Longrightarrow> t \<in> node_ids ns \<Longrightarrow> graph_inv ns (ensure_link s t type ls)"
  unfolding graph_inv_def using ensure_link_ends [of s t type ls] by blast

lemma graph_step_inv:
  assumes "graph_inv (fst g) (snd g)"
  shows "graph_inv (fst (graph_step te index rollups g e)) (snd (graph_step te index rollups g e))"
proof -
  let ?p = "process_id te index e" and ?type = "to_text te (attr e ''type'')"
  let ?ns = "ensure_node ?p (id_label (process_identity_for te index e)) (js ''process'') e (fst g)"
  obtain key label where t: "graph_target_for te e ?p rollups = (key, label)" by (metis surj_pair)
  let ?t = "graph_target_id te e key ?p"
  define ns where "ns = (if ?type \<noteq> js ''EXEC'' then ensure_node ?t label ?type e ?ns else ?ns)"
  define ls where "ls = (if ?type \<noteq> js ''EXEC'' then ensure_link ?p ?t ?type (snd g) else snd g)"
  have i: "graph_inv ns ls" using assms unfolding ns_def ls_def by (simp add: graph_inv_node graph_inv_link)
  have p: "?p \<in> node_ids ns" by (simp add: ns_def)
  show ?thesis
  proof (cases "if truthy (attr e ''ppid'') then index (attr e ''ppid'') else None")
    case None
    then have "graph_step te index rollups g e = (ns, ls)"
      by (simp add: graph_step_def Let_def t ns_def ls_def)
    with i show ?thesis by simp
  next
    case (Some parent)
    let ?q = "js ''process:'' @ id_key parent"
    have "graph_step te index rollups g e = (ensure_node ?q (id_label parent) (js ''parent'') e ns,
        if ?q \<noteq> ?p then ensure_link ?q ?p (js ''PPID'') ls else ls)"
      using Some by (simp add: graph_step_def Let_def t ns_def ls_def)
    with i p show ?thesis by (simp add: graph_inv_node graph_inv_link)
  qed
qed

lemma build_graph_inv: "graph_inv (fst (build_graph te index es)) (snd (build_graph te index es))"
proof -
  let ?step = "graph_step te index (build_access_directory_rollups te index es)"
  have fold: "graph_inv (fst (foldl ?step g xs)) (snd (foldl ?step g xs))" if "graph_inv (fst g) (snd g)" for g xs
    using that
  proof (induction xs arbitrary: g)
    case (Cons x xs)
    from Cons.IH [OF graph_step_inv [OF Cons.prems]] show ?case by simp
  qed simp
  obtain ns ls where g: "foldl ?step ([], []) es = (ns, ls)" by (metis surj_pair)
  have "graph_inv ns ls" using fold [of "([], [])" es] by (simp add: g graph_inv_def)
  moreover have "map gn_id (mark_roots ls ns) = map gn_id ns" by (simp add: mark_roots_def)
  ultimately show ?thesis by (simp add: build_graph_def g graph_inv_def node_ids_def del: set_map)
qed

section \<open>Properties\<close>

definition te0 :: text_env where
  "te0 = \<lparr>te_number = (\<lambda>n. []), te_upper = (\<lambda>s. s), te_lower = (\<lambda>s. s)\<rparr>"

text \<open>
  For the graph of any events the union-find ends, and its groups are the connected components:
  every node is in one group, a group is exactly the nodes connected to any of its members, and
  larger groups come first.
\<close>

theorem graph_components:
  fixes te index es
  defines "ids \<equiv> map gn_id (fst (build_graph te index es))"
    and "ends \<equiv> map link_ends (snd (build_graph te index es))"
  shows "\<exists>gs. components ids ends = Some gs \<and> distinct (concat gs) \<and> set (concat gs) = set ids \<and>
    (\<forall>g\<in>set gs. \<forall>x\<in>set g. set g = {y \<in> set ids. (x, y) \<in> linked (set ends)}) \<and>
    sorted_wrt (\<lambda>g h. length h \<le> length g) gs"
proof -
  have d: "distinct ids" and sub: "set ends \<subseteq> set ids \<times> set ids"
    using build_graph_inv [of te index es] by (simp_all add: graph_inv_def node_ids_def ids_def ends_def)
  show ?thesis
  proof (rule components_correct [OF d sub])
    fix gs
    assume "components ids ends = Some gs" "distinct (concat gs)" "set (concat gs) = set ids"
      "\<And>g x. g \<in> set gs \<Longrightarrow> x \<in> set g \<Longrightarrow> set g = {y \<in> set ids. (x, y) \<in> linked (set ends)}"
      "sorted_wrt (\<lambda>g h. length h \<le> length g) gs"
    then show ?thesis by (intro exI [of _ gs] conjI ballI)
  qed
qed

theorem graph_components_witness:
  "\<exists>gs. components (map gn_id (fst (build_graph te0 Map.empty [[js ''type'' \<mapsto> Str (js ''RO'')]])))
      (map link_ends (snd (build_graph te0 Map.empty [[js ''type'' \<mapsto> Str (js ''RO'')]]))) = Some gs"
  using graph_components [of te0 Map.empty "[[js ''type'' \<mapsto> Str (js ''RO'')]]"] by blast

end
