(* ===== verification/VisLayout.thy ===== *)
theory VisLayout
  imports VisComponents
begin

text \<open>
  Where the graph of src/src/visualization/public/app.js places its connected components: the
  cells of a grid over the drawing area, the largest component first. Numbers are exact here.
\<close>

section \<open>The grid\<close>

text \<open>\<open>Math.ceil(Math.sqrt(m))\<close> of a natural number.\<close>

definition ceil_sqrt :: "nat \<Rightarrow> nat" where
  "ceil_sqrt m = (case find (\<lambda>c. m \<le> c * c) [0..<Suc m] of Some c \<Rightarrow> c | None \<Rightarrow> m)"

definition grid_columns :: "nat \<Rightarrow> rat \<Rightarrow> rat \<Rightarrow> nat" where
  "grid_columns n width height = max 1 (ceil_sqrt (nat \<lceil>of_nat n * width / height\<rceil>))"

definition grid_rows :: "nat \<Rightarrow> nat \<Rightarrow> nat" where
  "grid_rows n columns = nat \<lceil>of_nat n / of_nat columns :: rat\<rceil>"

definition cell_center :: "rat \<Rightarrow> rat \<Rightarrow> nat \<Rightarrow> nat \<Rightarrow> nat \<Rightarrow> rat \<times> rat" where
  "cell_center width height columns rows index =
     ((of_nat (index mod columns) + 1 / 2) * width / of_nat columns,
      (of_nat (index div columns) + 1 / 2) * height / of_nat rows)"

text \<open>\<open>componentX\<close> and \<open>componentY\<close> of every node.\<close>

definition assign_component_centers ::
  "'n list \<Rightarrow> ('n \<times> 'n) list \<Rightarrow> rat \<Rightarrow> rat \<Rightarrow> ('n \<rightharpoonup> rat \<times> rat) option" where
  "assign_component_centers nodes links width height =
     map_option (\<lambda>groups.
       let columns = grid_columns (length groups) width height;
           rows = grid_rows (length groups) columns
       in map_of (concat (map (\<lambda>(index, members).
            map (\<lambda>m. (m, cell_center width height columns rows index)) members) (enumerate 0 groups))))
     (components nodes links)"

section \<open>Its cells\<close>

lemma find_upt_least:
  "find P [k..<n] = Some c \<Longrightarrow> P c \<and> k \<le> c \<and> c < n \<and> (\<forall>i. k \<le> i \<and> i < c \<longrightarrow> \<not> P i)"
proof (induction "n - k" arbitrary: k)
  case (Suc d)
  then have k: "k < n" by simp
  show ?case
  proof (cases "P k")
    case True
    then show ?thesis using Suc.prems k by (auto simp: upt_conv_Cons)
  next
    case False
    then have "find P [Suc k..<n] = Some c" using Suc.prems k by (simp add: upt_conv_Cons)
    then have "P c \<and> Suc k \<le> c \<and> c < n \<and> (\<forall>i. Suc k \<le> i \<and> i < c \<longrightarrow> \<not> P i)"
      using Suc.hyps(1) [of "Suc k"] Suc.hyps(2) by simp
    then show ?thesis using False by (auto simp: Suc_le_eq) (metis le_neq_implies_less)
  qed
qed simp

lemma ceil_sqrt_least: "m \<le> ceil_sqrt m * ceil_sqrt m \<and> (\<forall>i<ceil_sqrt m. i * i < m)"
proof -
  have "m \<in> set [0..<Suc m]" and "m \<le> m * m" by simp_all
  then have "find (\<lambda>c. m \<le> c * c) [0..<Suc m] \<noteq> None" unfolding find_None_iff by blast
  then obtain c where c: "find (\<lambda>c. m \<le> c * c) [0..<Suc m] = Some c" by blast
  then have "ceil_sqrt m = c" unfolding ceil_sqrt_def by (simp only: option.case)
  with find_upt_least [OF c] show ?thesis by (simp add: not_le)
qed

text \<open>It is the rounded-up square root.\<close>

lemma ceil_sqrt_real:
  assumes "0 \<le> q"
  shows "\<lceil>sqrt q\<rceil> = int (ceil_sqrt (nat \<lceil>q\<rceil>))"
proof (rule ceiling_unique)
  let ?m = "nat \<lceil>q\<rceil>" and ?c = "ceil_sqrt (nat \<lceil>q\<rceil>)"
  have "q \<le> real ?m" using assms by linarith
  also have "\<dots> \<le> real ?c ^ 2"
    using ceil_sqrt_least [of ?m] by (metis of_nat_le_iff of_nat_mult power2_eq_square)
  finally show "sqrt q \<le> of_int (int ?c)" using assms by (simp add: real_le_lsqrt)
  show "of_int (int ?c) - 1 < sqrt q"
  proof (cases "?c = 0")
    case True
    have "0 \<le> sqrt q" using assms by simp
    then show ?thesis unfolding True by linarith
  next
    case False
    then have "(?c - 1) * (?c - 1) < ?m" using ceil_sqrt_least [of ?m] by simp
    then have "int ((?c - 1) * (?c - 1)) < \<lceil>q\<rceil>" by linarith
    then have "real ((?c - 1) * (?c - 1)) < q" by (simp add: less_ceiling_iff)
    then have "real (?c - 1) < sqrt q" by (intro real_less_rsqrt) (simp add: power2_eq_square)
    then show ?thesis using False by (simp add: of_nat_diff)
  qed
qed

lemma grid_columns_pos: "0 < grid_columns n width height"
  by (simp add: grid_columns_def)

lemma grid_rows_enough:
  assumes "0 < columns" and "i < n"
  shows "i div columns < grid_rows n columns"
proof -
  have "(of_nat n / of_nat columns :: rat) \<le> of_nat (grid_rows n columns)"
    unfolding grid_rows_def by (rule of_nat_ceiling)
  then have "(of_nat n :: rat) \<le> of_nat (grid_rows n columns * columns)"
    using assms(1) by (simp add: field_simps)
  then have "n \<le> grid_rows n columns * columns" by (simp only: of_nat_le_iff)
  then show ?thesis using assms by (simp add: less_mult_imp_div_less)
qed

lemma cell_center_inj:
  assumes "cell_center width height columns rows i = cell_center width height columns rows j"
    and "0 < width" "0 < height" "0 < columns" "0 < rows"
  shows "i = j"
proof -
  from assms have "i mod columns = j mod columns" and "i div columns = j div columns"
    by (auto simp: cell_center_def)
  then show ?thesis by (metis div_mult_mod_eq)
qed

lemma inside:
  assumes "k < m" and "0 < (w :: rat)"
  shows "0 < (of_nat k + 1 / 2) * w / of_nat m \<and> (of_nat k + 1 / 2) * w / of_nat m < w"
proof -
  have "of_nat (k + 1) \<le> (of_nat m :: rat)" using assms(1) by (simp only: of_nat_le_iff Suc_eq_plus1 [symmetric] Suc_le_eq)
  then have a: "(of_nat k + 1 / 2 :: rat) < of_nat m" "0 < (of_nat k + 1 / 2 :: rat)" by (simp_all add: add_nonneg_pos)
  then have m: "0 < (of_nat m :: rat)" by linarith
  have "(of_nat k + 1 / 2) * w < of_nat m * w" using a(1) assms(2) by (rule mult_strict_right_mono)
  moreover have "0 < (of_nat k + 1 / 2) * w" using a(2) assms(2) by (rule mult_pos_pos)
  ultimately show ?thesis using m by (simp add: pos_divide_less_eq mult.commute [of w])
qed

lemma cell_inside:
  assumes "i < n" and "0 < columns" and "0 < width" and "0 < height"
  shows "0 < fst (cell_center width height columns (grid_rows n columns) i) \<and>
    fst (cell_center width height columns (grid_rows n columns) i) < width \<and>
    0 < snd (cell_center width height columns (grid_rows n columns) i) \<and>
    snd (cell_center width height columns (grid_rows n columns) i) < height"
  using inside [of "i mod columns" columns width] inside [OF grid_rows_enough [OF assms(2,1)], of height] assms
  by (simp add: cell_center_def)

section \<open>Components and cells\<close>

lemma placed_dom:
  "dom (map_of (concat (map (\<lambda>(i, g). map (\<lambda>m. (m, f i)) g) (enumerate k gs)))) = set (concat gs)"
  unfolding dom_map_of_conv_image_fst by (induction gs arbitrary: k) (simp_all add: image_Un image_image)

lemma placed_at:
  "distinct (concat gs) \<Longrightarrow> i < length gs \<Longrightarrow> m \<in> set (gs ! i) \<Longrightarrow>
     map_of (concat (map (\<lambda>(i, g). map (\<lambda>m. (m, f i)) g) (enumerate k gs))) m = Some (f (k + i))"
proof (induction gs arbitrary: k i)
  case (Cons g gs)
  let ?rest = "map_of (concat (map (\<lambda>(i, g). map (\<lambda>m. (m, f i)) g) (enumerate (Suc k) gs)))"
  have here: "map_of (map (\<lambda>m. (m, f k)) g) m = (if m \<in> set g then Some (f k) else None)"
    by (induction g) auto
  show ?case
  proof (cases i)
    case 0
    then have "m \<in> set g" using Cons.prems by simp
    moreover from this have "m \<notin> dom ?rest" using Cons.prems unfolding placed_dom by auto
    ultimately show ?thesis using 0 here by (simp add: map_of_append map_add_def domIff)
  next
    case (Suc j)
    then have j: "j < length gs" "m \<in> set (gs ! j)" using Cons.prems by simp_all
    then have "m \<in> set (concat gs)" using nth_mem by fastforce
    then have "m \<notin> set g" using Cons.prems by auto
    then show ?thesis using Cons.IH [of j "Suc k"] Cons.prems j Suc here by (simp add: map_of_append map_add_def)
  qed
qed simp

lemma centers_correct:
  assumes d: "distinct nodes" and sub: "set links \<subseteq> set nodes \<times> set nodes" and wh: "0 < width" "0 < height"
  obtains c where "assign_component_centers nodes links width height = Some c" and "dom c = set nodes"
    and "\<And>x y. x \<in> set nodes \<Longrightarrow> y \<in> set nodes \<Longrightarrow> c x = c y \<longleftrightarrow> (x, y) \<in> linked (set links)"
    and "\<And>p. p \<in> ran c \<Longrightarrow> 0 < fst p \<and> fst p < width \<and> 0 < snd p \<and> snd p < height"
proof (rule components_correct [OF d sub])
  fix gs
  assume gs: "components nodes links = Some gs" "distinct (concat gs)" "set (concat gs) = set nodes"
    and grp: "\<And>g x. g \<in> set gs \<Longrightarrow> x \<in> set g \<Longrightarrow> set g = {y \<in> set nodes. (x, y) \<in> linked (set links)}"
  define columns where "columns = grid_columns (length gs) width height"
  define rows where "rows = grid_rows (length gs) columns"
  define cell where "cell = cell_center width height columns rows"
  define c where "c = map_of (concat (map (\<lambda>(i, g). map (\<lambda>m. (m, cell i)) g) (enumerate 0 gs)))"
  have pos: "0 < columns" by (simp add: columns_def grid_columns_pos)
  have c: "assign_component_centers nodes links width height = Some c"
    by (simp add: assign_component_centers_def gs(1) Let_def c_def cell_def columns_def rows_def)
  have dom: "dom c = set nodes" unfolding c_def placed_dom gs(3) ..
  have at: "c m = Some (cell i)" if "i < length gs" "m \<in> set (gs ! i)" for i m
    unfolding c_def using placed_at [OF gs(2) that, of cell 0] by simp
  have group: "\<exists>i<length gs. m \<in> set (gs ! i)" if "m \<in> set nodes" for m
  proof -
    from that gs(3) obtain g where "g \<in> set gs" "m \<in> set g" by auto
    then show ?thesis by (metis in_set_conv_nth)
  qed
  have rows_pos: "0 < rows" if "i < length gs" for i
    using grid_rows_enough [OF pos that] by (simp add: rows_def)
  have "c x = c y \<longleftrightarrow> (x, y) \<in> linked (set links)" if xy: "x \<in> set nodes" "y \<in> set nodes" for x y
  proof -
    obtain i j where i: "i < length gs" "x \<in> set (gs ! i)" and j: "j < length gs" "y \<in> set (gs ! j)"
      using group xy by blast
    have x: "set (gs ! i) = {y \<in> set nodes. (x, y) \<in> linked (set links)}" using i by (intro grp) simp_all
    show ?thesis
    proof
      assume "c x = c y"
      then have "cell i = cell j" using at i j by simp
      then have "i = j" unfolding cell_def by (rule cell_center_inj [OF _ wh pos rows_pos [OF i(1)]])
      then show "(x, y) \<in> linked (set links)" using x j by blast
    next
      assume "(x, y) \<in> linked (set links)"
      then have "y \<in> set (gs ! i)" using x xy by blast
      then show "c x = c y" using at i by simp
    qed
  qed
  moreover have "0 < fst p \<and> fst p < width \<and> 0 < snd p \<and> snd p < height" if "p \<in> ran c" for p
  proof -
    from that obtain m where m: "c m = Some p" by (auto simp: ran_def)
    then have "m \<in> set nodes" using dom by blast
    then obtain i where i: "i < length gs" "m \<in> set (gs ! i)" using group by blast
    then have "p = cell i" using at m by simp
    then show ?thesis using cell_inside [OF i(1) pos wh] by (simp add: cell_def rows_def)
  qed
  ultimately show thesis using c dom by (intro that) blast+
qed

section \<open>Properties\<close>

text \<open>
  C37. For the graph of any events the union-find ends and every node is given a center inside the
  drawing area; two nodes have the same center exactly if links connect them, so the cells of the
  grid are the connected components.
\<close>

theorem component_centers:
  fixes te index es
  defines "ids \<equiv> map gn_id (fst (build_graph te index es))"
    and "ends \<equiv> map link_ends (snd (build_graph te index es))"
  assumes "0 < width" and "0 < height"
  shows "\<exists>c. assign_component_centers ids ends width height = Some c \<and> dom c = set ids \<and>
    (\<forall>x\<in>set ids. \<forall>y\<in>set ids. c x = c y \<longleftrightarrow> (x, y) \<in> linked (set ends)) \<and>
    (\<forall>p\<in>ran c. 0 < fst p \<and> fst p < width \<and> 0 < snd p \<and> snd p < height)"
proof -
  have d: "distinct ids" and sub: "set ends \<subseteq> set ids \<times> set ids"
    using build_graph_inv [of te index es] by (simp_all add: graph_inv_def node_ids_def ids_def ends_def)
  show ?thesis
  proof (rule centers_correct [OF d sub assms(3,4)])
    fix c
    assume "assign_component_centers ids ends width height = Some c" and "dom c = set ids"
      and "\<And>x y. x \<in> set ids \<Longrightarrow> y \<in> set ids \<Longrightarrow> c x = c y \<longleftrightarrow> (x, y) \<in> linked (set ends)"
      and "\<And>p. p \<in> ran c \<Longrightarrow> 0 < fst p \<and> fst p < width \<and> 0 < snd p \<and> snd p < height"
    then show ?thesis by (intro exI [of _ c]) simp
  qed
qed

theorem component_centers_witness:
  "\<exists>c. assign_component_centers (map gn_id (fst (build_graph te0 Map.empty [[js ''type'' \<mapsto> Str (js ''RO'')]])))
      (map link_ends (snd (build_graph te0 Map.empty [[js ''type'' \<mapsto> Str (js ''RO'')]]))) 320 260 = Some c"
  using component_centers [of 320 260 te0 Map.empty "[[js ''type'' \<mapsto> Str (js ''RO'')]]"] by auto

end
