(* ===== verification/VisMarkup.thy ===== *)
theory VisMarkup
  imports VisSelect
begin

text \<open>
  Text that src/src/visualization/public/app.js puts on the page: HTML escaping, the rows of the
  event table, and the shortened labels of the graph.
\<close>

section \<open>Escaping\<close>

definition esc_char :: "unit16 \<Rightarrow> jstr" where
  "esc_char c =
     (if c = 38 then js ''&amp;''
      else if c = 60 then js ''&lt;''
      else if c = 62 then js ''&gt;''
      else if c = 39 then js ''&#39;''
      else if c = 34 then js ''&quot;''
      else [c])"

definition escape_html :: "jstr \<Rightarrow> jstr" where
  "escape_html s = concat (map esc_char s)"

text \<open>What a browser makes of the entities.\<close>

fun unescape :: "jstr \<Rightarrow> jstr" where
  "unescape [] = []"
| "unescape (c # s) =
     (if c \<noteq> 38 then c # unescape s
      else if prefix (js ''amp;'') s then 38 # unescape (drop 4 s)
      else if prefix (js ''lt;'') s then 60 # unescape (drop 3 s)
      else if prefix (js ''gt;'') s then 62 # unescape (drop 3 s)
      else if prefix (js ''#39;'') s then 39 # unescape (drop 4 s)
      else if prefix (js ''quot;'') s then 34 # unescape (drop 5 s)
      else c # unescape s)"

definition markup_chars :: "unit16 set" where
  "markup_chars = {60, 62, 39, 34}"

lemma esc_char_markup: "set (esc_char c) \<inter> markup_chars = {}"
  by (auto simp: esc_char_def markup_chars_def js_literal)

lemma escape_html_markup: "set (escape_html s) \<inter> markup_chars = {}"
  using esc_char_markup by (fastforce simp: escape_html_def)

lemma unescape_esc_char: "unescape (esc_char c @ s) = c # unescape s"
  by (simp add: esc_char_def js_literal)

lemma unescape_escape: "unescape (escape_html s) = s"
  by (induction s) (simp_all add: escape_html_def unescape_esc_char)

section \<open>A row of the event table\<close>

text \<open>
  \<open>locale_time\<close> is the local time of a date text, \<open>None\<close> where \<open>new Date\<close> is invalid; \<open>color\<close> is the
  colour scale.
\<close>

definition format_time :: "text_env \<Rightarrow> (jstr \<Rightarrow> jstr option) \<Rightarrow> jsval \<Rightarrow> jstr" where
  "format_time te locale_time value =
     (if \<not> truthy value then []
      else case locale_time (to_text te value) of None \<Rightarrow> to_text te value | Some t \<Rightarrow> t)"

definition row_html :: "text_env \<Rightarrow> (jstr \<Rightarrow> jstr option) \<Rightarrow> (jsval \<Rightarrow> jstr) \<Rightarrow> event \<Rightarrow> jstr" where
  "row_html te locale_time color e =
     (let time = or_else (attr e ''time'') (attr e ''receivedAt'');
          esc = (\<lambda>v. escape_html (to_text te v));
          pid = (case attr e ''host_pid'' of Null \<Rightarrow> Str [] | Undefined \<Rightarrow> Str [] | v \<Rightarrow> v)
      in js ''<td title=\"'' @ esc (or_else time (Str [])) @ js ''\">'' @ format_time te locale_time time @ js ''</td>'' @
         js ''<td><span class=\"pill\" style=\"background:'' @ color (attr e ''type'') @ js ''\">'' @
           esc (attr e ''type'') @ js ''</span></td>'' @
         js ''<td>'' @ esc pid @ js ''</td>'' @
         js ''<td title=\"'' @ esc (or_else (attr e ''comm'') (Str [])) @ js ''\">'' @
           esc (or_else (attr e ''comm'') (Str [])) @ js ''</td>'' @
         js ''<td title=\"'' @ esc (or_else (attr e ''raw'') (Str [])) @ js ''\">'' @ esc (target_for te e) @ js ''</td>'')"

text \<open>The last 160 events, newest first.\<close>

definition table_rows :: "event list \<Rightarrow> event list" where
  "table_rows es = rev (lastn 160 es)"

text \<open>The tags that are opened or closed in a text.\<close>

definition brackets :: "jstr \<Rightarrow> nat" where
  "brackets s = count_list s 60"

lemma brackets_simps [simp]: "brackets [] = 0" "brackets (s @ t) = brackets s + brackets t"
  by (simp_all add: brackets_def)

lemma brackets_escaped [simp]: "brackets (escape_html s) = 0"
  using escape_html_markup [of s] by (auto simp: brackets_def markup_chars_def count_list_0_iff)

lemma brackets_js [simp]: "brackets (js s) = count_list s (CHR ''<'')"
proof -
  have "(of_char c :: unit16) = 60 \<longleftrightarrow> c = CHR ''<''" for c
    using of_char_eq [of c "CHR ''<''"] by simp
  then show ?thesis unfolding brackets_def by (induction s) (simp_all add: js_literal)
qed

section \<open>Shortened labels\<close>

definition last_index :: "unit16 \<Rightarrow> jstr \<Rightarrow> nat option" where
  "last_index c s =
     (if c \<in> set s then Some (length s - 1 - length (takeWhile (\<lambda>d. d \<noteq> c) (rev s))) else None)"

fun split_slash :: "jstr \<Rightarrow> jstr list" where
  "split_slash [] = [[]]"
| "split_slash (c # s) =
     (if c = 47 then [] # split_slash s
      else case split_slash s of [] \<Rightarrow> [[c]] | p # ps \<Rightarrow> (c # p) # ps)"

text \<open>The callers pass 30 and 36 as \<open>maxLength\<close>.\<close>

definition compact_path :: "jstr \<Rightarrow> nat \<Rightarrow> jstr" where
  "compact_path value maxLength =
     (if length value \<le> maxLength then value
      else
        let parts = filter (\<lambda>p. p \<noteq> []) (split_slash value) in
        if length parts > 1 then
          let parent = parts ! (length parts - 2);
              filename = last parts;
              extension = (case last_index 46 filename of
                  None \<Rightarrow> []
                | Some dot \<Rightarrow> if dot > 0 \<and> length filename - dot \<le> 10 then drop dot filename else []);
              stem = (if extension \<noteq> [] then take (length filename - length extension) filename else filename);
              pre = js ''.../'' @ parent @ js ''/'';
              stemLength = max 3 (maxLength - length pre - length extension - 1);
              compactFilename =
                (if length stem > stemLength then take stemLength stem @ js ''*'' @ extension else filename);
              compact = pre @ compactFilename
          in if length compact \<le> maxLength then compact
             else
               let parentLength = max 3 (maxLength - length compactFilename - 6)
               in js ''.../'' @ take parentLength parent @ js ''*/'' @ compactFilename
        else take (maxLength - 3) value @ js ''...'')"

definition is_terminator :: "unit16 \<Rightarrow> bool" where
  "is_terminator c \<longleftrightarrow> c \<in> {10, 13, 0x2028, 0x2029}"

text \<open>\<open>^(RO|RW)\s+(.+)$\<close>: the mode and the path, the blanks giving one character back if need be.\<close>

definition access_label :: "jstr \<Rightarrow> (jstr \<times> jstr) option" where
  "access_label s =
     (if prefix (js ''RO'') s \<or> prefix (js ''RW'') s then
        let r = drop 2 s; blanks = takeWhile is_space r; rest = dropWhile is_space r in
        if blanks = [] then None
        else if rest \<noteq> [] then
          (if list_all (\<lambda>c. \<not> is_terminator c) rest then Some (take 2 s, rest) else None)
        else if length blanks > 1 \<and> \<not> is_terminator (last blanks) then Some (take 2 s, [last blanks])
        else None
      else None)"

definition compact_label :: "jstr \<Rightarrow> jstr" where
  "compact_label label =
     (let flat = map (\<lambda>c. if c = 10 then 32 else c) label in
      case access_label flat of
        Some (mode, path) \<Rightarrow> mode @ js '' '' @ compact_path path 30
      | None \<Rightarrow> if length flat \<le> 36 then flat else compact_path flat 36)"

lemma compact_path_length: "length (compact_path value n) \<le> max n 23"
proof (cases "length value \<le> n")
  case True
  then show ?thesis by (simp add: compact_path_def)
next
  case big: False
  let ?parts = "filter (\<lambda>p. p \<noteq> []) (split_slash value)"
  show ?thesis
  proof (cases "length ?parts > 1")
    case False
    then show ?thesis using big by (simp add: compact_path_def)
  next
    case True
    define parent where "parent = ?parts ! (length ?parts - 2)"
    define name where "name = last ?parts"
    define ext where "ext = (case last_index 46 name of None \<Rightarrow> []
        | Some dot \<Rightarrow> if dot > 0 \<and> length name - dot \<le> 10 then drop dot name else [])"
    define stem where "stem = (if ext \<noteq> [] then take (length name - length ext) name else name)"
    define pre where "pre = js ''.../'' @ parent @ js ''/''"
    define k where "k = max 3 (n - length pre - length ext - 1)"
    define short where "short = (if length stem > k then take k stem @ js ''*'' @ ext else name)"
    have r: "compact_path value n =
       (if length (pre @ short) \<le> n then pre @ short
        else js ''.../'' @ take (max 3 (n - length short - 6)) parent @ js ''*/'' @ short)"
      using big True
      by (simp only: compact_path_def Let_def if_False if_True parent_def name_def ext_def stem_def pre_def k_def short_def)
    have ext10: "length ext \<le> 10" by (auto simp: ext_def split: option.split)
    have name: "length name = length stem + length ext" by (auto simp: stem_def ext_def split: option.split)
    have short: "length short \<le> k + 1 + length ext" by (simp add: short_def name)
    show ?thesis
    proof (cases "length (pre @ short) \<le> n")
      case True
      then show ?thesis by (simp add: r)
    next
      case False
      then have "k = 3" using short by (simp add: k_def)
      then have "length short \<le> 14" using short ext10 by simp
      then have "6 + max 3 (n - length short - 6) + length short \<le> max n 23" by linarith
      then show ?thesis using False by (simp add: r)
    qed
  qed
qed

section \<open>Properties\<close>

text \<open>
  The formatted time is one of the unescaped pieces: a text that is no date is inserted as it is. An
  event can have such a text as its \<open>receivedAt\<close>, because a field of the posted line overrides it.
\<close>

lemma invalid_time_unescaped:
  assumes "\<not> truthy (attr e ''time'')" and "attr e ''receivedAt'' = Str v" and "v \<noteq> []" and "locale_time v = None"
  shows "sublist v (row_html te locale_time color e)"
proof -
  have "format_time te locale_time (or_else (attr e ''time'') (attr e ''receivedAt'')) = v"
    using assms by (simp add: format_time_def or_else_def)
  moreover have here: "sublist v (v @ q)" for q by (auto simp: sublist_def)
  moreover have later: "sublist v q \<Longrightarrow> sublist v (p @ q)" for p q
    unfolding sublist_def by (metis append.assoc)
  ultimately show ?thesis
    unfolding row_html_def Let_def by (simp only:)
qed

lemma received_at_overridden:
  "event_object env line type (flds(js ''receivedAt'' \<mapsto> v)) (js ''receivedAt'') = Some (Str v)"
  by (simp add: event_object_def)

text \<open>The labels of the graph stay short.\<close>

theorem compact_label_length: "length (compact_label label) \<le> 36"
proof -
  define flat where "flat = map (\<lambda>c. if c = 10 then 32 else c) label"
  show ?thesis
  proof (cases "access_label flat")
    case None
    then have "compact_label label = (if length flat \<le> 36 then flat else compact_path flat 36)"
      by (simp add: compact_label_def flat_def)
    then show ?thesis using compact_path_length [of flat 36] by simp
  next
    case (Some m)
    obtain mode path where m: "m = (mode, path)" by (cases m)
    with Some have "length mode \<le> 2" by (auto simp: access_label_def Let_def split: if_splits)
    moreover have "compact_label label = mode @ js '' '' @ compact_path path 30"
      using Some m by (simp add: compact_label_def flat_def)
    ultimately show ?thesis using compact_path_length [of path 30] by simp
  qed
qed

text \<open>
  C33. Escaped text contains no markup character and is displayed as the original text; the only
  tags of a table row are the ten cells' and two span tags of the template, apart from what the
  colour and the formatted time contribute, which are not escaped.
\<close>

theorem table_row_markup:
  "set (escape_html s) \<inter> markup_chars = {} \<and> unescape (escape_html s) = s \<and>
   brackets (row_html te locale_time color e) =
     12 + brackets (color (attr e ''type'')) +
     brackets (format_time te locale_time (or_else (attr e ''time'') (attr e ''receivedAt'')))"
  by (simp add: row_html_def Let_def escape_html_markup unescape_escape)

end
