(* ===== verification/VisRender.thy ===== *)
theory VisRender
  imports VisDashboard VisLayout VisMarkup VisFields
begin

text \<open>
  What one call of \<open>render\<close> in src/src/visualization/public/app.js puts on the page, with the derived
  data it keeps between calls: the process identities and the list of event types, both rebuilt
  only when \<open>eventsRevision\<close> has changed.
\<close>

section \<open>The parts of the page\<close>

text \<open>\<open>renderStats\<close>: the three counted types, in an object.\<close>

definition stats_step :: "(jstr \<rightharpoonup> nat) \<Rightarrow> event \<Rightarrow> (jstr \<rightharpoonup> nat)" where
  "stats_step counts e = (case attr e ''type'' of
     Str t \<Rightarrow> (case counts t of None \<Rightarrow> counts | Some n \<Rightarrow> counts(t \<mapsto> n + 1))
   | _ \<Rightarrow> counts)"

definition render_stats :: "event list \<Rightarrow> nat \<times> nat \<times> nat \<times> nat" where
  "render_stats es =
     (let counts = foldl stats_step [js ''EXEC'' \<mapsto> 0, js ''RO'' \<mapsto> 0, js ''CONNECT'' \<mapsto> 0] es
      in (length es, the (counts (js ''EXEC'')), the (counts (js ''RO'')), the (counts (js ''CONNECT''))))"

text \<open>
  \<open>renderCommands\<close>: \<open>d3.rollups\<close> by command, groups in the order of their first event, sorted by
  falling count (stably), the first ten.
\<close>

definition command_of :: "event \<Rightarrow> jsval" where
  "command_of e = or_else (attr e ''comm'') (Str (js ''unknown''))"

definition rollups :: "'k list \<Rightarrow> ('k \<times> nat) list" where
  "rollups ks = map (\<lambda>k. (k, count_list ks k)) (js_set ks)"

definition command_rows :: "event list \<Rightarrow> (jsval \<times> nat) list" where
  "command_rows es = take 10 (rev (sort_key snd (rev (rollups (map command_of es)))))"

text \<open>\<open>nodeTooltip\<close>.\<close>

fun join_html :: "jstr \<Rightarrow> jstr list \<Rightarrow> jstr" where
  "join_html sep [] = []"
| "join_html sep [s] = s"
| "join_html sep (s # ss) = s @ sep @ join_html sep ss"

definition node_tooltip :: "text_env \<Rightarrow> gnode \<Rightarrow> jstr" where
  "node_tooltip te n =
     (let kind = (if gn_kind n = js ''parent'' then js ''process'' else gn_kind n);
          role = (if gn_root n then kind @ js '', root command (no observed parent)'' else kind)
      in js ''<strong>'' @ escape_html (gn_label n) @ js ''</strong><br>'' @ escape_html role @ js '' - '' @
         js (show_nat (gn_count n)) @ js '' events<br>'' @
         join_html (js ''<br>'') (map (\<lambda>v. escape_html (to_text te v)) (gn_samples n)))"

section \<open>Derived data\<close>

record page_cache =
  pc_identity_revision :: int
  pc_identities :: "jsval \<rightharpoonup> identity"
  pc_type_revision :: int
  pc_types :: "jstr list"
  pc_type :: jstr

text \<open>\<open>pc_type\<close> is what the type filter of the page is set to.\<close>

definition initial_cache :: page_cache where
  "initial_cache = \<lparr>pc_identity_revision = -1, pc_identities = Map.empty, pc_type_revision = -1,
     pc_types = [js ''all''], pc_type = js ''all''\<rparr>"

definition get_process_identity_index ::
  "text_env \<Rightarrow> dash \<Rightarrow> page_cache \<Rightarrow> (jsval \<rightharpoonup> identity) \<times> page_cache" where
  "get_process_identity_index te d c =
     (let c = (if pc_identity_revision c \<noteq> int (d_revision d)
               then c\<lparr>pc_identities := build_process_identity_index te (d_events d),
                      pc_identity_revision := int (d_revision d)\<rparr>
               else c)
      in (pc_identities c, c))"

definition available_types :: "text_env \<Rightarrow> event list \<Rightarrow> jstr list" where
  "available_types te es =
     js ''all'' # js_set (sort (map (to_text te) (filter truthy (map (\<lambda>e. attr e ''type'') es))))"

definition update_type_filter :: "text_env \<Rightarrow> dash \<Rightarrow> page_cache \<Rightarrow> page_cache" where
  "update_type_filter te d c =
     (let current = pc_type c;
          c = (if pc_type_revision c \<noteq> int (d_revision d)
               then c\<lparr>pc_types := available_types te (d_events d), pc_type_revision := int (d_revision d)\<rparr>
               else c)
      in c\<lparr>pc_type := if current \<in> set (pc_types c) then current else js ''all''\<rparr>)"

section \<open>Rendering\<close>

record rendered =
  rd_visible :: "event list"
  rd_type :: jstr
  rd_stats :: "nat \<times> nat \<times> nat \<times> nat"
  rd_graph :: "gnode list \<times> glink list"
  rd_commands :: "(jsval \<times> nat) list"
  rd_table :: "event list"

text \<open>
  \<open>filteredEvents\<close>, with its early return for few events; \<open>f\<close> holds the other inputs of the page.
\<close>

definition visible_events :: "text_env \<Rightarrow> filters \<Rightarrow> dash \<Rightarrow> page_cache \<Rightarrow> event list \<times> page_cache" where
  "visible_events te f d c =
     (if length (d_events d) \<le> fi_limit f then (filter (passes te f) (d_events d), c)
      else
        let (index, c) = get_process_identity_index te d c
        in (filter (passes te f) (diverse_events (event_relationship_key te index) (fi_limit f) (d_events d)), c))"

definition render :: "text_env \<Rightarrow> filters \<Rightarrow> dash \<Rightarrow> page_cache \<Rightarrow> rendered \<times> page_cache" where
  "render te f d c =
     (let c = update_type_filter te d c;
          (visible, c) = visible_events te (f\<lparr>fi_type := pc_type c\<rparr>) d c;
          (index, c) = get_process_identity_index te d c
      in (\<lparr>rd_visible = visible, rd_type = pc_type c, rd_stats = render_stats visible,
           rd_graph = build_graph te index visible, rd_commands = command_rows visible,
           rd_table = table_rows visible\<rparr>, c))"

text \<open>What should be seen: the same, computed from the current events alone.\<close>

definition page_of :: "text_env \<Rightarrow> filters \<Rightarrow> jstr \<Rightarrow> event list \<Rightarrow> rendered" where
  "page_of te f current es =
     (let type = (if current \<in> set (available_types te es) then current else js ''all'');
          visible = filtered_events te (f\<lparr>fi_type := type\<rparr>) es
      in \<lparr>rd_visible = visible, rd_type = type, rd_stats = render_stats visible,
          rd_graph = build_graph te (build_process_identity_index te es) visible,
          rd_commands = command_rows visible, rd_table = table_rows visible\<rparr>)"

section \<open>Fresh derived data\<close>

definition cache_fresh :: "text_env \<Rightarrow> dash \<Rightarrow> page_cache \<Rightarrow> bool" where
  "cache_fresh te d c \<longleftrightarrow>
     pc_identity_revision c \<le> int (d_revision d) \<and> pc_type_revision c \<le> int (d_revision d) \<and>
     (pc_identity_revision c = int (d_revision d) \<longrightarrow> pc_identities c = build_process_identity_index te (d_events d)) \<and>
     (pc_type_revision c = int (d_revision d) \<longrightarrow> pc_types c = available_types te (d_events d))"

lemma initial_fresh: "cache_fresh te d initial_cache"
  by (simp add: cache_fresh_def initial_cache_def)

lemma index_fresh:
  "cache_fresh te d c \<Longrightarrow> fst (get_process_identity_index te d c) = build_process_identity_index te (d_events d)"
  "cache_fresh te d c \<Longrightarrow> cache_fresh te d (snd (get_process_identity_index te d c))"
  "pc_type (snd (get_process_identity_index te d c)) = pc_type c"
  by (auto simp: cache_fresh_def get_process_identity_index_def Let_def)

lemma types_fresh:
  "cache_fresh te d c \<Longrightarrow> cache_fresh te d (update_type_filter te d c)"
  "cache_fresh te d c \<Longrightarrow> pc_type (update_type_filter te d c) =
     (if pc_type c \<in> set (available_types te (d_events d)) then pc_type c else js ''all'')"
  by (auto simp: cache_fresh_def update_type_filter_def Let_def)

lemma visible_fresh:
  assumes "cache_fresh te d c"
  shows "fst (visible_events te f d c) = filtered_events te f (d_events d)"
    and "cache_fresh te d (snd (visible_events te f d c))"
    and "pc_type (snd (visible_events te f d c)) = pc_type c"
  using assms index_fresh [of te d c]
  by (auto simp: visible_events_def filtered_events_def diverse_events_def split: prod.split)

lemma render_fresh:
  assumes "cache_fresh te d c"
  shows "fst (render te f d c) = page_of te f (pc_type c) (d_events d)"
    and "cache_fresh te d (snd (render te f d c))"
    and "pc_type (snd (render te f d c)) = rd_type (page_of te f (pc_type c) (d_events d))"
proof -
  let ?c = "update_type_filter te d c"
  let ?f = "f\<lparr>fi_type := pc_type ?c\<rparr>"
  let ?v = "visible_events te ?f d ?c"
  note t = types_fresh [OF assms]
  note v = visible_fresh [OF t(1), of ?f]
  note i = index_fresh(1,2) [OF v(2)] index_fresh(3) [of te d "snd ?v"]
  have r: "render te f d c = (\<lparr>rd_visible = fst ?v, rd_type = pc_type ?c, rd_stats = render_stats (fst ?v),
      rd_graph = build_graph te (build_process_identity_index te (d_events d)) (fst ?v),
      rd_commands = command_rows (fst ?v), rd_table = table_rows (fst ?v)\<rparr>,
      snd (get_process_identity_index te d (snd ?v)))"
    unfolding render_def Let_def case_prod_beta i(1) i(3) v(3) by simp
  show "fst (render te f d c) = page_of te f (pc_type c) (d_events d)"
    unfolding r unfolding v(1) unfolding t(2) by (simp add: page_of_def Let_def)
  show "cache_fresh te d (snd (render te f d c))" unfolding r using i(2) by simp
  show "pc_type (snd (render te f d c)) = rd_type (page_of te f (pc_type c) (d_events d))"
    unfolding r using i(3) v(3) t(2) by (simp add: page_of_def Let_def)
qed

section \<open>A page\<close>

text \<open>
  A dashboard with its derived data. \<open>Draw\<close> is a call of \<open>render\<close> (which the handlers request for the
  next frame), \<open>Choose\<close> a choice in the type filter.
\<close>

record page =
  pg_vis :: vis
  pg_cache :: page_cache

datatype page_op = Do vis_op | Draw filters | Choose jstr

definition page_do :: "text_env \<Rightarrow> int option \<Rightarrow> page_op \<Rightarrow> page \<Rightarrow> page" where
  "page_do te limit op p = (case op of
     Do o' \<Rightarrow> p\<lparr>pg_vis := vis_do limit o' (pg_vis p)\<rparr>
   | Draw f \<Rightarrow> p\<lparr>pg_cache := snd (render te f (v_dash (pg_vis p)) (pg_cache p))\<rparr>
   | Choose t \<Rightarrow> (if t \<in> set (pc_types (pg_cache p)) then p\<lparr>pg_cache := (pg_cache p)\<lparr>pc_type := t\<rparr>\<rparr> else p))"

fun page_run :: "text_env \<Rightarrow> int option \<Rightarrow> page_op list \<Rightarrow> page \<Rightarrow> page" where
  "page_run te limit [] p = p"
| "page_run te limit (op # ops) p = page_run te limit ops (page_do te limit op p)"

text \<open>No other client is given the page's stream number.\<close>

fun own_stream :: "page_op \<Rightarrow> page \<Rightarrow> bool" where
  "own_stream (Do (Serve (Stream c))) p \<longleftrightarrow> c \<noteq> v_client (pg_vis p)"
| "own_stream (Do (Serve (Close c))) p \<longleftrightarrow> c \<noteq> v_client (pg_vis p)"
| "own_stream _ p \<longleftrightarrow> True"

fun own_streams :: "text_env \<Rightarrow> int option \<Rightarrow> page_op list \<Rightarrow> page \<Rightarrow> bool" where
  "own_streams te limit [] p \<longleftrightarrow> True"
| "own_streams te limit (op # ops) p \<longleftrightarrow> own_stream op p \<and> own_streams te limit ops (page_do te limit op p)"

definition new_page :: "nat \<Rightarrow> server \<Rightarrow> page" where
  "new_page c s = \<lparr>pg_vis = open_page c s, pg_cache = initial_cache\<rparr>"

section \<open>Changes of the events are noticed\<close>

definition noticed :: "dash \<Rightarrow> dash \<Rightarrow> bool" where
  "noticed d d' \<longleftrightarrow> d_revision d < d_revision d' \<or> d_revision d' = d_revision d \<and> d_events d' = d_events d"

lemma noticed_refl [simp]: "noticed d d"
  by (simp add: noticed_def)

lemma fresh_noticed: "cache_fresh te d c \<Longrightarrow> noticed d d' \<Longrightarrow> cache_fresh te d' c"
  by (auto simp: cache_fresh_def noticed_def)

text \<open>
  \<open>trimEvents\<close> may shorten the events of a paused page without a new revision, but only where they
  exceed 5000, which is so only until the first frame, a snapshot, has come in.
\<close>

definition trimmed :: "vis \<Rightarrow> bool" where
  "trimmed v \<longleftrightarrow> length (d_events (v_dash v)) \<le> 5000 \<or> (\<exists>es fs. v_pending v = Snapshot es # fs)"

lemma receive_noticed:
  "length (d_events d) \<le> 5000 \<or> (\<exists>es. f = Snapshot es) \<Longrightarrow>
     noticed d (receive f d) \<and> length (d_events (receive f d)) \<le> 5000"
  by (cases f) (auto simp: dash_defs noticed_def)

lemma toggle_noticed:
  "noticed d (toggle_pause d) \<and> (length (d_events d) \<le> 5000 \<longrightarrow> length (d_events (toggle_pause d)) \<le> 5000)"
  by (auto simp: dash_defs noticed_def)

lemma serve_pending:
  assumes "calm_op (Serve r) v"
  shows "\<exists>fs. v_pending (vis_do limit (Serve r) v) = v_pending v @ fs \<or> v_pending v = []"
proof (cases "sv_clients (v_server v) (v_client v)")
  case (Some gs)
  from assms obtain fs where
    "sv_clients (fst (serve limit r (v_server v))) (v_client v) = map_option (\<lambda>gs. gs @ fs) (sv_clients (v_server v) (v_client v))"
    by (rule serve_stream)
  then show ?thesis using Some by (cases "v_seen v < length gs") (auto simp: vis_do_def v_pending_def)
qed (simp add: v_pending_def)

lemma vis_do_noticed:
  assumes t: "trimmed v" and own: "\<And>r. op = Serve r \<Longrightarrow> calm_op op v"
  shows "noticed (v_dash v) (v_dash (vis_do limit op v)) \<and> trimmed (vis_do limit op v)"
proof (cases op)
  case (Serve r)
  have "v_dash (vis_do limit op v) = v_dash v" by (simp add: Serve vis_do_def)
  then show ?thesis
    using t serve_pending [of r v limit] own Serve by (auto simp: trimmed_def)
next
  case Deliver
  show ?thesis
  proof (cases "v_pending v")
    case Nil
    then have "vis_do limit op v = v" by (simp add: Deliver vis_do_def)
    then show ?thesis using t by simp
  next
    case (Cons f fs)
    then have "v_dash (vis_do limit op v) = receive f (v_dash v)" by (simp add: Deliver vis_do_def)
    moreover have "length (d_events (v_dash v)) \<le> 5000 \<or> (\<exists>es. f = Snapshot es)"
      using t Cons by (auto simp: trimmed_def)
    ultimately show ?thesis using receive_noticed [of "v_dash v" f] by (simp add: trimmed_def)
  qed
next
  case Toggle
  have "v_dash (vis_do limit op v) = toggle_pause (v_dash v)" and "v_pending (vis_do limit op v) = v_pending v"
    by (simp_all add: Toggle vis_do_def v_pending_def split: option.split)
  then show ?thesis using t toggle_noticed [of "v_dash v"] by (auto simp: trimmed_def)
next
  case (Reconnect c)
  have "v_dash (vis_do limit op v) = v_dash v" by (simp add: Reconnect vis_do_def)
  moreover have "\<exists>es. v_pending (vis_do limit op v) = [Snapshot es]"
    by (simp add: Reconnect vis_do_def v_pending_def open_stream_def)
  ultimately show ?thesis by (auto simp: trimmed_def)
qed

definition page_inv :: "text_env \<Rightarrow> page \<Rightarrow> bool" where
  "page_inv te p \<longleftrightarrow> trimmed (pg_vis p) \<and> cache_fresh te (v_dash (pg_vis p)) (pg_cache p)"

lemma page_do_inv:
  assumes p: "page_inv te p" and own: "own_stream op p"
  shows "page_inv te (page_do te limit op p)"
proof (cases op)
  case (Do o')
  have "calm_op o' (pg_vis p)" if "o' = Serve r" for r
    using own that Do by (cases r) simp_all
  then have "noticed (v_dash (pg_vis p)) (v_dash (vis_do limit o' (pg_vis p))) \<and> trimmed (vis_do limit o' (pg_vis p))"
    using p by (intro vis_do_noticed) (auto simp: page_inv_def)
  then show ?thesis using p by (simp add: page_inv_def page_do_def Do) (blast intro: fresh_noticed)
next
  case (Draw f)
  then show ?thesis using p render_fresh(2) by (simp add: page_inv_def page_do_def)
next
  case (Choose t)
  then show ?thesis using p by (simp add: page_inv_def page_do_def cache_fresh_def)
qed

lemma page_run_inv: "page_inv te p \<Longrightarrow> own_streams te limit ops p \<Longrightarrow> page_inv te (page_run te limit ops p)"
  by (induction te limit ops p rule: page_run.induct) (simp_all add: page_do_inv)

lemma new_page_inv: "page_inv te (new_page c s)"
  by (simp add: page_inv_def new_page_def initial_fresh trimmed_def v_pending_def open_page_def open_stream_def)

section \<open>Counts\<close>

lemma stats_foldl:
  "t \<in> dom counts \<Longrightarrow> foldl stats_step counts es t =
     Some (the (counts t) + length (filter (\<lambda>e. attr e ''type'' = Str t) es))"
proof (induction es arbitrary: counts)
  case (Cons e es)
  have "stats_step counts e t = Some (the (counts t) + (if attr e ''type'' = Str t then 1 else 0))"
    using Cons.prems by (auto simp: stats_step_def split: jsval.split option.split)
  moreover from this have "t \<in> dom (stats_step counts e)" by blast
  ultimately show ?case using Cons.IH [of "stats_step counts e"] by simp
qed auto

lemma render_stats_counts:
  "render_stats es = (length es, length (filter (\<lambda>e. attr e ''type'' = Str (js ''EXEC'')) es),
     length (filter (\<lambda>e. attr e ''type'' = Str (js ''RO'')) es),
     length (filter (\<lambda>e. attr e ''type'' = Str (js ''CONNECT'')) es))"
  by (simp add: render_stats_def Let_def stats_foldl)

definition sorted_rollups :: "'k list \<Rightarrow> ('k \<times> nat) list" where
  "sorted_rollups ks = rev (sort_key snd (rev (rollups ks)))"

lemma sorted_rollups_set: "set (sorted_rollups ks) = (\<lambda>k. (k, count_list ks k)) ` set ks"
  by (simp add: sorted_rollups_def rollups_def)

lemma sorted_rollups_distinct: "distinct (map fst (sorted_rollups ks))"
proof -
  have "mset (map fst (sorted_rollups ks)) = mset (map fst (rollups ks))" by (simp add: sorted_rollups_def)
  moreover have "map fst (rollups ks) = js_set ks" by (simp add: rollups_def comp_def)
  ultimately show ?thesis by (metis js_set_simps(2) mset_eq_imp_distinct_iff)
qed

lemma sorted_rollups_sorted: "sorted_wrt (\<lambda>a b. snd b \<le> snd a) (sorted_rollups ks)"
  using sorted_sort_key [of snd "rev (rollups ks)"] by (simp add: sorted_rollups_def sorted_wrt_rev sorted_map)

text \<open>The most frequent commands: every other command is at most as frequent as those shown.\<close>

definition top_rows :: "'k list \<Rightarrow> nat \<Rightarrow> ('k \<times> nat) list \<Rightarrow> bool" where
  "top_rows ks n rows \<longleftrightarrow> distinct (map fst rows) \<and> length rows = min n (card (set ks)) \<and>
     sorted_wrt (\<lambda>a b. snd b \<le> snd a) rows \<and>
     (\<forall>r\<in>set rows. fst r \<in> set ks \<and> snd r = count_list ks (fst r)) \<and>
     (\<forall>k\<in>set ks - fst ` set rows. \<forall>r\<in>set rows. count_list ks k \<le> snd r)"

lemma top_rows_take: "top_rows ks n (take n (sorted_rollups ks))"
proof -
  let ?all = "sorted_rollups ks"
  have parts: "?all = take n ?all @ drop n ?all" by simp
  have len: "length ?all = card (set ks)"
    using distinct_card [OF sorted_rollups_distinct [of ks]] by (simp add: sorted_rollups_set image_image)
  have "count_list ks k \<le> snd r" if k: "k \<in> set ks" "k \<notin> fst ` set (take n ?all)" and r: "r \<in> set (take n ?all)" for k r
  proof -
    have "(k, count_list ks k) \<in> set ?all" using k by (simp add: sorted_rollups_set)
    then have "(k, count_list ks k) \<in> set (drop n ?all)"
      using k(2) by (metis Un_iff append_take_drop_id fst_conv image_eqI set_append)
    moreover have "\<forall>a\<in>set (take n ?all). \<forall>b\<in>set (drop n ?all). snd b \<le> snd a"
      using sorted_rollups_sorted [of ks] parts by (metis sorted_wrt_append)
    ultimately show ?thesis using r by force
  qed
  moreover have "distinct (map fst (take n ?all))" using sorted_rollups_distinct [of ks] by (simp add: take_map [symmetric])
  moreover have "sorted_wrt (\<lambda>a b. snd b \<le> snd a) (take n ?all)"
    using sorted_rollups_sorted [of ks] by (rule sorted_wrt_take)
  moreover have "\<forall>r\<in>set (take n ?all). fst r \<in> set ks \<and> snd r = count_list ks (fst r)"
    using set_take_subset [of n ?all] by (auto simp: sorted_rollups_set)
  ultimately show ?thesis by (simp add: top_rows_def len min.commute)
qed

lemma command_rows_top: "top_rows (map command_of es) 10 (command_rows es)"
  using top_rows_take [of "map command_of es" 10] by (simp add: command_rows_def sorted_rollups_def)

section \<open>Tooltips\<close>

lemma brackets_join [simp]:
  "brackets (join_html sep ss) = sum_list (map brackets ss) + (length ss - 1) * brackets sep"
  by (induction sep ss rule: join_html.induct) simp_all

lemma tooltip_tags: "brackets (node_tooltip te n) = 4 + (length (gn_samples n) - 1)"
proof -
  have "CHR ''<'' \<notin> set (show_nat (gn_count n))" using show_nat_digits [of "CHR ''<''" "gn_count n"] by auto
  then show ?thesis by (simp add: node_tooltip_def Let_def comp_def sum_list_triv)
qed

section \<open>Properties\<close>

text \<open>
  Whatever frames, pauses, reconnects, filter choices and earlier renderings a page has gone
  through, rendering it shows exactly what follows from its current events: the cached process
  identities and event types are never stale. The counters are the numbers of visible events by
  type, and the command chart holds the ten most frequent commands with their counts.
\<close>

theorem page_shows_current_events:
  assumes "own_streams te limit ops (new_page c s)" and "p = page_run te limit ops (new_page c s)"
    and "r = fst (render te f (v_dash (pg_vis p)) (pg_cache p))"
  shows "r = page_of te f (pc_type (pg_cache p)) (d_events (v_dash (pg_vis p))) \<and>
    rd_stats r = (length (rd_visible r), length (filter (\<lambda>e. attr e ''type'' = Str (js ''EXEC'')) (rd_visible r)),
      length (filter (\<lambda>e. attr e ''type'' = Str (js ''RO'')) (rd_visible r)),
      length (filter (\<lambda>e. attr e ''type'' = Str (js ''CONNECT'')) (rd_visible r))) \<and>
    top_rows (map command_of (rd_visible r)) 10 (rd_commands r)"
proof -
  have "page_inv te p" unfolding assms(2) using new_page_inv assms(1) by (rule page_run_inv)
  then have "r = page_of te f (pc_type (pg_cache p)) (d_events (v_dash (pg_vis p)))"
    using render_fresh(1) by (simp add: page_inv_def assms(3))
  then show ?thesis by (simp add: page_of_def Let_def render_stats_counts command_rows_top)
qed

theorem page_shows_current_events_witness:
  "rd_stats (fst (render te0 \<lparr>fi_limit = 500, fi_type = [], fi_command = [], fi_text = []\<rparr>
     (v_dash (pg_vis (new_page 0 new_server))) (pg_cache (new_page 0 new_server)))) = (0, 0, 0, 0)"
proof -
  let ?f = "\<lparr>fi_limit = 500, fi_type = [], fi_command = [], fi_text = []\<rparr>"
  have "own_streams te0 None [] (new_page 0 new_server)" by simp
  from page_shows_current_events [OF this refl refl, of ?f]
  have "fst (render te0 ?f (v_dash (pg_vis (new_page 0 new_server))) (pg_cache (new_page 0 new_server))) =
      page_of te0 ?f (pc_type (pg_cache (new_page 0 new_server))) []"
    by (simp add: new_page_def open_page_def load_snapshot_def get_events_def new_server_def)
  then show ?thesis
    by (simp add: page_of_def Let_def filtered_events_def diverse_events_def render_stats_counts)
qed

end
