(* ===== verification/JsJson.thy ===== *)
theory JsJson
  imports JsText
begin

text \<open>
  \<open>JSON.stringify\<close> on the values src/src/visualization/public/app.js gives it in \<open>renderGraph\<close>:
  strings, booleans, \<open>null\<close> and arrays of them. The text determines the value, which is shown by
  reading it back.
\<close>

section \<open>Strings\<close>

definition is_high :: "unit16 \<Rightarrow> bool" where "is_high c \<longleftrightarrow> 0xD800 \<le> c \<and> c \<le> 0xDBFF"
definition is_low :: "unit16 \<Rightarrow> bool" where "is_low c \<longleftrightarrow> 0xDC00 \<le> c \<and> c \<le> 0xDFFF"

definition hex_unit :: "nat \<Rightarrow> unit16" where
  "hex_unit n = (if n < 10 then of_nat (48 + n) else of_nat (87 + n))"

definition hex4 :: "unit16 \<Rightarrow> jstr" where
  "hex4 c = map hex_unit [unat c div 4096, unat c div 256 mod 16, unat c div 16 mod 16, unat c mod 16]"

text \<open>The characters with a short escape, and the letter that stands for each.\<close>

definition short_escapes :: "(unit16 \<times> unit16) list" where
  "short_escapes = [(34, 34), (92, 92), (8, 98), (9, 116), (10, 110), (12, 102), (13, 114)]"

definition json_unit :: "unit16 \<Rightarrow> jstr" where
  "json_unit c = (case map_of short_escapes c of
     Some d \<Rightarrow> [92, d]
   | None \<Rightarrow> if c < 32 \<or> is_high c \<or> is_low c then 92 # 117 # hex4 c else [c])"

text \<open>Surrogates that form a pair stay, any other is escaped.\<close>

fun json_units :: "jstr \<Rightarrow> jstr" where
  "json_units [] = []"
| "json_units (c # s) =
     (if is_high c \<and> s \<noteq> [] \<and> is_low (hd s) then c # hd s # json_units (tl s)
      else json_unit c @ json_units s)"

definition json_string :: "jstr \<Rightarrow> jstr" where
  "json_string s = 34 # json_units s @ [34]"

section \<open>Reading strings back\<close>

definition unhex :: "unit16 \<Rightarrow> nat" where
  "unhex d = (if d < 58 then unat d - 48 else unat d - 87)"

fun unhex4 :: "jstr \<Rightarrow> unit16" where
  "unhex4 (a # b # c # d # s) = of_nat (((unhex a * 16 + unhex b) * 16 + unhex c) * 16 + unhex d)"
| "unhex4 _ = 0"

definition take_unit :: "jstr \<Rightarrow> unit16 \<times> jstr" where
  "take_unit t =
     (if hd t \<noteq> 92 then (hd t, tl t)
      else if hd (tl t) = 117 then (unhex4 (drop 2 t), drop 6 t)
      else (the (map_of (map prod.swap short_escapes) (hd (tl t))), drop 2 t))"

lemma unhex_unit: "n < 16 \<Longrightarrow> unhex (hex_unit n) = n"
proof -
  assume "n < 16"
  then have "n \<in> set [0..<16]" by simp
  moreover have "\<forall>n\<in>set [0..<16]. unhex (hex_unit n) = n" by (simp add: unhex_def hex_unit_def upt_rec)
  ultimately show ?thesis by blast
qed

lemma unhex4_hex4 [simp]: "unhex4 (hex4 c @ s) = c"
proof -
  have c: "unat c < 65536" using unsigned_less [of c] by simp
  then have d: "unat c div 4096 < 16" by (simp add: less_mult_imp_div_less)
  have "((n div 4096 * 16 + n div 256 mod 16) * 16 + n div 16 mod 16) * 16 + n mod 16 = n" for n :: nat
  proof -
    have "n div 256 = n div 16 div 16" "n div 4096 = n div 16 div 16 div 16" by (simp_all add: div_mult2_eq [symmetric])
    then show ?thesis by (simp add: div_mult_mod_eq)
  qed
  then show ?thesis using d by (simp add: hex4_def unhex_unit)
qed

lemma length_hex4 [simp]: "length (hex4 c) = 4"
  by (simp add: hex4_def)

lemma take_json_unit: "take_unit (json_unit c @ s) = (c, s)"
proof (cases "map_of short_escapes c")
  case None
  then have "c \<noteq> 92" by (auto simp: short_escapes_def)
  then show ?thesis using None by (auto simp: json_unit_def take_unit_def)
next
  case (Some d)
  then show ?thesis by (auto simp: json_unit_def take_unit_def short_escapes_def split: if_splits)
qed

lemma json_unit_head: "json_unit c \<noteq> [] \<and> hd (json_unit c) \<noteq> 34"
  by (auto simp: json_unit_def short_escapes_def split: option.split)

fun read_units :: "nat \<Rightarrow> jstr \<Rightarrow> jstr \<times> jstr" where
  "read_units 0 t = ([], t)"
| "read_units (Suc n) t =
     (if hd t = 34 then ([], tl t)
      else let (c, t) = take_unit t; (s, t) = read_units n t in (c # s, t))"

lemma take_surrogate: "is_high c \<or> is_low c \<Longrightarrow> take_unit (c # s) = (c, s) \<and> c \<noteq> 34"
  by (auto simp: take_unit_def is_high_def is_low_def)

lemma read_json_units: "length s < n \<Longrightarrow> read_units n (json_units s @ 34 # r) = (s, r)"
proof (induction s arbitrary: n rule: json_units.induct)
  case 1
  then show ?case by (cases n) simp_all
next
  case (2 c s)
  obtain m where n: "n = Suc m" and m: "length s < m" using "2.prems" by (cases n) auto
  show ?case
  proof (cases "is_high c \<and> s \<noteq> [] \<and> is_low (hd s)")
    case True
    then obtain d s' where s: "s = d # s'" by (cases s) auto
    obtain k where k: "m = Suc k" "length s' < k" using m s by (cases m) auto
    have "read_units k (json_units s' @ 34 # r) = (s', r)" using "2.IH"(1) True k s by simp
    then show ?thesis using True take_surrogate [of c] take_surrogate [of d] by (simp add: n k s)
  next
    case False
    have "read_units m (json_units s @ 34 # r) = (s, r)" using "2.IH"(2) False m by simp
    then show ?thesis using False json_unit_head [of c] by (auto simp: n take_json_unit)
  qed
qed

lemma json_string_cancel: "json_string s @ r = json_string t @ q \<longleftrightarrow> s = t \<and> r = q"
proof
  assume e: "json_string s @ r = json_string t @ q"
  let ?n = "Suc (length s + length t)"
  have "read_units ?n (json_units s @ 34 # r) = (s, r)" by (rule read_json_units) simp
  moreover have "read_units ?n (json_units t @ 34 # q) = (t, q)" by (rule read_json_units) simp
  moreover have "json_units s @ 34 # r = json_units t @ 34 # q" using e by (simp add: json_string_def)
  ultimately show "s = t \<and> r = q" by simp
qed simp

section \<open>Arrays\<close>

text \<open>An array of texts.\<close>

fun json_elements :: "jstr list \<Rightarrow> jstr" where
  "json_elements [] = []"
| "json_elements [x] = x"
| "json_elements (x # xs) = x @ 44 # json_elements xs"

definition json_array :: "jstr list \<Rightarrow> jstr" where
  "json_array xs = 91 # json_elements xs @ [93]"

definition json_bool :: "bool \<Rightarrow> jstr" where
  "json_bool b = (if b then js ''true'' else js ''false'')"

lemma json_bool_cancel: "json_bool a @ r = json_bool b @ q \<longleftrightarrow> a = b \<and> r = q"
  by (auto simp: json_bool_def js_literal)

text \<open>
  A writer whose texts can be told apart from what follows them, and none of which looks like the
  end of an array.
\<close>

definition delimited :: "('a \<Rightarrow> jstr) \<Rightarrow> bool" where
  "delimited f \<longleftrightarrow> (\<forall>x y r q. f x @ r = f y @ q \<longleftrightarrow> x = y \<and> r = q) \<and> (\<forall>x. f x \<noteq> [] \<and> hd (f x) \<noteq> 93)"

lemma delimited_cancel: "delimited f \<Longrightarrow> f x @ r = f y @ q \<longleftrightarrow> x = y \<and> r = q"
  by (simp add: delimited_def)


lemma json_elements_cancel:
  assumes f: "delimited f"
  shows "json_elements (map f xs) @ 93 # r = json_elements (map f ys) @ 93 # q \<longleftrightarrow> xs = ys \<and> r = q"
proof (induction xs arbitrary: ys)
  case Nil
  show ?case
  proof (cases ys)
    case (Cons y ys')
    have "hd (json_elements (map f ys)) = hd (f y)" "json_elements (map f ys) \<noteq> []"
      using f Cons by (cases ys'; simp add: delimited_def)+
    then show ?thesis using f Cons by (auto simp: delimited_def) (metis hd_append2 list.sel(1))
  qed simp
next
  case (Cons x xs)
  have head: "json_elements (map f (z # zs)) @ 93 # p =
      f z @ (if zs = [] then 93 # p else 44 # json_elements (map f zs) @ 93 # p)" for z zs p
    by (cases zs) simp_all
  show ?case
  proof (cases ys)
    case Nil
    have "hd (f x) \<noteq> 93" "f x \<noteq> []" using f by (simp_all add: delimited_def)
    then have "f x @ p \<noteq> 93 # q" for p by (metis hd_append2 list.sel(1))
    then show ?thesis using head [of x xs r] by (simp add: Nil)
  next
    case (Cons y ys')
    then show ?thesis using Cons.IH [of ys'] by (auto simp: head delimited_cancel [OF f] simp del: list.map)
  qed
qed

lemma json_array_cancel:
  "delimited f \<Longrightarrow> json_array (map f xs) @ r = json_array (map f ys) @ q \<longleftrightarrow> xs = ys \<and> r = q"
  using json_elements_cancel [of f xs r ys q] by (simp add: json_array_def)

lemma json_array_eq: "delimited f \<Longrightarrow> json_array (map f xs) = json_array (map f ys) \<longleftrightarrow> xs = ys"
  using json_array_cancel [of f xs "[]" ys "[]"] by simp

end
