(* ===== verification/VisDraw.thy ===== *)
theory VisDraw
  imports VisRender JsJson "HOL-Library.Multiset"
begin

text \<open>
  What \<open>renderGraph\<close> in src/src/visualization/public/app.js keeps between frames: the elements it has
  drawn, with the nodes bound to them; a signature of the drawn topology, under which a frame only
  refreshes the counters and samples of the nodes; the positions by node; the running simulation.
  The simulation itself, a part of d3, is known by the positions of its ticks.
\<close>

section \<open>The signature\<close>

definition node_key :: "gnode \<Rightarrow> jstr \<times> jstr \<times> jstr \<times> bool" where
  "node_key n = (gn_id n, gn_label n, gn_kind n, gn_root n)"

text \<open>Links have no \<open>id\<close> of their own, so that the first element of their arrays is \<open>undefined\<close>.\<close>

definition link_key :: "glink \<Rightarrow> jstr \<times> jstr \<times> jstr" where
  "link_key l = (gl_source l, gl_target l, gl_type l)"

definition json_node :: "jstr \<times> jstr \<times> jstr \<times> bool \<Rightarrow> jstr" where
  "json_node k = (case k of (i, label, kind, isRoot) \<Rightarrow>
     json_array [json_string i, json_string label, json_string kind, json_bool isRoot])"

definition json_link :: "jstr \<times> jstr \<times> jstr \<Rightarrow> jstr" where
  "json_link k = (case k of (s, t, type) \<Rightarrow>
     json_array [js ''null'', json_string s, json_string t, json_string type])"

text \<open>\<open>sort()\<close> orders arrays by their texts, stably.\<close>

definition node_text :: "jstr \<times> jstr \<times> jstr \<times> bool \<Rightarrow> jstr" where
  "node_text k = (case k of (i, label, kind, isRoot) \<Rightarrow> join_html (js '','') [i, label, kind, json_bool isRoot])"

definition link_text :: "jstr \<times> jstr \<times> jstr \<Rightarrow> jstr" where
  "link_text k = (case k of (s, t, type) \<Rightarrow> join_html (js '','') [[], s, t, type])"

definition topology_signature :: "gnode list \<Rightarrow> glink list \<Rightarrow> jstr" where
  "topology_signature ns ls =
     js ''{\"nodes\":'' @ json_array (map json_node (sort_key node_text (map node_key ns))) @
     js '',\"links\":'' @ json_array (map json_link (sort_key link_text (map link_key ls))) @ js ''}''"

section \<open>The drawing\<close>

text \<open>
  \<open>dr_nodes\<close> and \<open>dr_links\<close> are bound to the elements drawn, none if the message of an empty graph is
  shown; \<open>dr_at\<close> and \<open>dr_centers\<close> are the \<open>x, y\<close> and \<open>componentX, componentY\<close> of the nodes as the
  simulation got or left them; \<open>dr_alpha\<close> is the starting alpha of the current simulation.
\<close>

record drawing =
  dr_signature :: "jstr option"
  dr_positions :: "jstr \<rightharpoonup> rat \<times> rat"
  dr_nodes :: "gnode list"
  dr_links :: "glink list"
  dr_at :: "jstr \<rightharpoonup> rat \<times> rat"
  dr_centers :: "jstr \<rightharpoonup> rat \<times> rat"
  dr_alpha :: "rat option"

definition initial_drawing :: drawing where
  "initial_drawing = \<lparr>dr_signature = None, dr_positions = Map.empty, dr_nodes = [], dr_links = [],
     dr_at = Map.empty, dr_centers = Map.empty, dr_alpha = None\<rparr>"

definition dimensions :: "rat \<times> rat \<Rightarrow> rat \<times> rat" where
  "dimensions rect = (max 320 (fst rect), max 260 (snd rect))"

text \<open>A drawn node takes over the counter and the samples of the new node with its id.\<close>

definition update_node :: "gnode list \<Rightarrow> gnode \<Rightarrow> gnode" where
  "update_node ns n = (case find (\<lambda>m. gn_id m = gn_id n) ns of
     None \<Rightarrow> n
   | Some m \<Rightarrow> n\<lparr>gn_count := gn_count m, gn_samples := gn_samples m\<rparr>)"

text \<open>The grouping ends on every graph (theorem \<open>component_centers\<close>), which leaves the first case out.\<close>

definition node_centers :: "rat \<times> rat \<Rightarrow> gnode list \<Rightarrow> glink list \<Rightarrow> (jstr \<rightharpoonup> rat \<times> rat)" where
  "node_centers rect ns ls =
     (let (width, height) = dimensions rect in
      case assign_component_centers (map gn_id ns) (map link_ends ls) width height of
        None \<Rightarrow> Map.empty | Some c \<Rightarrow> c)"

definition render_graph :: "rat \<times> rat \<Rightarrow> gnode list \<times> glink list \<Rightarrow> drawing \<Rightarrow> drawing" where
  "render_graph rect g d =
     (let (ns, ls) = g;
          restored = length (filter (\<lambda>n. dr_positions d (gn_id n) \<noteq> None) ns);
          signature = topology_signature ns ls
      in if dr_signature d = Some signature
         then d\<lparr>dr_nodes := map (update_node ns) (dr_nodes d)\<rparr>
         else d\<lparr>dr_signature := Some signature, dr_nodes := ns, dr_links := ls,
                dr_at := dr_positions d |` set (map gn_id ns),
                dr_centers := node_centers rect ns ls,
                dr_alpha := (if ns = [] then None else Some (if restored \<noteq> 0 then 35 / 100 else 1))\<rparr>)"

text \<open>A tick moves every node of the current simulation and saves its position.\<close>

definition tick :: "(jstr \<Rightarrow> rat \<times> rat) \<Rightarrow> drawing \<Rightarrow> drawing" where
  "tick xy d =
     (if dr_alpha d = None then d
      else let moved = (\<lambda>i. Some (xy i)) |` set (map gn_id (dr_nodes d))
           in d\<lparr>dr_at := moved, dr_positions := dr_positions d ++ moved\<rparr>)"

definition drag_to :: "jstr \<Rightarrow> rat \<times> rat \<Rightarrow> drawing \<Rightarrow> drawing" where
  "drag_to i p d = d\<lparr>dr_positions := (dr_positions d)(i \<mapsto> p)\<rparr>"

definition clear_positions :: "drawing \<Rightarrow> drawing" where
  "clear_positions d = d\<lparr>dr_positions := Map.empty, dr_signature := None\<rparr>"

datatype draw_op =
    Graph "rat \<times> rat" "gnode list \<times> glink list"
  | Tick "jstr \<Rightarrow> rat \<times> rat" | Drag jstr "rat \<times> rat" | ClearPositions

fun draw_do :: "drawing \<Rightarrow> draw_op \<Rightarrow> drawing" where
  "draw_do d (Graph rect g) = render_graph rect g d"
| "draw_do d (Tick xy) = tick xy d"
| "draw_do d (Drag i p) = drag_to i p d"
| "draw_do d ClearPositions = clear_positions d"

section \<open>Equal signatures\<close>

lemma delimited_node: "delimited json_node"
  unfolding delimited_def json_node_def json_array_def
  by (auto simp: json_string_cancel json_bool_cancel split: prod.split)

lemma delimited_link: "delimited json_link"
  unfolding delimited_def json_link_def json_array_def
  by (auto simp: json_string_cancel split: prod.split)

lemma signature_eq:
  assumes "topology_signature ns ls = topology_signature ns' ls'"
  shows "mset (map node_key ns) = mset (map node_key ns') \<and> mset (map link_key ls) = mset (map link_key ls')"
proof -
  have "sort_key node_text (map node_key ns) = sort_key node_text (map node_key ns') \<and>
      sort_key link_text (map link_key ls) = sort_key link_text (map link_key ls')"
    using assms by (simp add: topology_signature_def json_array_cancel [OF delimited_node] json_array_eq [OF delimited_link])
  then show ?thesis by (metis mset_sort)
qed

lemma signature_keys:
  "map node_key ns = map node_key ns' \<Longrightarrow> topology_signature ns ls = topology_signature ns' ls"
  by (simp add: topology_signature_def)

section \<open>The shortcut draws the same\<close>

text \<open>
  The drawing shows a graph: the same nodes with all their data, and links with the same ends and
  types (their counters are not drawn).
\<close>

definition drawn :: "gnode list \<times> glink list \<Rightarrow> drawing \<Rightarrow> bool" where
  "drawn g d \<longleftrightarrow> mset (dr_nodes d) = mset (fst g) \<and> mset (map link_key (dr_links d)) = mset (map link_key (snd g))"

definition distinct_nodes :: "gnode list \<Rightarrow> bool" where
  "distinct_nodes ns \<longleftrightarrow> distinct (map gn_id ns)"

definition draw_inv :: "drawing \<Rightarrow> bool" where
  "draw_inv d \<longleftrightarrow> distinct_nodes (dr_nodes d) \<and>
     (dr_signature d \<noteq> None \<longrightarrow> dr_signature d = Some (topology_signature (dr_nodes d) (dr_links d)))"

lemma update_node_key [simp]: "node_key (update_node ns n) = node_key n"
  by (simp add: update_node_def node_key_def split: option.split)

lemma node_key_id: "node_key m = node_key n \<Longrightarrow> gn_id m = gn_id n"
  by (simp add: node_key_def)

lemma update_node_found:
  assumes "distinct_nodes ns" and "m \<in> set ns" and "node_key m = node_key n"
  shows "update_node ns n = m"
proof -
  have "find (\<lambda>m. gn_id m = gn_id n) ns \<noteq> None"
    using assms(2) node_key_id [OF assms(3)] by (auto simp: find_None_iff)
  then obtain m' where m': "find (\<lambda>m. gn_id m = gn_id n) ns = Some m'" by blast
  then have "m' \<in> set ns" and "gn_id m' = gn_id n" by (auto simp: find_Some_iff)
  moreover have "inj_on gn_id (set ns)" using assms(1) by (simp add: distinct_nodes_def distinct_map)
  ultimately have "m' = m" using assms(2) node_key_id [OF assms(3)] by (intro inj_onD [of gn_id "set ns"]) simp_all
  then show ?thesis using m' assms(3) by (simp add: update_node_def node_key_def)
qed

lemma distinct_nodes_update: "distinct_nodes (map (update_node ns) old) = distinct_nodes old"
proof -
  have "gn_id (update_node ns n) = gn_id n" for n by (rule node_key_id) simp
  then show ?thesis by (simp add: distinct_nodes_def comp_def)
qed

lemma updated_nodes:
  assumes "distinct_nodes ns" and "distinct_nodes old" and keys: "mset (map node_key old) = mset (map node_key ns)"
  shows "mset (map (update_node ns) old) = mset ns"
proof -
  have k: "node_key ` set old = node_key ` set ns" using keys by (metis set_map set_mset_mset)
  have "update_node ns n \<in> set ns" if "n \<in> set old" for n
  proof -
    from k that have "node_key n \<in> node_key ` set ns" by blast
    then obtain m where m: "m \<in> set ns" "node_key m = node_key n" by (auto elim: imageE)
    with update_node_found [OF assms(1) m] show ?thesis by simp
  qed
  moreover have "m \<in> update_node ns ` set old" if m: "m \<in> set ns" for m
  proof -
    from k m have "node_key m \<in> node_key ` set old" by blast
    then obtain n where n: "n \<in> set old" "node_key m = node_key n" by (auto elim: imageE)
    with update_node_found [OF assms(1) m n(2)] show ?thesis by blast
  qed
  ultimately have "set (map (update_node ns) old) = set ns" by auto
  moreover have "distinct (map (update_node ns) old)" and "distinct ns"
    using assms(1,2) distinct_nodes_update [of ns old] unfolding distinct_nodes_def by (auto simp: distinct_map intro: inj_on_imageI2)
  ultimately show ?thesis by (simp only: set_eq_iff_mset_eq_distinct)
qed

lemma initial_draw_inv: "draw_inv initial_drawing"
  by (simp add: draw_inv_def initial_drawing_def distinct_nodes_def)

lemma render_graph_drawn:
  assumes d: "draw_inv d" and g: "distinct_nodes (fst g)"
  shows "drawn g (render_graph rect g d) \<and> draw_inv (render_graph rect g d)"
proof (cases "dr_signature d = Some (topology_signature (fst g) (snd g))")
  case False
  then have "dr_nodes (render_graph rect g d) = fst g" "dr_links (render_graph rect g d) = snd g"
    "dr_signature (render_graph rect g d) = Some (topology_signature (fst g) (snd g))"
    by (simp_all add: render_graph_def Let_def case_prod_beta)
  then show ?thesis using g by (simp add: drawn_def draw_inv_def)
next
  case True
  then have "topology_signature (dr_nodes d) (dr_links d) = topology_signature (fst g) (snd g)"
    using d by (auto simp: draw_inv_def)
  note keys = signature_eq [OF this]
  have r: "render_graph rect g d = d\<lparr>dr_nodes := map (update_node (fst g)) (dr_nodes d)\<rparr>"
    using True by (simp add: render_graph_def Let_def case_prod_beta)
  have "mset (map (update_node (fst g)) (dr_nodes d)) = mset (fst g)"
    using g d keys by (intro updated_nodes) (simp_all add: draw_inv_def)
  moreover have "topology_signature (map (update_node (fst g)) (dr_nodes d)) (dr_links d) =
      topology_signature (dr_nodes d) (dr_links d)"
    by (rule signature_keys) simp
  ultimately show ?thesis using d keys by (simp add: r drawn_def draw_inv_def distinct_nodes_update)
qed

fun graphs_distinct :: "draw_op \<Rightarrow> bool" where
  "graphs_distinct (Graph rect g) \<longleftrightarrow> distinct_nodes (fst g)"
| "graphs_distinct _ \<longleftrightarrow> True"

lemma draw_do_inv: "draw_inv d \<Longrightarrow> graphs_distinct op \<Longrightarrow> draw_inv (draw_do d op)"
  using render_graph_drawn
  by (cases op) (auto simp: draw_inv_def tick_def drag_to_def clear_positions_def Let_def)

lemma draw_run_inv: "draw_inv d \<Longrightarrow> list_all graphs_distinct ops \<Longrightarrow> draw_inv (foldl draw_do d ops)"
  by (induction ops arbitrary: d) (simp_all add: draw_do_inv)

lemma build_graph_distinct: "distinct_nodes (fst (build_graph te index es))"
  using build_graph_inv [of te index es] by (simp add: graph_inv_def distinct_nodes_def)

section \<open>Positions\<close>

text \<open>Rendering never removes a position, not even that of a node which is gone for good.\<close>

lemma positions_kept: "dr_positions (render_graph rect g d) = dr_positions d"
  by (simp add: render_graph_def Let_def split: prod.split)

text \<open>
  Clearing does not stop the simulation, which the next frame does: a tick before that brings the
  positions of the nodes on display back.
\<close>

lemma tick_undoes_clear:
  assumes "dr_alpha d \<noteq> None" and "i \<in> gn_id ` set (dr_nodes d)"
  shows "dr_positions (tick xy (clear_positions d)) i = Some (xy i)"
  using assms by (simp add: tick_def clear_positions_def)

section \<open>Properties\<close>

text \<open>
  C38. Drawing a graph leaves on the screen what drawing it from scratch would, whatever was
  drawn, dragged, moved by the simulation or cleared before: the same nodes with their labels,
  kinds, counters, samples and tooltips, and links between the same ends. So the shortcut for an
  unchanged topology, decided by comparing two JSON texts, is sound.
\<close>

theorem drawn_graph_current:
  assumes "list_all graphs_distinct ops" and "distinct_nodes (fst g)"
    and "d = render_graph rect g (foldl draw_do initial_drawing ops)"
  shows "mset (dr_nodes d) = mset (fst g) \<and>
    mset (map (node_tooltip te) (dr_nodes d)) = mset (map (node_tooltip te) (fst g)) \<and>
    mset (map link_key (dr_links d)) = mset (map link_key (snd g))"
proof -
  have "draw_inv (foldl draw_do initial_drawing ops)" by (rule draw_run_inv [OF initial_draw_inv assms(1)])
  then have "drawn g d" unfolding assms(3) using assms(2) render_graph_drawn by blast
  then show ?thesis by (simp add: drawn_def)
qed

theorem drawn_graph_current_witness:
  "let n = \<lparr>gn_id = js ''p'', gn_label = js ''ls'', gn_kind = js ''process'', gn_root = True, gn_count = 1, gn_samples = []\<rparr>
   in mset (dr_nodes (render_graph (0, 0) ([n\<lparr>gn_count := 2\<rparr>], [])
        (foldl draw_do initial_drawing [Graph (0, 0) ([n], []), Tick (\<lambda>i. (1, 2))]))) = {#n\<lparr>gn_count := 2\<rparr>#}"
proof -
  let ?n = "\<lparr>gn_id = js ''p'', gn_label = js ''ls'', gn_kind = js ''process'', gn_root = True, gn_count = 1, gn_samples = []\<rparr>"
  let ?ops = "[Graph (0, 0) ([?n], []), Tick (\<lambda>i. (1, 2))]" and ?g = "([?n\<lparr>gn_count := 2\<rparr>], [])"
  have "list_all graphs_distinct ?ops" and "distinct_nodes (fst ?g)" by (simp_all add: distinct_nodes_def)
  from drawn_graph_current [OF this refl, of "(0, 0)"] show ?thesis by simp
qed

end
