(* ===== verification/VisScreen.thy ===== *)
theory VisScreen
  imports VisDraw
begin

text \<open>
  A page of src/src/visualization/public/app.js over time: which handlers ask for a frame, that at
  most one is under way (\<open>scheduleRender\<close>), what it puts on the screen, and the status line.
\<close>

section \<open>The screen\<close>

text \<open>
  \<open>sc_frame\<close> is \<open>renderFrame !== null\<close>; \<open>sc_filters\<close> are the other inputs of the page, \<open>sc_shown\<close> and
  \<open>sc_drawing\<close> what the last frame left on it.
\<close>

record screen =
  sc_page :: page
  sc_filters :: filters
  sc_frame :: bool
  sc_shown :: rendered
  sc_drawing :: drawing
  sc_status :: jstr

abbreviation sc_dash :: "screen \<Rightarrow> dash" where
  "sc_dash s \<equiv> v_dash (pg_vis (sc_page s))"

definition status_text :: "jstr \<Rightarrow> dash \<Rightarrow> jstr" where
  "status_text text d =
     text @ js '' - '' @ js (show_nat (length (d_events d))) @ js '' events'' @
     (if d_queued d = [] then [] else js '', '' @ js (show_nat (length (d_queued d))) @ js '' queued'')"

definition set_status :: "string \<Rightarrow> screen \<Rightarrow> screen" where
  "set_status text s = s\<lparr>sc_status := status_text (js text) (sc_dash s)\<rparr>"

definition schedule_render :: "screen \<Rightarrow> screen" where
  "schedule_render s = s\<lparr>sc_frame := True\<rparr>"

definition render_screen :: "text_env \<Rightarrow> rat \<times> rat \<Rightarrow> screen \<Rightarrow> screen" where
  "render_screen te rect s =
     (let (shown, cache) = render te (sc_filters s) (sc_dash s) (pg_cache (sc_page s)) in
      set_status (if d_paused (sc_dash s) then ''Paused'' else ''Connected'')
        (s\<lparr>sc_page := (sc_page s)\<lparr>pg_cache := cache\<rparr>, sc_shown := shown,
           sc_drawing := render_graph rect (rd_graph shown) (sc_drawing s)\<rparr>))"

definition run_frame :: "text_env \<Rightarrow> rat \<times> rat \<Rightarrow> screen \<Rightarrow> screen" where
  "run_frame te rect s = (if sc_frame s then render_screen te rect (s\<lparr>sc_frame := False\<rparr>) else s)"

text \<open>The handler of a frame of the stream, beside its effect on the events.\<close>

fun frame_handler :: "frame \<Rightarrow> screen \<Rightarrow> screen" where
  "frame_handler (Snapshot es) s = schedule_render s"
| "frame_handler (Events es) s = schedule_render s"
| "frame_handler Clear s = schedule_render (s\<lparr>sc_drawing := clear_positions (sc_drawing s)\<rparr>)"
| "frame_handler Keepalive s = s"

definition network :: "text_env \<Rightarrow> int option \<Rightarrow> vis_op \<Rightarrow> screen \<Rightarrow> screen" where
  "network te limit op s =
     (let s' = s\<lparr>sc_page := page_do te limit (Do op) (sc_page s)\<rparr> in
      case op of
        Deliver \<Rightarrow> (case v_pending (pg_vis (sc_page s)) of [] \<Rightarrow> s' | f # _ \<Rightarrow> frame_handler f s')
      | Toggle \<Rightarrow> schedule_render s'
      | _ \<Rightarrow> s')"

text \<open>
  \<open>Input\<close> is a change of the other filters, \<open>Select\<close> one of the type filter; \<open>Opened\<close> and \<open>Failed\<close>
  are the events of the stream's connection; \<open>Simulated\<close> is a tick of the simulation.
\<close>

datatype screen_op =
    Net vis_op | Input filters | Select jstr | Frame "rat \<times> rat"
  | Opened | Failed | Simulated "jstr \<Rightarrow> rat \<times> rat" | Dragged jstr "rat \<times> rat"

fun screen_do :: "text_env \<Rightarrow> int option \<Rightarrow> screen_op \<Rightarrow> screen \<Rightarrow> screen" where
  "screen_do te limit (Net op) s = network te limit op s"
| "screen_do te limit (Input f) s = schedule_render (s\<lparr>sc_filters := f\<rparr>)"
| "screen_do te limit (Select t) s = schedule_render (s\<lparr>sc_page := page_do te limit (Choose t) (sc_page s)\<rparr>)"
| "screen_do te limit (Frame rect) s = run_frame te rect s"
| "screen_do te limit Opened s = set_status ''Connected'' s"
| "screen_do te limit Failed s = set_status ''Reconnecting'' s"
| "screen_do te limit (Simulated xy) s = s\<lparr>sc_drawing := tick xy (sc_drawing s)\<rparr>"
| "screen_do te limit (Dragged i p) s = s\<lparr>sc_drawing := drag_to i p (sc_drawing s)\<rparr>"

fun screen_run :: "text_env \<Rightarrow> int option \<Rightarrow> screen_op list \<Rightarrow> screen \<Rightarrow> screen" where
  "screen_run te limit [] s = s"
| "screen_run te limit (op # ops) s = screen_run te limit ops (screen_do te limit op s)"

fun own_screen_op :: "screen_op \<Rightarrow> screen \<Rightarrow> bool" where
  "own_screen_op (Net op) s \<longleftrightarrow> own_stream (Do op) (sc_page s)"
| "own_screen_op _ s \<longleftrightarrow> True"

fun own_screen :: "text_env \<Rightarrow> int option \<Rightarrow> screen_op list \<Rightarrow> screen \<Rightarrow> bool" where
  "own_screen te limit [] s \<longleftrightarrow> True"
| "own_screen te limit (op # ops) s \<longleftrightarrow> own_screen_op op s \<and> own_screen te limit ops (screen_do te limit op s)"

text \<open>A page that has just been loaded: everything empty, then the first rendering.\<close>

definition blank :: rendered where
  "blank = \<lparr>rd_visible = [], rd_type = js ''all'', rd_stats = (0, 0, 0, 0), rd_graph = ([], []), rd_commands = [],
     rd_table = []\<rparr>"

definition new_screen :: "text_env \<Rightarrow> rat \<times> rat \<Rightarrow> filters \<Rightarrow> nat \<Rightarrow> server \<Rightarrow> screen" where
  "new_screen te rect f c srv =
     render_screen te rect \<lparr>sc_page = new_page c srv, sc_filters = f, sc_frame = False, sc_shown = blank,
       sc_drawing = initial_drawing, sc_status = []\<rparr>"

section \<open>It keeps up\<close>

text \<open>
  The screen is up to date: all of it is what follows from the current events and filters, the
  drawn graph, which later frames may have updated in place, included.
\<close>

definition up_to_date :: "text_env \<Rightarrow> screen \<Rightarrow> bool" where
  "up_to_date te s \<longleftrightarrow>
     sc_shown s = page_of te (sc_filters s) (pc_type (pg_cache (sc_page s))) (d_events (sc_dash s)) \<and>
     drawn (rd_graph (sc_shown s)) (sc_drawing s)"

definition screen_inv :: "text_env \<Rightarrow> screen \<Rightarrow> bool" where
  "screen_inv te s \<longleftrightarrow> page_inv te (sc_page s) \<and> draw_inv (sc_drawing s) \<and> (sc_frame s \<or> up_to_date te s)"

text \<open>Rendering again with the type it has settled on changes nothing.\<close>

lemma page_of_type [simp]: "page_of te f (rd_type (page_of te f t es)) es = page_of te f t es"
proof -
  have "js ''all'' \<in> set (available_types te es)" by (simp add: available_types_def)
  then show ?thesis by (simp add: page_of_def Let_def)
qed

lemma page_of_graph: "\<exists>index es'. rd_graph (page_of te f t es) = build_graph te index es'"
  by (auto simp: page_of_def Let_def)

lemma set_status_simps [simp]:
  "sc_page (set_status t s) = sc_page s" "sc_filters (set_status t s) = sc_filters s"
  "sc_frame (set_status t s) = sc_frame s" "sc_shown (set_status t s) = sc_shown s"
  "sc_drawing (set_status t s) = sc_drawing s" "up_to_date te (set_status t s) = up_to_date te s"
  by (simp_all add: set_status_def up_to_date_def)

lemma render_screen_up_to_date:
  assumes "page_inv te (sc_page s)" and "draw_inv (sc_drawing s)"
  shows "up_to_date te (render_screen te rect s) \<and> screen_inv te (render_screen te rect s) \<and>
    sc_frame (render_screen te rect s) = sc_frame s"
proof -
  let ?d = "sc_dash s" and ?c = "pg_cache (sc_page s)"
  obtain shown cache where r: "render te (sc_filters s) ?d ?c = (shown, cache)" by (metis surj_pair)
  have c: "cache_fresh te ?d ?c" and t: "trimmed (pg_vis (sc_page s))" using assms(1) by (simp_all add: page_inv_def)
  note f = render_fresh [OF c, of "sc_filters s", unfolded r, simplified]
  have "distinct_nodes (fst (rd_graph shown))"
    unfolding f(1) using page_of_graph build_graph_distinct by metis
  note g = render_graph_drawn [OF assms(2) this, of rect]
  show ?thesis
    using f g t by (auto simp: render_screen_def r up_to_date_def screen_inv_def page_inv_def)
qed

lemma up_to_date_cong:
  "d_events (sc_dash s') = d_events (sc_dash s) \<Longrightarrow> pg_cache (sc_page s') = pg_cache (sc_page s) \<Longrightarrow>
   sc_filters s' = sc_filters s \<Longrightarrow> sc_shown s' = sc_shown s \<Longrightarrow> sc_drawing s' = sc_drawing s \<Longrightarrow>
   up_to_date te s' = up_to_date te s"
  by (simp add: up_to_date_def)

lemma network_inv:
  assumes s: "screen_inv te s" and own: "own_stream (Do op) (sc_page s)"
  shows "screen_inv te (network te limit op s)"
proof -
  let ?p = "page_do te limit (Do op) (sc_page s)" and ?s = "s\<lparr>sc_page := page_do te limit (Do op) (sc_page s)\<rparr>"
  have p: "page_inv te ?p" using s own by (intro page_do_inv) (simp add: screen_inv_def)
  have d: "draw_inv (sc_drawing s)" "draw_inv (clear_positions (sc_drawing s))"
    using s draw_do_inv [of "sc_drawing s" ClearPositions] by (simp_all add: screen_inv_def)
  have kept: "screen_inv te ?s" if "d_events (v_dash (pg_vis ?p)) = d_events (sc_dash s)"
    using s p that up_to_date_cong [of ?s s te] by (auto simp: screen_inv_def page_do_def)
  have scheduled: "screen_inv te (schedule_render ?s)"
    "screen_inv te (schedule_render (?s\<lparr>sc_drawing := clear_positions (sc_drawing s)\<rparr>))"
    using p d by (simp_all add: screen_inv_def schedule_render_def)
  show ?thesis
  proof (cases op)
    case Deliver
    show ?thesis
    proof (cases "v_pending (pg_vis (sc_page s))")
      case Nil
      then show ?thesis using kept by (simp add: network_def Let_def Deliver page_do_def vis_do_def)
    next
      case (Cons f fs)
      then show ?thesis using scheduled kept
        by (cases f) (simp_all add: network_def Let_def Deliver page_do_def vis_do_def)
    qed
  qed (use scheduled kept in \<open>simp_all add: network_def Let_def page_do_def vis_do_def\<close>)
qed

lemma drawing_moves:
  "drawn g (tick xy d) = drawn g d" "drawn g (drag_to i p d) = drawn g d"
  "draw_inv d \<Longrightarrow> draw_inv (tick xy d)" "draw_inv d \<Longrightarrow> draw_inv (drag_to i p d)"
  by (auto simp: drawn_def draw_inv_def tick_def drag_to_def Let_def)

lemma screen_do_inv:
  assumes s: "screen_inv te s" and own: "own_screen_op op s"
  shows "screen_inv te (screen_do te limit op s)"
proof (cases op)
  case (Net o')
  then show ?thesis using network_inv [OF s] own by simp
next
  case (Frame rect)
  then show ?thesis using s render_screen_up_to_date [of te "s\<lparr>sc_frame := False\<rparr>" rect]
    by (auto simp: run_frame_def screen_inv_def)
next
  case (Select t)
  then show ?thesis using s page_do_inv [of te "sc_page s" "Choose t" limit]
    by (simp add: screen_inv_def schedule_render_def)
qed (use s in \<open>auto simp: screen_inv_def schedule_render_def up_to_date_def drawing_moves\<close>)

lemma screen_run_inv: "screen_inv te s \<Longrightarrow> own_screen te limit ops s \<Longrightarrow> screen_inv te (screen_run te limit ops s)"
  by (induction te limit ops s rule: screen_run.induct) (simp_all add: screen_do_inv)

lemma new_screen_inv: "screen_inv te (new_screen te rect f c srv)"
  unfolding new_screen_def
  by (rule conjunct1 [OF conjunct2 [OF render_screen_up_to_date]]) (simp_all add: new_page_inv initial_draw_inv)

lemma frame_up_to_date:
  assumes "screen_inv te s"
  shows "\<not> sc_frame (run_frame te rect s) \<and> up_to_date te (run_frame te rect s)"
  using assms render_screen_up_to_date [of te "s\<lparr>sc_frame := False\<rparr>" rect]
  by (auto simp: run_frame_def screen_inv_def)

text \<open>What a frame shows agrees with itself: the counters and the chart are those of its events.\<close>

definition counts_right :: "rendered \<Rightarrow> bool" where
  "counts_right r \<longleftrightarrow> rd_stats r =
     (length (rd_visible r), length (filter (\<lambda>e. attr e ''type'' = Str (js ''EXEC'')) (rd_visible r)),
      length (filter (\<lambda>e. attr e ''type'' = Str (js ''RO'')) (rd_visible r)),
      length (filter (\<lambda>e. attr e ''type'' = Str (js ''CONNECT'')) (rd_visible r)))"

lemma page_of_counts: "counts_right (page_of te f t es)"
  by (simp add: counts_right_def page_of_def Let_def render_stats_counts)

lemma page_of_commands:
  "top_rows (map command_of (rd_visible (page_of te f t es))) 10 (rd_commands (page_of te f t es))"
  by (simp add: page_of_def Let_def command_rows_top)

section \<open>The status line\<close>

text \<open>
  While the stream is being reconnected, a change of a filter makes the page claim that it is
  connected: \<open>render\<close> writes the status without knowing the connection.
\<close>

lemma status_hides_outage:
  assumes "\<not> d_paused (sc_dash s)"
  shows "sc_status (screen_do te limit (Frame rect) (screen_do te limit (Input f) (screen_do te limit Failed s))) =
    status_text (js ''Connected'') (sc_dash s)"
  using assms by (simp add: run_frame_def schedule_render_def render_screen_def set_status_def case_prod_beta)

section \<open>Properties\<close>

text \<open>
  C39. Whatever frames, pauses, reconnects, filter changes, drags and animation frames a page goes
  through, it is up to date unless an animation frame is pending, and that frame brings it up to
  date: counters, command chart, table and drawn graph are those of the current events and
  filters. The counters are then the numbers of visible events by type, the chart the ten most
  frequent commands.
\<close>

theorem screen_keeps_up:
  assumes "own_screen te limit ops (new_screen te rect f c srv)"
    and "s = screen_run te limit ops (new_screen te rect f c srv)"
  shows "(sc_frame s \<or> up_to_date te s) \<and>
    \<not> sc_frame (run_frame te rect' s) \<and> up_to_date te (run_frame te rect' s) \<and>
    counts_right (sc_shown (run_frame te rect' s)) \<and>
    top_rows (map command_of (rd_visible (sc_shown (run_frame te rect' s)))) 10
      (rd_commands (sc_shown (run_frame te rect' s)))"
proof -
  have s: "screen_inv te s" unfolding assms(2) using new_screen_inv assms(1) by (rule screen_run_inv)
  note f = frame_up_to_date [OF s, of rect']
  obtain f' t es where shown: "sc_shown (run_frame te rect' s) = page_of te f' t es"
    using f by (auto simp: up_to_date_def)
  show ?thesis using s f unfolding shown by (simp add: screen_inv_def page_of_counts page_of_commands)
qed

theorem screen_keeps_up_witness:
  "up_to_date te0 (run_frame te0 (0, 0) (screen_run te0 None [Net Toggle, Failed, Net Deliver, Opened]
     (new_screen te0 (0, 0) \<lparr>fi_limit = 500, fi_type = [], fi_command = [], fi_text = []\<rparr> 0 new_server)))"
proof -
  have "own_screen te0 None [Net Toggle, Failed, Net Deliver, Opened]
     (new_screen te0 (0, 0) \<lparr>fi_limit = 500, fi_type = [], fi_command = [], fi_text = []\<rparr> 0 new_server)" by simp
  from screen_keeps_up [OF this refl, of "(0, 0)"] show ?thesis by blast
qed

end
