(* ===== verification/AgentRun.thy ===== *)
theory AgentRun
  imports Prelude
begin

text \<open>
  The script agents/run.sh, which builds and starts the container of an agent: what it gives docker
  for each supported agent. The environment, realpath, sha256sum, the look-up of the newest release
  and the status of each command are the record \<open>agent_world\<close>.
\<close>

section \<open>Parameters of an agent\<close>

text \<open>
  \<open>aw_env\<close> gives an unset variable as the empty text, as \<open>${X:-d}\<close> does. \<open>aw_latest a\<close> is what curl and
  jq print for agent \<open>a\<close>, or jq's status; \<open>aw_sha\<close> is the first word of sha256sum's output.
\<close>

record agent_world =
  aw_env :: "string \<Rightarrow> string"
  aw_script_dir :: string
  aw_realpath :: "string \<Rightarrow> string option"
  aw_sha :: "string \<Rightarrow> string"
  aw_latest :: "string \<Rightarrow> nat + string"
  aw_file :: "string \<Rightarrow> bool"
  aw_mkdir :: nat
  aw_build :: nat
  aw_run :: nat

definition or_default :: "string \<Rightarrow> string \<Rightarrow> string" where
  "or_default s d = (if s = [] then d else s)"

definition agents_dir :: "agent_world \<Rightarrow> string" where
  "agents_dir w = or_default (aw_env w ''AGENTS_DIR'') (aw_script_dir w)"

definition state_dir :: "agent_world \<Rightarrow> string \<Rightarrow> string" where
  "state_dir w agent = or_default (aw_env w ''AGENT_STATE_DIR'')
     (or_default (aw_env w ''XDG_STATE_HOME'') (aw_env w ''HOME'' @ ''/.local/state'') @
       ''/isolated_agent/'' @ agent)"

text \<open>The last component of a path that realpath has printed.\<close>

definition base_name :: "string \<Rightarrow> string" where
  "base_name p = (if p = ''/'' then p else rev (takeWhile (\<lambda>c. c \<noteq> CHR ''/'') (rev p)))"

definition volume :: "string \<times> string \<Rightarrow> string list" where
  "volume m = [''-v'', fst m @ '':'' @ snd m]"

text \<open>For each agent the variable that fixes its version, if there is one, and its volumes.\<close>

definition agent_cases :: "string \<Rightarrow> string \<Rightarrow> (string \<times> string option \<times> (string \<times> string) list) list" where
  "agent_cases dir session =
     [(''crush'', Some ''CRUSH_VERSION'',
         [(dir @ ''/config'', ''/root/.config/crush''), (dir @ ''/state'', ''/root/.local/state/crush''),
          (dir @ ''/share'', ''/root/.local/share/crush''), (dir @ ''/cache'', ''/root/.cache/crush''),
          (dir @ ''/sessions/'' @ session, ''/workspace/.crush'')]),
      (''codex'', Some ''CODEX_VERSION'', [(dir, ''/root/.codex'')]),
      (''pi'', Some ''PI_VERSION'', [(dir, ''/root/.pi'')]),
      (''claude-code'', Some ''CLAUDE_CODE_VERSION'', [(dir, ''/root/.claude'')]),
      (''code'', Some ''CODE_VERSION'', [(dir, ''/root/.code'')]),
      (''opencode'', Some ''OPENCODE_VERSION'',
         [(dir @ ''/config'', ''/root/.config/opencode''), (dir @ ''/state'', ''/root/.local/state/opencode''),
          (dir @ ''/share'', ''/root/.local/share/opencode''), (dir @ ''/cache'', ''/root/.cache/opencode'')]),
      (''cursor'', None, [(dir @ ''/config'', ''/root/.config/cursor''), (dir @ ''/home'', ''/root/.cursor'')])]"

definition agent_version :: "agent_world \<Rightarrow> string \<Rightarrow> string option \<Rightarrow> nat + string" where
  "agent_version w agent variable = (case variable of
     None \<Rightarrow> Inr ''latest''
   | Some x \<Rightarrow> if aw_env w x \<noteq> [] then Inr (aw_env w x) else aw_latest w agent)"

section \<open>The run\<close>

datatype docker_effect =
    MakeDir string | WriteConfig string
  | DockerRm string | DockerBuild string string string | DockerRun "string list"

definition run_agent :: "agent_world \<Rightarrow> string \<Rightarrow> string \<Rightarrow> string \<Rightarrow> string list \<Rightarrow> docker_effect list \<times> nat" where
  "run_agent w agent version workspace extra =
     (let name = ''isolated_'' @ agent;
          built = [DockerRm name, DockerBuild (agents_dir w @ ''/'' @ agent) (''VERSION='' @ version) name] in
      if aw_build w \<noteq> 0 then (built, aw_build w)
      else (built @ [DockerRun ([''--name'', name] @ volume (workspace, ''/workspace/'' @ base_name workspace) @
                       extra @ [''-it'', name])], aw_run w))"

definition prepare_claude :: "agent_world \<Rightarrow> string \<Rightarrow> docker_effect list" where
  "prepare_claude w dir = MakeDir dir #
     (if aw_file w (dir @ ''/.claude.json'') then [] else [WriteConfig (dir @ ''/.claude.json'')])"

definition run_sh :: "agent_world \<Rightarrow> string list \<Rightarrow> docker_effect list \<times> nat" where
  "run_sh w args = (case args of
     agent # source # extra \<Rightarrow>
       (case aw_realpath w source of
          None \<Rightarrow> ([], 1)
        | Some workspace \<Rightarrow>
            let dir = state_dir w agent in
            (case map_of (agent_cases dir (aw_sha w workspace)) agent of
               None \<Rightarrow> ([], 1)
             | Some (variable, mounts) \<Rightarrow>
                 (case agent_version w agent variable of
                    Inl status \<Rightarrow> ([], status)
                  | Inr version \<Rightarrow>
                      if agent = ''claude-code'' \<and> aw_mkdir w \<noteq> 0 then ([MakeDir dir], aw_mkdir w)
                      else
                        let (effects, status) = run_agent w agent version workspace (concat (map volume mounts) @ extra) in
                        ((if agent = ''claude-code'' then prepare_claude w dir else []) @ effects, status))))
   | _ \<Rightarrow> ([], 1))"

section \<open>What a container sees of the host\<close>

fun host_dirs :: "string list \<Rightarrow> string list" where
  "host_dirs (a # v # args) =
     (if a = ''-v'' then takeWhile (\<lambda>c. c \<noteq> CHR '':'') v # host_dirs args else host_dirs (v # args))"
| "host_dirs args = []"

definition inside :: "string \<Rightarrow> string \<Rightarrow> bool" where
  "inside dir p \<longleftrightarrow> p = dir \<or> take (Suc (length dir)) p = dir @ ''/''"

lemma host_dirs_other [simp]: "a \<noteq> ''-v'' \<Longrightarrow> host_dirs (a # args) = host_dirs args"
  by (cases args) simp_all

lemma host_dirs_volume [simp]:
  "CHR '':'' \<notin> set s \<Longrightarrow> host_dirs (volume (s, t) @ args) = s # host_dirs args"
  by (induction s) (auto simp: volume_def)

lemma host_dirs_volumes:
  "\<forall>m \<in> set ms. CHR '':'' \<notin> set (fst m) \<Longrightarrow>
    host_dirs (concat (map volume ms) @ args) = map fst ms @ host_dirs args"
  by (induction ms) auto

lemma agent_mounts:
  assumes "map_of (agent_cases dir session) agent = Some (variable, mounts)" and "m \<in> set mounts"
  shows "\<exists>r \<in> {[], ''/config'', ''/state'', ''/share'', ''/cache'', ''/home'', ''/sessions/'' @ session}. fst m = dir @ r"
  using map_of_SomeD [OF assms(1)] assms(2) by (simp add: agent_cases_def) (elim disjE conjE; simp; elim disjE; simp)

lemma agent_mounts_inside:
  assumes "map_of (agent_cases dir session) agent = Some (variable, mounts)" and "m \<in> set mounts"
  shows "inside dir (fst m)"
  using agent_mounts [OF assms] by (auto simp: inside_def)

lemma agent_mounts_plain:
  assumes "map_of (agent_cases dir session) agent = Some (variable, mounts)" and "m \<in> set mounts"
    and "CHR '':'' \<notin> set dir" and "CHR '':'' \<notin> set session"
  shows "CHR '':'' \<notin> set (fst m)"
  using agent_mounts [OF assms(1,2)] assms(3,4) by auto

text \<open>An agent that is not supported, or too few arguments: docker is not called.\<close>

theorem unknown_agent_refused:
  assumes "agent \<notin> {''crush'', ''codex'', ''pi'', ''claude-code'', ''code'', ''opencode'', ''cursor''}"
  shows "run_sh w (agent # args) = ([], 1)"
  using assms by (auto simp: run_sh_def agent_cases_def Let_def split: list.split option.split)

text \<open>Crush keeps one session per workspace: two workspaces share one only if their hashes agree.\<close>

theorem crush_sessions_apart:
  assumes "map_of (agent_cases dir s) ''crush'' = Some (x, ms)" and "map_of (agent_cases dir s') ''crush'' = Some (x', ms')"
    and "(p, ''/workspace/.crush'') \<in> set ms" and "(p, ''/workspace/.crush'') \<in> set ms'"
  shows "s = s'"
  using assms by (auto simp: agent_cases_def)

section \<open>Properties\<close>

text \<open>
  C40. The isolation of an agent: unless the user passes further docker arguments, the container
  run.sh starts sees two parts of the host, the workspace it was given and the state directory of
  its own agent. This supposes paths without a colon, which separates the parts of a volume.
\<close>

theorem container_sees_only_its_own:
  assumes "DockerRun as \<in> set (fst (run_sh w [agent, source]))"
    and "\<forall>p. aw_realpath w source = Some p \<longrightarrow> CHR '':'' \<notin> set (p @ state_dir w agent @ aw_sha w p)"
  shows "\<exists>workspace. aw_realpath w source = Some workspace \<and>
    (\<forall>p \<in> set (host_dirs as). p = workspace \<or> inside (state_dir w agent) p)"
proof -
  obtain p variable mounts where p: "aw_realpath w source = Some p"
    and m: "map_of (agent_cases (state_dir w agent) (aw_sha w p)) agent = Some (variable, mounts)"
    and a: "as = [''--name'', ''isolated_'' @ agent] @ volume (p, ''/workspace/'' @ base_name p) @
      concat (map volume mounts) @ [''-it'', ''isolated_'' @ agent]"
    using assms(1)
    by (auto simp: run_sh_def run_agent_def prepare_claude_def Let_def
        split: option.splits sum.splits if_splits)
  have s: "CHR '':'' \<notin> set p" "CHR '':'' \<notin> set (state_dir w agent)" "CHR '':'' \<notin> set (aw_sha w p)"
    using assms(2) p by auto
  have "host_dirs as = p # map fst mounts"
    using agent_mounts_plain [OF m] s by (simp add: a host_dirs_volumes)
  then show ?thesis using p agent_mounts_inside [OF m] by auto
qed

theorem container_sees_only_its_own_witness:
  "list_all (\<lambda>p. p = ''/p'' \<or> inside ''/s'' p) (host_dirs [''--name'', ''isolated_codex'',
     ''-v'', ''/p:/workspace/p'', ''-v'', ''/s:/root/.codex'', ''-it'', ''isolated_codex''])"
proof -
  let ?w = "\<lparr>aw_env = (\<lambda>x. if x = ''AGENT_STATE_DIR'' then ''/s'' else ''1''), aw_script_dir = ''/a'',
    aw_realpath = (\<lambda>p. Some ''/p''), aw_sha = (\<lambda>p. ''0''), aw_latest = (\<lambda>a. Inl 1), aw_file = (\<lambda>p. True),
    aw_mkdir = 0, aw_build = 0, aw_run = 0\<rparr>"
  have "DockerRun [''--name'', ''isolated_codex'', ''-v'', ''/p:/workspace/p'', ''-v'', ''/s:/root/.codex'',
     ''-it'', ''isolated_codex''] \<in> set (fst (run_sh ?w [''codex'', ''p'']))"
    by (simp add: run_sh_def agent_cases_def agent_version_def run_agent_def state_dir_def or_default_def
        volume_def base_name_def Let_def)
  from container_sees_only_its_own [OF this] show ?thesis by (simp add: state_dir_def or_default_def list_all_iff)
qed

end
