(* ===== verification/DnsTests.thy ===== *)
theory DnsTests
  imports DnsParse "HOL-Library.Code_Target_Nat"
begin

text \<open>
  The unit tests of src/src/netmon-go/internal/dnscache (cache_test.go, dns_test.go), run on the model:
  each test is a statement that evaluation proves. The messages of dns_test.go are bytes, so the
  decoder is instantiated here with the part of the wire format of RFC 1035 they use.
\<close>

section \<open>A decoder\<close>

text \<open>
  The decoder goes from state to state, so that evaluation continues only with a known offset. A
  name with compression: \<open>Label off text after\<close> goes on at \<open>off\<close> with \<open>text\<close> read so far; \<open>after\<close> is
  where the name ends if a pointer has been followed. The fuel bounds labels and pointers.
\<close>

datatype name_state = Label nat string "nat option" | Complete string nat | Malformed

definition end_of :: "nat option \<Rightarrow> nat \<Rightarrow> nat" where
  "end_of after off = (case after of None \<Rightarrow> off | Some e \<Rightarrow> e)"

definition name_step :: "u8 list \<Rightarrow> nat \<Rightarrow> string \<Rightarrow> nat option \<Rightarrow> name_state" where
  "name_step m off s after =
     (let b = (if off < length m then unat (m ! off) else 256) in
      if length m \<le> off + (if 192 \<le> b then 1 else b) then Malformed
      else if b = 0 then Complete s (end_of after (off + 1))
      else if 192 \<le> b then Label ((b - 192) * 256 + unat (m ! (off + 1))) s (Some (end_of after (off + 2)))
      else Label (off + 1 + b) (s @ map (\<lambda>x. char_of (unat x)) (take b (drop (off + 1) m)) @ ''.'') after)"

fun name_run :: "nat \<Rightarrow> u8 list \<Rightarrow> name_state \<Rightarrow> (string \<times> nat) option" where
  "name_run n m (Complete s off) = Some (s, off)"
| "name_run n m Malformed = None"
| "name_run 0 m (Label off s after) = None"
| "name_run (Suc n) m (Label off s after) = name_run n m (name_step m off s after)"

definition wire_name :: "u8 list \<Rightarrow> nat \<Rightarrow> (string \<times> nat) option" where
  "wire_name m off = name_run 32 m (Label off [] None)"

definition wire16 :: "u8 list \<Rightarrow> nat \<Rightarrow> nat" where
  "wire16 m off = unat (m ! off) * 256 + unat (m ! (off + 1))"

fun wire_question :: "u8 list \<Rightarrow> (string \<times> nat) option \<Rightarrow> nat option" where
  "wire_question m None = None"
| "wire_question m (Some (_, off)) = (if length m < off + 4 then None else Some (off + 4))"

fun wire_questions :: "nat \<Rightarrow> u8 list \<Rightarrow> nat option \<Rightarrow> nat option" where
  "wire_questions k m None = None"
| "wire_questions 0 m (Some off) = Some off"
| "wire_questions (Suc k) m (Some off) = wire_questions k m (wire_question m (wire_name m off))"

text \<open>The data of a record: an address, or the place of a name.\<close>

datatype wire_data = Data rr | Alias rr_header nat | Broken

definition record_data :: "nat \<Rightarrow> rr_header \<Rightarrow> u8 list \<Rightarrow> nat \<Rightarrow> nat \<Rightarrow> wire_data" where
  "record_data type h m off len =
     (if length m < off + len then Broken
      else if type = 1 then (if len = 4 then Data (RR_A h (take 4 (drop off m))) else Broken)
      else if type = 28 then (if len = 16 then Data (RR_AAAA h (take 16 (drop off m))) else Broken)
      else if type = 5 then Alias h off
      else Data RR_Other)"

fun alias_record :: "rr_header \<Rightarrow> (string \<times> nat) option \<Rightarrow> rr option" where
  "alias_record h None = None"
| "alias_record h (Some (s, _)) = Some (RR_CNAME h s)"

fun resolve_data :: "u8 list \<Rightarrow> wire_data \<Rightarrow> rr option" where
  "resolve_data m Broken = None"
| "resolve_data m (Data r) = Some r"
| "resolve_data m (Alias h off) = alias_record h (wire_name m off)"

fun wire_record :: "u8 list \<Rightarrow> (string \<times> nat) option \<Rightarrow> (rr option \<times> nat) option" where
  "wire_record m None = None"
| "wire_record m (Some (name, off)) =
     (if length m < off + 10 then None
      else Some (resolve_data m (record_data (wire16 m off)
          \<lparr>hdr_name = name, hdr_ttl = of_nat (wire16 m (off + 4) * 65536 + wire16 m (off + 6))\<rparr>
          m (off + 10) (wire16 m (off + 8))), off + 10 + wire16 m (off + 8)))"

fun wire_records :: "nat \<Rightarrow> u8 list \<Rightarrow> rr list \<Rightarrow> (rr option \<times> nat) option \<Rightarrow> rr list option" where
  "wire_records k m rrs None = None"
| "wire_records k m rrs (Some (None, off)) = None"
| "wire_records 0 m rrs (Some (Some r, off)) = Some (rrs @ [r])"
| "wire_records (Suc k) m rrs (Some (Some r, off)) = wire_records k m (rrs @ [r]) (wire_record m (wire_name m off))"

fun wire_answer :: "nat \<Rightarrow> u8 list \<Rightarrow> nat option \<Rightarrow> rr list option" where
  "wire_answer k m None = None"
| "wire_answer 0 m (Some off) = Some []"
| "wire_answer (Suc k) m (Some off) = wire_records k m [] (wire_record m (wire_name m off))"

fun wire_message :: "u8 list \<Rightarrow> rr list option \<Rightarrow> dns_error + dns_msg" where
  "wire_message m None = Inl (UnpackError ''malformed'')"
| "wire_message m (Some rrs) = Inr \<lparr>msg_response = 128 \<le> unat (m ! 2), msg_answer = rrs\<rparr>"

definition wire_unpack :: unpacker where
  "wire_unpack m =
     (if length m < 12 then Inl (UnpackError ''header'')
      else wire_message m (wire_answer (wire16 m 6) m (wire_questions (wire16 m 4) m (Some 12))))"

section \<open>cache_test.go\<close>

definition test_names :: "string list" where
  "test_names = map (\<lambda>d. ''name-'' @ [d] @ ''.example'') ''01234567''"

text \<open>The cache both tests start with: eight names for 192.0.2.1, put at times 0 to 7.\<close>

definition full_names :: "(string \<Rightarrow> string \<Rightarrow> bool) \<Rightarrow> cache" where
  "full_names uf =
     foldl (\<lambda>c (i, name). cache_put uf c 1 2 [192, 0, 2, 1] name 60 (of_nat i))
       \<lparr>ca_entries = [], ca_capacity = 1\<rparr> (enumerate 0 test_names)"

text \<open>What a test looks at: the names found for an address, none if there is no entry.\<close>

definition found_names :: "cache \<Rightarrow> u64 \<Rightarrow> int \<Rightarrow> u8 list \<Rightarrow> dns_name list" where
  "found_names c cid family address = (case cache_find c cid family address of None \<Rightarrow> [] | Some e \<Rightarrow> en_names e)"

definition test_put_replaces_oldest :: "(string \<Rightarrow> string \<Rightarrow> bool) \<Rightarrow> bool" where
  "test_put_replaces_oldest uf \<longleftrightarrow>
     (let ns = found_names (cache_put uf (full_names uf) 1 2 [192, 0, 2, 1] ''new.example'' 60 8) 1 2 [192, 0, 2, 1]
      in length ns = MaxNames \<and> nm_value (ns ! 0) = ''name-1.example'' \<and>
         nm_value (ns ! (MaxNames - 1)) = ''new.example'')"

definition test_put_refreshes :: "(string \<Rightarrow> string \<Rightarrow> bool) \<Rightarrow> bool" where
  "test_put_refreshes uf \<longleftrightarrow>
     (let ns = found_names (cache_put uf (full_names uf) 1 2 [192, 0, 2, 1] ''NAME-0.EXAMPLE'' 120 100) 1 2 [192, 0, 2, 1]
      in nm_value (ns ! 0) = ''name-0.example'' \<and> nm_expires (ns ! 0) = 120000000100)"

lemma put_replaces_oldest_name_when_full: "test_put_replaces_oldest uf"
  by code_simp

lemma put_refreshes_existing_name_without_eviction: "test_put_refreshes uf"
  by code_simp

section \<open>dns_test.go\<close>

definition a_one :: "u8 list" where
  "a_one = [0x12, 0x34, 0x81, 0x80, 0, 1, 0, 1, 0, 0, 0, 0] @
     [7, 101, 120, 97, 109, 112, 108, 101] @ [3, 99, 111, 109] @
     [0, 0, 1, 0, 1, 0xc0, 0x0c, 0, 1, 0, 1, 0, 0, 0, 60, 0, 4, 1, 2, 3, 4]"

definition aaaa_one :: "u8 list" where
  "aaaa_one = [0, 1, 0x81, 0x80, 0, 1, 0, 1, 0, 0, 0, 0] @
     [7, 101, 120, 97, 109, 112, 108, 101] @ [3, 99, 111, 109] @
     [0, 0, 0x1c, 0, 1, 0xc0, 0x0c, 0, 0x1c, 0, 1, 0, 0, 0, 60, 0, 16,
      0x20, 1, 0x0d, 0xb8, 0, 0, 0, 0, 0, 0, 0, 0, 0, 0, 0, 1]"

definition cname_a :: "u8 list" where
  "cname_a = [0, 2, 0x81, 0x80, 0, 1, 0, 2, 0, 0, 0, 0] @
     [3, 119, 119, 119] @ [7, 101, 120, 97, 109, 112, 108, 101] @ [3, 99, 111, 109] @
     [0, 0, 1, 0, 1, 0xc0, 0x0c, 0, 5, 0, 1, 0, 0, 0, 30, 0, 2, 0xc0, 0x10,
      0xc0, 0x10, 0, 1, 0, 1, 0, 0, 0, 60, 0, 4, 5, 6, 7, 8]"

definition multi_a :: "u8 list" where
  "multi_a = [0, 3, 0x81, 0x80, 0, 1, 0, 2, 0, 0, 0, 0, 1] @ [120] @
     [0, 0, 1, 0, 1, 0xc0, 0x0c, 0, 1, 0, 1, 0, 0, 0, 60, 0, 4, 10, 0, 0, 1,
      0xc0, 0x0c, 0, 1, 0, 1, 0, 0, 0, 60, 0, 4, 10, 0, 0, 2]"

definition nxdomain :: "u8 list" where
  "nxdomain = [0, 4, 0x81, 0x83, 0, 1, 0, 0, 0, 0, 0, 0, 1] @ [120] @ [0, 0, 1, 0, 1]"

definition zero_ttl :: "u8 list" where
  "zero_ttl = [0, 5, 0x81, 0x80, 0, 1, 0, 1, 0, 0, 0, 0, 1] @ [122] @
     [0, 0, 1, 0, 1, 0xc0, 0x0c, 0, 1, 0, 1, 0, 0, 0, 0, 0, 4, 9, 9, 9, 9]"

text \<open>\<open>c.Find(...)\<close> is not nil; a parse without an error and with the given count; the two together.\<close>

abbreviation has :: "cache \<Rightarrow> u64 \<Rightarrow> int \<Rightarrow> u8 list \<Rightarrow> bool" where
  "has c cid family address \<equiv> cache_find c cid family address \<noteq> None"

definition parsed :: "(string \<Rightarrow> string \<Rightarrow> bool) \<Rightarrow> cache \<Rightarrow> u8 list \<Rightarrow> cache \<times> int \<times> dns_error option" where
  "parsed uf c message = parse_response wire_unpack uf c 7 message 1000000000"

definition new2 :: cache where "new2 = \<lparr>ca_entries = [], ca_capacity = 2\<rparr>"

definition test_addresses :: "(string \<Rightarrow> string \<Rightarrow> bool) \<Rightarrow> bool" where
  "test_addresses uf \<longleftrightarrow>
     (let (c, n, err) = parsed uf new2 a_one; (c', n', err') = parsed uf c aaaa_one in
      err = None \<and> n = 1 \<and> has c 7 2 [1, 2, 3, 4] \<and>
      err' = None \<and> n' = 1 \<and> has c' 7 10 [0x20, 1, 0x0d, 0xb8, 0, 0, 0, 0, 0, 0, 0, 0, 0, 0, 0, 1])"

definition test_aliases :: "(string \<Rightarrow> string \<Rightarrow> bool) \<Rightarrow> bool" where
  "test_aliases uf \<longleftrightarrow>
     (let (c, n, err) = parsed uf new2 cname_a in
      err = None \<and> n = 1 \<and> length (found_names c 7 2 [5, 6, 7, 8]) = 2 \<and>
      (let (c', n', err') = parsed uf c nxdomain in err' = None \<and> n' = 0) \<and>
      snd (snd (parsed uf c [0, 1, 2])) \<noteq> None \<and>
      snd (snd (parsed uf c (take (length a_one - 2) a_one))) \<noteq> None)"

definition after_zero_ttl :: "(string \<Rightarrow> string \<Rightarrow> bool) \<Rightarrow> cache" where
  "after_zero_ttl uf = fst (parsed uf (fst (parsed uf new2 multi_a)) zero_ttl)"

definition test_counts :: "(string \<Rightarrow> string \<Rightarrow> bool) \<Rightarrow> bool" where
  "test_counts uf \<longleftrightarrow>
     (let (c, n, err) = parsed uf new2 multi_a; (c', n', err') = parsed uf c zero_ttl in
      err = None \<and> n = 2 \<and> cache_count c = 2 \<and> err' = None \<and> n' = 1 \<and>
      length (found_names c' 7 2 [9, 9, 9, 9]) = 1 \<and>
      \<not> has (cache_prune c' (1000000000 + zeroTTLGracePeriod)) 7 2 [9, 9, 9, 9])"

definition test_duplicates :: "(string \<Rightarrow> string \<Rightarrow> bool) \<Rightarrow> bool" where
  "test_duplicates uf \<longleftrightarrow>
     (let c = cache_prune (after_zero_ttl uf) (1000000000 + zeroTTLGracePeriod);
          c = cache_put uf c 8 2 [1, 2, 3, 4] ''duplicate.example'' 1 1000000000;
          c = cache_put uf c 8 2 [1, 2, 3, 4] ''duplicate.example'' 2 1000000000;
          c' = cache_put uf c 8 2 [1, 2, 3, 4] ''alias.example'' 1 1000000000 in
      length (found_names c 8 2 [1, 2, 3, 4]) = 1 \<and> length (found_names c' 8 2 [1, 2, 3, 4]) = 2 \<and>
      \<not> has (cache_prune c' (1000000000 + 3000000000)) 8 2 [1, 2, 3, 4])"

definition test_families :: "(string \<Rightarrow> string \<Rightarrow> bool) \<Rightarrow> bool" where
  "test_families uf \<longleftrightarrow>
     (let v6 = [1, 2, 3, 4] @ replicate 12 0;
          c = cache_put uf new2 9 2 [1, 2, 3, 4] ''v4'' 10 1000000000;
          c = cache_put uf c 9 10 v6 ''v6'' 10 1000000000
      in has c 9 2 [1, 2, 3, 4] \<and> has c 9 10 v6)"

lemma dns_addresses: "test_addresses uf" by code_simp
lemma dns_aliases: "test_aliases uf" by code_simp
lemma dns_counts: "test_counts uf" by code_simp
lemma dns_duplicates: "test_duplicates uf" by code_simp
lemma dns_families: "test_families uf" by code_simp

end
