(* ===== verification/Spec2Isabelle.thy ===== *)
theory Spec2Isabelle
  imports NetmonSystem NetmonAbi NetmonPoll NetmonFlags WallTime VisScript LogFlow VisScreen AgentRun DnsTests
begin

text \<open>
  A model of isolated_agent's monitor: the eBPF programs and the Go program netmon in
  src/src/netmon-go, which print one CONNECT line for every connection a container opens, with the
  host names that captured DNS responses taught for its address; the bpftrace program audit.bt,
  which prints the files a container opens and the programs it starts; the scripts bpf_log.sh and bpf_vis.sh, which
  start both monitors and forward their lines; and the log server and dashboard in
  src/src/visualization, which collect the lines and display them; and agents/run.sh, which starts
  the containers.

  The program and its parts

  Six eBPF programs (bpf/netmon.bpf.c) are attached to the container's cgroup. connect4, connect6,
  sendmsg4 and sendmsg6 see socket addresses and submit a \<open>connection_event\<close>; cgroup_ingress and
  cgroup_egress see packets and submit a \<open>dns_packet_event\<close> for complete DNS messages over UDP. The
  records cross a ring buffer, whatever cannot be captured is counted per CPU. cmd/netmon/main.go
  finds the cgroup, attaches the programs, and polls the ring: DNS records go through
  internal/dnscache/dns.go into the cache of internal/dnscache/cache.go, connection records become
  CONNECT lines. audit.bt prints EXEC, RO and RW lines. bpf_log.sh starts both for one
  container and ends both when one ends; bpf_vis.sh posts every line it reads to server.js, which
  keeps the newest events and sends them on to the dashboards (public/app.js).

  Theories and code

  Prelude: machine words and bytes; the collections \<open>wire_simps\<close> and \<open>inv_intros\<close>.
  CLayout: sizes, offsets and bit-fields of C declarations. VmlinuxEnums, VmlinuxUapi, VmlinuxNet,
  VmlinuxMaps and VmlinuxKern: the declarations of bpf/vmlinux.h that belong to eBPF, member by
  member; definitions keep the C names with the prefix \<open>struct_\<close>, \<open>union_\<close> or \<open>enum_\<close>.
  NetmonEvents: bpf/netmon.h, the records and their memory images.
  NetmonBpf: bpf/netmon.bpf.c, one definition per function, on the state \<open>kstate\<close> (ring, counters) and
  with the kernel helpers' answers in \<open>bpf_env\<close>. NetmonBpfSpec: the reference \<open>classify\<close> of packets
  as byte lists and the proof that \<open>dns_packet\<close> implements it. NetmonBpfEvents: what each run
  submits, and \<open>kstep\<close>, any interleaving of runs.
  NetmonAbi: the numbers and offsets the programs rely on, read off the declarations.
  DnsCache: cache.go. DnsCacheFacts, DnsCacheOps: the cache as a map from container, family and
  address to entries, one refinement lemma per operation, the invariant \<open>cache_inv\<close>, and the interface
  \<open>name_cache\<close> through which parser and event loop use it, interpreted on the cache.
  DnsParse: dns.go. NetmonApp: decoding, handleEvent, printConnection, the poll iteration, the
  counters at the end. NetmonPipeline: a record submitted by a program and decoded by main.go;
  the interface \<open>record_log\<close>. NetmonSystem: \<open>sys_step\<close>, programs and poll loop in any order,
  \<open>reachable\<close> states and \<open>sys_inv\<close>. NetmonStartup: the checks, attaching, and shutdown of \<open>run\<close>, as a
  trace of effects. NetmonPoll: the loop of poll over a sequence of turns, and the whole of
  main.go, from the arguments to the exit status, with that loop inside. NetmonFlags: the command
  line, with what \<open>run\<close> uses of Go's flag and strconv packages, and its passing by bpf_log.sh.
  WallTime: the wall clock of a record and its text, with what is used of Go's time package, up to the
  server's milliseconds.
  DnsTests: the unit tests of cache_test.go and dns_test.go on the model, with a decoder for the
  messages they contain.
  AuditTrace: the filters and lines of audit.bt. LogScript: bpf_log.sh, with the commands it calls
  in the record \<open>log_world\<close>. VisScript: the processes of bpf_vis.sh. AgentRun: agents/run.sh.
  JsText: JavaScript strings as UTF-16 code units. VisServer: server.js and the interface
  \<open>bounded_log\<close> with its two providers, the server's buffer and (in VisDashboard) the dashboard.
  VisFields: the CONNECT line from netmon to the server's event. VisDashboard: the state of app.js,
  and a server and a dashboard joined by a stream of frames. LogFlow: the forwarding loop of
  bpf_vis.sh, and the way of CONNECT lines, in any mixture with audit lines, to the page.
  VisPaths, VisSelect, VisGraph, VisComponents, VisLayout, VisMarkup: directory roll-ups, the
  selection of events, the graph, its union-find, the grid cell of each component, and the texts
  put on the page. VisRender: \<open>render\<close>, the data it keeps between frames, and what a frame shows.
  JsJson: \<open>JSON.stringify\<close> on the arrays \<open>renderGraph\<close> writes. VisDraw: what \<open>renderGraph\<close> keeps between
  frames, \<open>drawing\<close>, with the simulation's ticks and drags. VisScreen: a page over time, \<open>screen\<close>:
  which handlers request an animation frame, and the status line.

  What is proved

  This theory: over all interleavings, every printed line is that of a connection record, in
  order, and its host names were taught by captured responses and had not expired; the invariants
  behind this; every submitted record can still be read.
  NetmonBpfEvents: the packet programs do what the reference says, capture exactly the complete
  DNS messages with their bytes, count everything else, and never reject traffic. NetmonEvents and
  NetmonAbi: the records have the C layout, the declarations of contexts, headers and records put every
  member at its offset, and the literal offsets are those of the headers. DnsCacheOps: Put and Prune as map operations, least
  recent eviction, no overflow of expiry times, bounds. DnsParse: only the answers of a
  response are learned. NetmonPipeline: encoding and decoding round trip. NetmonStartup: nothing
  stays attached or open, the order of attaching, exit codes, the cgroup search. NetmonPoll: the
  program returns exactly if a check fails or some turn stops the loop, all it prints is explained
  by what it read, and the end of the container is noticed by the first maintenance after it.
  AuditTrace: the lines of audit.bt come back as events with their fields, if no text on them can be
  taken for a field. LogScript: no monitor
  is left running, both watch one container as long as it is not restarted meanwhile, and when
  the script returns; VisScript the same of bpf_vis.sh. AgentRun: a container sees its workspace and
  the state of its agent. LogFlow: the
  connections of a container appear at the dashboard, in order and complete, up to its bound, under
  the same condition and if every curl succeeds.
  Vis theories: the buffer holds the newest events, the dashboard follows it, lines come back field
  by field, the selection keeps the newest example of each relationship, the roll-up loop ends
  within its bounds, the groups are the connected components and share a grid cell exactly then, escaped text carries no
  markup. JsJson: the JSON text determines the value. VisDraw: the shortcut for an unchanged topology
  draws what a full redraw would. VisScreen: whichever order handlers and frames run in, the page
  shows the current events unless a frame is pending, which then does. NetmonFlags: overflow of a
  number is detected exactly, and netmon gets the inode bpf_log.sh has resolved, unless a further
  --cgroup-id replaces it. WallTime: the text of
  a time determines it to the nanosecond, the event holds it to the millisecond.
  Besides, each theory proves ordinary theorems on branches and errors (rejected Puts and responses,
  ring records, shutdown counters, layout of the ring buffer pages, attach numbers, forged lines,
  label lengths, host names that override fields).

  Conventions, bounds and loops

  Fixed-width integers are words, so overflow is the code's. The target is little-endian. Go
  strings are byte lists; slices are lists, with the in-place filtering of Prune modelled on
  the shared array. Errors are options or sums. Loops over finite data are structural recursion.
  The poll loop is one iteration as a function plus \<open>sys_step\<close>; a bounded number of iterations,
  one per unread record, is shown to be enough to drain the ring. As a loop it is the partial
  function \<open>poll_loop\<close> in the option type, and it returns if and only if some turn stops it. Other
  loops whose end is not evident (the directory roll-up, find and path compression) are partial
  functions too, and their end is proved: a rank that falls with every raised directory, the
  length of the path to the root. Positions of the grid are exact rational numbers.
  The descriptor of the cgroup directory, which \<open>run\<close> closes right after opening it, is not in the trace.

  Parameters

  What the kernel helpers return, \<open>bpf_skb_load_bytes\<close> (assumed to read the packet), the DNS wire
  decoder (miekg/dns), the part of strings.EqualFold after the first non-ASCII byte, clocks and
  the formatting of time by bpftrace, system calls and the eBPF loader at startup (the record
  \<open>world\<close>) and of run.sh (\<open>agent_world\<close>), what each turn of the poll loop sees, the builtins of bpftrace, the outcome of the
  commands the scripts call and of each curl, \<open>strconv.Quote\<close> in messages, the ticks of the simulation, the decoding of UTF-8 in a posted body, Fastify,
  \<open>Date.parse\<close>, uncommon number literals and non-ASCII case mapping in JavaScript, the colour scale.

  Not modelled

  The rest of vmlinux.h: generated declarations of kernel parts the programs do not touch. The
  verifier, the loader and concurrent writes to one counter slot. Serving of static files. What
  app.js leaves to d3: attributes of the drawn elements, axes and bins of the timeline, the forces of
  the simulation, zoom.
  Container images, packaging and the integration test, which needs Docker.
\<close>

section \<open>Properties\<close>

text \<open>
  An iteration of the poll loop leaves the loop exactly on a signal, a failed read, or a changed
  cgroup identity found by the maintenance that is due every 30 seconds; otherwise the cache stays
  well formed, the maintenance time moves only when maintenance was done, and then no expired name
  is left.
\<close>

theorem poll_iteration_outcome:
  assumes "cache_inv uf (app_cache app)"
  shows "((\<exists>z. poll_iteration unpack uf app last' signal r now verify = Inl z) \<longleftrightarrow>
      signal \<or> (\<exists>m. r = ReadFailed m) \<or> 30000000000 \<le> now - last' \<and> \<not> verify) \<and>
    (\<forall>a l out. poll_iteration unpack uf app last' signal r now verify = Inr (a, l, out) \<longrightarrow>
      cache_inv uf (app_cache a) \<and>
      (if now - last' < 30000000000 then l = last'
       else l = now \<and> (\<forall>k. \<forall>n \<in> set (names_of (app_cache a) k). now < nm_expires n)))"
  using poll_stops poll_continues [OF assms] by blast

theorem poll_iteration_outcome_witness:
  "\<exists>z. poll_iteration sample_unpack no_unicode (run_app run_learned) 0 False ReadDeadline 30000000000 False = Inl z"
proof -
  have "cache_inv no_unicode (app_cache (run_app run_learned))"
    by (simp add: run_app_def run_learned_inv)
  from poll_iteration_outcome [OF this, of sample_unpack 0 False ReadDeadline 30000000000 False]
  show ?thesis by simp
qed

text \<open>
  C1. Whatever the interleaving of program runs and poll iterations, every printed line belongs to
  a connection record that was read, and each of its hostnames, at most eight and none with DNS
  off, was taught for that record's destination by a completely captured DNS response read before,
  and had not expired at the record's timestamp.
\<close>

theorem printed_hostnames_explained:
  assumes "reachable unpack uf cid noDNS x" and "l \<in> set (sy_printed x)"
  shows "line_explained unpack uf cid noDNS (consumed x) l \<and> length (cl_hostnames l) \<le> 8 \<and>
    (noDNS \<longrightarrow> cl_hostnames l = [])"
proof -
  from reachable_inv [OF assms(1)] assms(2)
  have l: "line_explained unpack uf cid noDNS (consumed x) l" by (simp add: sys_inv_def)
  moreover from l have "length (cl_hostnames l) \<le> 8" by (rule line_explained_bound)
  moreover from l have "noDNS \<longrightarrow> cl_hostnames l = []" by (auto dest: line_explained_noDNS)
  ultimately show ?thesis by blast
qed

theorem printed_hostnames_explained_witness:
  "line_explained sample_unpack no_unicode 7 False
     [dns_packet_image run_dns, connection_image run_connection] run_line \<and>
   cl_hostnames run_line = [''host.example'', ''www.example'']"
  using printed_hostnames_explained [OF run_reachable, of run_line] run_consumed
  by (simp add: run_state_def run_line_def)

text \<open>
  C2. The printed lines are, in order and without loss or duplication, those of the connection
  records read, with their own timestamp, ids, comm, protocol, destination and port.
\<close>

theorem printed_lines_are_the_connections:
  assumes "reachable unpack uf cid noDNS x"
  shows "map without_names (sy_printed x) =
    map plain_line (List.map_filter connection_of_record (consumed x))"
  using reachable_inv [OF assms] by (simp add: sys_inv_def)

theorem printed_lines_are_the_connections_witness:
  "[without_names run_line] = map plain_line (List.map_filter connection_of_record
     [dns_packet_image run_dns, connection_image run_connection])"
  using printed_lines_are_the_connections [OF run_reachable] run_consumed by (simp add: run_state_def)

text \<open>
  C3. In every reachable state the ring holds well-formed records only, the cache is well formed,
  the reader is not ahead of the writers, and every cached name was learned from a record already
  read.
\<close>

theorem reachable_states_wellformed:
  assumes "reachable unpack uf cid noDNS x"
  shows "ring_ok (sy_kernel x) \<and> cache_inv uf (app_cache (sy_app x)) \<and>
    sy_read x \<le> length (ks_events (sy_kernel x)) \<and>
    names_learned unpack uf cid noDNS (consumed x) (app_cache (sy_app x))"
  using reachable_inv [OF assms] by (simp add: sys_inv_def)

theorem reachable_states_wellformed_witness:
  "ring_ok run_kernel2 \<and> cache_inv no_unicode run_learned"
  using reachable_states_wellformed [OF run_reachable] by (simp add: run_state_def run_app_def)

text \<open>
  C4. From every reachable state the poll loop can go on to read every record the programs have
  submitted, and then every connection among them has been printed.
\<close>

theorem records_can_be_drained:
  assumes "reachable unpack uf cid noDNS x"
  shows "\<exists>y. (sys_step unpack uf)\<^sup>*\<^sup>* x y \<and> consumed y = ks_events (sy_kernel x) \<and>
    map without_names (sy_printed y) =
      map plain_line (List.map_filter connection_of_record (ks_events (sy_kernel x)))"
proof -
  have "sy_read x \<le> length (ks_events (sy_kernel x))"
    using reachable_inv [OF assms] by (simp add: sys_inv_def)
  from drain [OF this] obtain y where y: "(sys_step unpack uf)\<^sup>*\<^sup>* x y" "sy_kernel y = sy_kernel x"
    "sy_read y = length (ks_events (sy_kernel x))" by blast
  then have "consumed y = ks_events (sy_kernel x)" by (simp add: consumed_def)
  moreover have "reachable unpack uf cid noDNS y"
    using y(1) assms by (induction rule: rtranclp_induct) (auto intro: reachable_step)
  ultimately show ?thesis using y(1) reachable_inv by (fastforce simp: sys_inv_def)
qed

theorem records_can_be_drained_witness:
  "\<exists>y. (sys_step sample_unpack no_unicode)\<^sup>*\<^sup>* (run_state run_kernel2 (Suc 1) run_learned [run_line]) y \<and>
     consumed y = [dns_packet_image run_dns, connection_image run_connection]"
  using records_can_be_drained [OF run_reachable] by (auto simp: run_state_def run_kernel2_events)

end
